theory Spec2Isabelle
  imports Main "HOL-Library.Word"
begin

unbundle bit_operations_syntax

section \<open>The svremove plugin of TSDuck: data model\<close>

text \<open>
  Source: \<^verbatim>\<open>src/tsplugins/tsplugin_svremove.cpp\<close>, class \<^verbatim>\<open>ts::SVRemovePlugin\<close>.
  The plugin removes one service from an MPEG transport stream. Everything the plugin
  itself computes is embedded below, function by function and under the names of the
  source. The classes it uses but which are declared in headers outside the plugin file
  (descriptor lists, the section demultiplexer, the cycling packetizer, the table codecs)
  are modelled only as far as the plugin calls them; each such definition says so.
\<close>

type_synonym u8 = "8 word"
type_synonym u16 = "16 word"
type_synonym u32 = "32 word"

text \<open>
  Modelled from the spec: the type \<^verbatim>\<open>PID\<close> and the class \<^verbatim>\<open>PIDSet\<close> are declared outside
  the plugin file. A PID is the 13-bit channel selector of a packet (0..8191) and a PID set
  is a set over the PID space.
\<close>

type_synonym PID = "13 word"
type_synonym PIDSet = "PID set"
type_synonym TID = u8
type_synonym DID = u8
type_synonym PDS = u32

subsection \<open>Constants of the MPEG/DVB standards\<close>

text \<open>
  Modelled from the spec: the constants \<^verbatim>\<open>PID_*\<close>, \<^verbatim>\<open>TID_*\<close>, \<^verbatim>\<open>DID_*\<close> and \<^verbatim>\<open>PDS_EICTA\<close>
  are declared in a header outside the plugin file; the values are the ones the MPEG and DVB
  standards assign.
\<close>

definition PID_PAT :: PID where "PID_PAT = 0x0000"
definition PID_CAT :: PID where "PID_CAT = 0x0001"
definition PID_TSDT :: PID where "PID_TSDT = 0x0002"
definition PID_NIT :: PID where "PID_NIT = 0x0010"
definition PID_SDT :: PID where "PID_SDT = 0x0011"
definition PID_BAT :: PID where "PID_BAT = 0x0011"
definition PID_EIT :: PID where "PID_EIT = 0x0012"
definition PID_RST :: PID where "PID_RST = 0x0013"
definition PID_TDT :: PID where "PID_TDT = 0x0014"
definition PID_NETSYNC :: PID where "PID_NETSYNC = 0x0015"
definition PID_RNT :: PID where "PID_RNT = 0x0016"
definition PID_INBSIGN :: PID where "PID_INBSIGN = 0x001C"
definition PID_MEASURE :: PID where "PID_MEASURE = 0x001D"
definition PID_DIT :: PID where "PID_DIT = 0x001E"
definition PID_SIT :: PID where "PID_SIT = 0x001F"
definition PID_NULL :: PID where "PID_NULL = 0x1FFF"

definition TID_PAT :: TID where "TID_PAT = 0x00"
definition TID_PMT :: TID where "TID_PMT = 0x02"
definition TID_NIT_ACT :: TID where "TID_NIT_ACT = 0x40"
definition TID_NIT_OTH :: TID where "TID_NIT_OTH = 0x41"
definition TID_SDT_ACT :: TID where "TID_SDT_ACT = 0x42"
definition TID_SDT_OTH :: TID where "TID_SDT_OTH = 0x46"
definition TID_BAT :: TID where "TID_BAT = 0x4A"

definition DID_CA :: DID where "DID_CA = 0x09"
definition DID_SERVICE_LIST :: DID where "DID_SERVICE_LIST = 0x41"
definition DID_LOGICAL_CHANNEL_NUM :: DID where "DID_LOGICAL_CHANNEL_NUM = 0x83"
definition PDS_EICTA :: PDS where "PDS_EICTA = 0x00000028"

subsection \<open>Descriptors and descriptor lists\<close>

text \<open>
  Modelled from the spec: the classes \<^verbatim>\<open>Descriptor\<close> and \<^verbatim>\<open>DescriptorList\<close> are declared
  outside the plugin file. A descriptor is a tag and a payload of bytes; a descriptor list
  holds the descriptors in order, each with the private data specifier in force at its
  place (the "private descriptor namespace" of the spec).
\<close>

record Descriptor =
  tag :: DID
  payload :: "u8 list"

record Element =
  desc :: Descriptor
  pds :: PDS

type_synonym DescriptorList = "Element list"

text \<open>
  Modelled from the spec: \<^verbatim>\<open>DescriptorList::search (tag, start_index, pds)\<close> is the index of the
  first descriptor at or after \<^verbatim>\<open>start_index\<close> with this tag (and, for a private tag searched
  with a non-zero specifier, under this specifier), or an index that is not below
  \<^verbatim>\<open>count()\<close> when there is none. The defaults of the source are \<^verbatim>\<open>start_index = 0\<close> and
  \<^verbatim>\<open>pds = 0\<close>.
\<close>

definition search_match :: "DID \<Rightarrow> PDS \<Rightarrow> Element \<Rightarrow> bool" where
  "search_match t p e =
     (tag (desc e) = t \<and> \<not> ((p \<noteq> 0 \<and> 0x80 \<le> t) \<and> pds e \<noteq> p))"

definition search :: "DescriptorList \<Rightarrow> DID \<Rightarrow> nat \<Rightarrow> PDS \<Rightarrow> nat" where
  "search dlist t start_index p =
     start_index + length (takeWhile (\<lambda>e. \<not> search_match t p e) (drop start_index dlist))"

text \<open>
  Modelled from the spec: \<^verbatim>\<open>Descriptor::resizePayload\<close> truncates the payload to the new
  length (the plugin never passes a length above the current one).
\<close>

definition resizePayload :: "nat \<Rightarrow> Descriptor \<Rightarrow> Descriptor" where
  "resizePayload new_size d = d\<lparr>payload := take new_size (payload d)\<rparr>"

text \<open>
  Modelled from the spec: \<^verbatim>\<open>GetUInt16\<close> is declared outside the plugin file; it reads the
  16-bit big-endian integer at an address, here the bytes \<open>p\<close> and \<open>p + 1\<close> of a buffer.
\<close>

definition GetUInt16 :: "u8 list \<Rightarrow> nat \<Rightarrow> u16" where
  "GetUInt16 b p = push_bit 8 (ucast (b ! p)) OR ucast (b ! (p + 1))"

section \<open>The descriptor list editor\<close>

text \<open>
  \<^verbatim>\<open>processNITBATDescriptorList\<close> holds the same loop twice: over the 3-byte records of a
  service list descriptor and over the 4-byte records of a logical channel number
  descriptor. The loop compacts the payload in place through the pointers \<^verbatim>\<open>data\<close> (read)
  and \<^verbatim>\<open>new_data\<close> (write), here offsets from \<^verbatim>\<open>base\<close>. The model takes the record size as
  the parameter \<open>k\<close> and keeps a trace of the offsets the loop reads and writes, in the
  order of the source, so that what the loop touches can be stated.
\<close>

datatype access = Rd nat | Wr nat

text \<open>
  The assignments \<^verbatim>\<open>new_data[0] = data[0]; ...; new_data[k-1] = data[k-1]\<close>, one after the
  other on the same buffer.
\<close>

fun copy_record :: "nat \<Rightarrow> u8 list \<Rightarrow> nat \<Rightarrow> nat \<Rightarrow> u8 list" where
  "copy_record 0 b d n = b"
| "copy_record (Suc j) b d n =
     (let b' = copy_record j b d n in b'[n + j := b' ! (d + j)])"

fun copy_trace :: "nat \<Rightarrow> nat \<Rightarrow> nat \<Rightarrow> access list" where
  "copy_trace 0 d n = []"
| "copy_trace (Suc j) d n = copy_trace j d n @ [Rd (d + j), Wr (n + j)]"

text \<open>
  The loop \<^verbatim>\<open>while (size >= k) { if (GetUInt16 (data) != _service.getId()) {copy; new_data += k;}
  data += k; size -= k; }\<close> (\<open>sz\<close> is the variable \<^verbatim>\<open>size\<close>). It returns the buffer, the final \<^verbatim>\<open>new_data\<close> and the trace.
  The source has \<open>k = 3\<close> and \<open>k = 4\<close>; the test \<open>0 < k\<close> is there for the termination proof.
\<close>

function compact_loop ::
  "nat \<Rightarrow> u16 \<Rightarrow> u8 list \<Rightarrow> nat \<Rightarrow> nat \<Rightarrow> nat \<Rightarrow> access list \<Rightarrow> u8 list \<times> nat \<times> access list"
where
  "compact_loop k sid b data new_data sz tr =
     (if k \<le> sz \<and> 0 < k then
        (if GetUInt16 b data \<noteq> sid then
           compact_loop k sid (copy_record k b data new_data) (data + k) (new_data + k)
             (sz - k) (tr @ [Rd data, Rd (data + 1)] @ copy_trace k data new_data)
         else
           compact_loop k sid b (data + k) new_data (sz - k) (tr @ [Rd data, Rd (data + 1)]))
      else (b, new_data, tr))"
  by pat_completeness auto
termination
  by (relation "measure (\<lambda>(k, sid, b, data, new_data, sz, tr). sz)") auto

text \<open>
  One descriptor: \<^verbatim>\<open>base = payload(); size = payloadSize(); data = new_data = base;\<close> the
  loop; \<^verbatim>\<open>resizePayload (new_data - base)\<close>.
\<close>

definition compact_payload :: "nat \<Rightarrow> u16 \<Rightarrow> u8 list \<Rightarrow> u8 list" where
  "compact_payload k sid p =
     (case compact_loop k sid p 0 0 (length p) [] of (b, new_data, tr) \<Rightarrow> take new_data b)"

definition compact_accesses :: "nat \<Rightarrow> u16 \<Rightarrow> u8 list \<Rightarrow> access list" where
  "compact_accesses k sid p =
     (case compact_loop k sid p 0 0 (length p) [] of (b, new_data, tr) \<Rightarrow> tr)"

definition compact_descriptor :: "nat \<Rightarrow> u16 \<Rightarrow> Descriptor \<Rightarrow> Descriptor" where
  "compact_descriptor k sid d =
     (case compact_loop k sid (payload d) 0 0 (length (payload d)) [] of
        (b, new_data, tr) \<Rightarrow> resizePayload new_data (d\<lparr>payload := b\<rparr>))"

text \<open>
  The loop \<^verbatim>\<open>for (i = dlist.search (tag, 0, pds); i < dlist.count(); i = dlist.search (tag, i + 1, pds))\<close>
  with the body editing \<^verbatim>\<open>dlist[i]\<close> in place.
\<close>

function edit_loop ::
  "DID \<Rightarrow> PDS \<Rightarrow> (Descriptor \<Rightarrow> Descriptor) \<Rightarrow> DescriptorList \<Rightarrow> nat \<Rightarrow> DescriptorList"
where
  "edit_loop t p f dlist i =
     (if i < length dlist then
        (let dlist' = dlist[i := (dlist ! i)\<lparr>desc := f (desc (dlist ! i))\<rparr>]
         in edit_loop t p f dlist' (search dlist' t (i + 1) p))
      else dlist)"
  by pat_completeness auto
termination
  by (relation "measure (\<lambda>(t, p, f, dlist, i). length dlist - i)") (auto simp: search_def)

text \<open>
  \<^verbatim>\<open>processNITBATDescriptorList\<close>: first all service list descriptors (searched with the
  default specifier 0), then all logical channel number descriptors under the EICTA
  specifier. \<open>sid\<close> is \<^verbatim>\<open>_service.getId()\<close>.
\<close>

definition processNITBATDescriptorList :: "u16 \<Rightarrow> DescriptorList \<Rightarrow> DescriptorList" where
  "processNITBATDescriptorList sid dlist =
     (let dlist1 = edit_loop DID_SERVICE_LIST 0 (compact_descriptor 3 sid) dlist
                     (search dlist DID_SERVICE_LIST 0 0)
      in edit_loop DID_LOGICAL_CHANNEL_NUM PDS_EICTA (compact_descriptor 4 sid) dlist1
           (search dlist1 DID_LOGICAL_CHANNEL_NUM 0 PDS_EICTA))"

section \<open>Tables, collaborators and the state of the plugin\<close>

subsection \<open>The service to remove\<close>

text \<open>
  Modelled from the spec: the class \<^verbatim>\<open>Service\<close> is declared outside the plugin file. The spec
  gives it as \<^verbatim>\<open>{ id: Optional<u16>, name: Optional<string>, pmt_pid: Optional<u16> }\<close>;
  the accessor of an unset id returns 0. \<^verbatim>\<open>Service::set\<close> takes the command line argument:
  a numeric id if it lexes as one, a name otherwise (the lexing is outside the plugin; the
  model starts from its result).
\<close>

record Service =
  sv_id :: "u16 option"
  sv_name :: "string option"
  sv_pmt_pid :: "PID option"

definition hasId :: "Service \<Rightarrow> bool" where
  "hasId sv = (sv_id sv \<noteq> None)"

definition getId :: "Service \<Rightarrow> u16" where
  "getId sv = (case sv_id sv of Some i \<Rightarrow> i | None \<Rightarrow> 0)"

definition setPMTPID :: "PID \<Rightarrow> Service \<Rightarrow> Service" where
  "setPMTPID p sv = sv\<lparr>sv_pmt_pid := Some p\<rparr>"

datatype service_arg = ById u16 | ByName string

definition Service_set :: "service_arg \<Rightarrow> Service" where
  "Service_set a =
     (case a of
        ById i \<Rightarrow> \<lparr>sv_id = Some i, sv_name = None, sv_pmt_pid = None\<rparr>
      | ByName n \<Rightarrow> \<lparr>sv_id = None, sv_name = Some n, sv_pmt_pid = None\<rparr>)"

subsection \<open>Decoded tables\<close>

text \<open>
  Modelled from the spec: the table classes are declared outside the plugin file; the
  records hold the fields the plugin reads and writes. A \<^verbatim>\<open>std::map\<close> is a list of pairs in
  the order of iteration (ascending keys); \<^verbatim>\<open>erase (key)\<close> removes the entries of the key.
  \<^verbatim>\<open>BAT\<close> and \<^verbatim>\<open>NIT\<close> are both an \<^verbatim>\<open>AbstractTransportListTable\<close>, whose table id extension is
  the \<^verbatim>\<open>bouquet_id\<close> of the one and the \<^verbatim>\<open>network_id\<close> of the other.
\<close>

definition erase :: "'k \<Rightarrow> ('k \<times> 'v) list \<Rightarrow> ('k \<times> 'v) list" where
  "erase k m = filter (\<lambda>e. fst e \<noteq> k) m"

record PAT =
  nit_pid :: PID
  pmts :: "(u16 \<times> PID) list"

record Stream =
  stream_type :: u8
  stream_descs :: DescriptorList

record PMT =
  service_id :: u16
  pcr_pid :: PID
  pmt_descs :: DescriptorList
  streams :: "(PID \<times> Stream) list"

record SDT_Service =
  serviceName :: string

record SDT =
  ts_id :: u16
  services :: "(u16 \<times> SDT_Service) list"

record AbstractTransportListTable =
  tid_ext :: u16
  descs :: DescriptorList
  transports :: "((u16 \<times> u16) \<times> DescriptorList) list"

definition bouquet_id :: "AbstractTransportListTable \<Rightarrow> u16" where
  "bouquet_id t = tid_ext t"

definition network_id :: "AbstractTransportListTable \<Rightarrow> u16" where
  "network_id t = tid_ext t"

text \<open>
  Modelled from the spec: a \<^verbatim>\<open>BinaryTable\<close> is a complete table as the demultiplexer delivers
  it, annotated with table id, source PID, table id extension and version. The codecs are
  outside the plugin file: the binary content is modelled by what decoding it gives, and
  \<^verbatim>\<open>PAT pat (table); pat.isValid()\<close> succeeds exactly when the content is a PAT (and so on).
\<close>

datatype table_content =
    Content_PAT PAT
  | Content_PMT PMT
  | Content_SDT SDT
  | Content_BAT AbstractTransportListTable
  | Content_NIT AbstractTransportListTable
  | Content_other

record BinaryTable =
  tableId :: TID
  sourcePID :: PID
  tableIdExtension :: u16
  table_version :: u8
  content :: table_content

definition decode_PAT :: "BinaryTable \<Rightarrow> PAT option" where
  "decode_PAT t = (case content t of Content_PAT x \<Rightarrow> Some x | _ \<Rightarrow> None)"

definition decode_PMT :: "BinaryTable \<Rightarrow> PMT option" where
  "decode_PMT t = (case content t of Content_PMT x \<Rightarrow> Some x | _ \<Rightarrow> None)"

definition decode_SDT :: "BinaryTable \<Rightarrow> SDT option" where
  "decode_SDT t = (case content t of Content_SDT x \<Rightarrow> Some x | _ \<Rightarrow> None)"

definition decode_BAT :: "BinaryTable \<Rightarrow> AbstractTransportListTable option" where
  "decode_BAT t = (case content t of Content_BAT x \<Rightarrow> Some x | _ \<Rightarrow> None)"

definition decode_NIT :: "BinaryTable \<Rightarrow> AbstractTransportListTable option" where
  "decode_NIT t = (case content t of Content_NIT x \<Rightarrow> Some x | _ \<Rightarrow> None)"

subsection \<open>The cycling packetizer\<close>

text \<open>
  Modelled from the spec: the class \<^verbatim>\<open>CyclingPacketizer\<close> is declared outside the plugin
  file. The spec gives \<^verbatim>\<open>set_output_pid\<close>, \<^verbatim>\<open>reset\<close>, \<^verbatim>\<open>remove_prior (table_kind, key)\<close>,
  \<^verbatim>\<open>enqueue (table_object)\<close> and \<^verbatim>\<open>produce_next_packet\<close>. The model keeps the output PID and
  the queued tables in the order they were added; a queued table is the binary table
  passed on unmodified or the object the plugin edited.
\<close>

datatype queued =
    Unmodified BinaryTable
  | Modified_PAT PAT
  | Modified_SDT SDT
  | Modified_BAT AbstractTransportListTable
  | Modified_NIT AbstractTransportListTable

fun queued_tid :: "queued \<Rightarrow> TID" where
  "queued_tid (Unmodified t) = tableId t"
| "queued_tid (Modified_PAT x) = TID_PAT"
| "queued_tid (Modified_SDT x) = TID_SDT_ACT"
| "queued_tid (Modified_BAT x) = TID_BAT"
| "queued_tid (Modified_NIT x) = TID_NIT_ACT"

fun queued_ext :: "queued \<Rightarrow> u16 option" where
  "queued_ext (Unmodified t) = Some (tableIdExtension t)"
| "queued_ext (Modified_PAT x) = None"
| "queued_ext (Modified_SDT x) = Some (ts_id x)"
| "queued_ext (Modified_BAT x) = Some (bouquet_id x)"
| "queued_ext (Modified_NIT x) = Some (network_id x)"

record CyclingPacketizer =
  pzer_pid :: PID
  sections :: "queued list"

definition setPID :: "PID \<Rightarrow> CyclingPacketizer \<Rightarrow> CyclingPacketizer" where
  "setPID p z = z\<lparr>pzer_pid := p\<rparr>"

definition pzer_reset :: "CyclingPacketizer \<Rightarrow> CyclingPacketizer" where
  "pzer_reset z = z\<lparr>sections := []\<rparr>"

definition removeSections :: "TID \<Rightarrow> CyclingPacketizer \<Rightarrow> CyclingPacketizer" where
  "removeSections t z = z\<lparr>sections := filter (\<lambda>q. queued_tid q \<noteq> t) (sections z)\<rparr>"

definition removeSections_ext :: "TID \<Rightarrow> u16 \<Rightarrow> CyclingPacketizer \<Rightarrow> CyclingPacketizer" where
  "removeSections_ext t e z =
     z\<lparr>sections := filter (\<lambda>q. \<not> (queued_tid q = t \<and> queued_ext q = Some e)) (sections z)\<rparr>"

definition addTable :: "queued \<Rightarrow> CyclingPacketizer \<Rightarrow> CyclingPacketizer" where
  "addTable q z = z\<lparr>sections := sections z @ [q]\<rparr>"

subsection \<open>The section demultiplexer\<close>

text \<open>
  Modelled from the spec: the class \<^verbatim>\<open>SectionDemux\<close> is declared outside the plugin file. The
  spec gives \<^verbatim>\<open>register (pid)\<close>, \<^verbatim>\<open>reset (pid)\<close> and \<^verbatim>\<open>feed (packet)\<close>, which may invoke the
  handler with a complete table. The model keeps the registered PIDs and, as the state of a
  PID, the tables already delivered from it (source PID, table id, table id extension,
  version): a table is delivered once, until the state of its PID is reset. \<^verbatim>\<open>reset()\<close>
  forgets the state of every PID and keeps the registered PIDs.
\<close>

type_synonym table_key = "PID \<times> TID \<times> u16 \<times> u8"

record SectionDemux =
  pid_filter :: PIDSet
  delivered :: "table_key set"

definition table_key_of :: "BinaryTable \<Rightarrow> table_key" where
  "table_key_of t = (sourcePID t, tableId t, tableIdExtension t, table_version t)"

definition demux_reset :: "SectionDemux \<Rightarrow> SectionDemux" where
  "demux_reset d = d\<lparr>delivered := {}\<rparr>"

definition addPID :: "PID \<Rightarrow> SectionDemux \<Rightarrow> SectionDemux" where
  "addPID p d = d\<lparr>pid_filter := insert p (pid_filter d)\<rparr>"

definition resetPID :: "PID \<Rightarrow> SectionDemux \<Rightarrow> SectionDemux" where
  "resetPID p d = d\<lparr>delivered := {k \<in> delivered d. fst k \<noteq> p}\<rparr>"

subsection \<open>Packets, status and what else is outside the plugin\<close>

text \<open>
  Modelled from the spec: \<^verbatim>\<open>TSPacket\<close> and \<^verbatim>\<open>ProcessorPlugin::Status\<close> are declared outside the
  plugin file. A packet is its PID and its bytes; the status tells the caller to pass the
  packet (\<^verbatim>\<open>TSP_OK\<close>), to end the stream (\<^verbatim>\<open>TSP_END\<close>), to remove the packet (\<^verbatim>\<open>TSP_DROP\<close>) or to
  replace it with a null packet (\<^verbatim>\<open>TSP_NULL\<close>).
\<close>

record TSPacket =
  getPID :: PID
  bytes :: "u8 list"

datatype Status = TSP_OK | TSP_END | TSP_DROP | TSP_NULL

text \<open>
  Three functions the plugin calls are neither in the plugin file nor fixed by the spec;
  the model takes them as parameters, bundled in one record:
  \<^item> \<open>ca_pid_of\<close>: \<^verbatim>\<open>CADescriptor ca (desc)\<close>, \<open>None\<close> when \<^verbatim>\<open>ca.isValid()\<close> is false and
    \<^verbatim>\<open>ca.ca_pid\<close> otherwise;
  \<^item> \<open>similar\<close>: the comparison of service names (not case sensitive, blanks ignored);
  \<^item> \<open>getNextPacket\<close>: the next packet of a packetizer and the packetizer after it.
\<close>

record externals =
  ca_pid_of :: "Descriptor \<Rightarrow> PID option"
  similar :: "string \<Rightarrow> string \<Rightarrow> bool"
  getNextPacket :: "CyclingPacketizer \<Rightarrow> TSPacket \<times> CyclingPacketizer"

text \<open>
  Modelled from the spec: \<^verbatim>\<open>SDT::findService (Service&)\<close> scans the service entries of the SDT
  for a matching name; on success the id of the first match is stored in the service.
\<close>

fun findService_name :: "externals \<Rightarrow> (u16 \<times> SDT_Service) list \<Rightarrow> string \<Rightarrow> u16 option" where
  "findService_name x [] n = None"
| "findService_name x (e # es) n =
     (if similar x (serviceName (snd e)) n then Some (fst e) else findService_name x es n)"

definition findService :: "externals \<Rightarrow> SDT \<Rightarrow> Service \<Rightarrow> Service option" where
  "findService x sdt sv =
     (case sv_name sv of
        None \<Rightarrow> None
      | Some n \<Rightarrow>
          (case findService_name x (services sdt) n of
             None \<Rightarrow> None
           | Some i \<Rightarrow> Some (sv\<lparr>sv_id := Some i\<rparr>)))"

subsection \<open>The state of the plugin\<close>

text \<open>
  The private fields of \<^verbatim>\<open>SVRemovePlugin\<close>, without the leading underscore. \<open>report\<close> is
  what the plugin has sent to \<^verbatim>\<open>tsp->error\<close>, \<^verbatim>\<open>warning\<close>, \<^verbatim>\<open>info\<close> and \<^verbatim>\<open>verbose\<close>, in order (the
  text without its formatted numbers); the debug message of \<^verbatim>\<open>handleTable\<close> is left out.
\<close>

datatype severity = Error | Warning | Info | Verbose

record plugin =
  abort :: bool
  ready :: bool
  transparent :: bool
  service :: Service
  ignore_absent :: bool
  ignore_bat :: bool
  ignore_nit :: bool
  drop_status :: Status
  drop_pids :: PIDSet
  ref_pids :: PIDSet
  demux :: SectionDemux
  pzer_pat :: CyclingPacketizer
  pzer_sdt_bat :: CyclingPacketizer
  pzer_nit :: CyclingPacketizer
  report :: "(severity \<times> string) list"

definition tsp_report :: "severity \<Rightarrow> string \<Rightarrow> plugin \<Rightarrow> plugin" where
  "tsp_report sev msg s = s\<lparr>report := report s @ [(sev, msg)]\<rparr>"

section \<open>The operations of the plugin\<close>

subsection \<open>start\<close>

text \<open>
  The options of the command line, as \<^verbatim>\<open>start\<close> reads them with \<^verbatim>\<open>value\<close> and \<^verbatim>\<open>present\<close>.
\<close>

record options =
  opt_service :: service_arg
  opt_ignore_absent :: bool
  opt_ignore_bat :: bool
  opt_ignore_nit :: bool
  opt_stuffing :: bool

definition standard_pids :: PIDSet where
  "standard_pids =
     {PID_PAT, PID_CAT, PID_TSDT, PID_NULL, PID_NIT, PID_SDT, PID_EIT, PID_RST, PID_TDT,
      PID_NETSYNC, PID_RNT, PID_INBSIGN, PID_MEASURE, PID_DIT, PID_SIT}"

definition start :: "options \<Rightarrow> plugin \<Rightarrow> plugin" where
  "start opts s =
     (let sv = Service_set (opt_service opts);
          d0 = addPID PID_SDT (demux_reset (demux s));
          d1 = (if hasId sv then
                  (let d = addPID PID_PAT d0
                   in if \<not> opt_ignore_nit opts then addPID PID_NIT d else d)
                else d0)
      in s\<lparr>service := sv,
           ignore_absent := opt_ignore_absent opts,
           ignore_bat := opt_ignore_bat opts,
           ignore_nit := opt_ignore_nit opts,
           drop_status := (if opt_stuffing opts then TSP_NULL else TSP_DROP),
           demux := d1,
           ref_pids := standard_pids,
           abort := False,
           ready := False,
           transparent := False,
           drop_pids := {},
           pzer_pat := pzer_reset (pzer_pat s),
           pzer_sdt_bat := pzer_reset (pzer_sdt_bat s),
           pzer_nit := pzer_reset (pzer_nit s)\<rparr>)"

text \<open>
  The constructor sets the demultiplexer and the output PIDs of the three packetizers;
  every other field is set by \<^verbatim>\<open>start\<close>.
\<close>

definition constructed :: plugin where
  "constructed =
     \<lparr>abort = False, ready = False, transparent = False,
      service = \<lparr>sv_id = None, sv_name = None, sv_pmt_pid = None\<rparr>,
      ignore_absent = False, ignore_bat = False, ignore_nit = False,
      drop_status = TSP_DROP, drop_pids = {}, ref_pids = {},
      demux = \<lparr>pid_filter = {}, delivered = {}\<rparr>,
      pzer_pat = \<lparr>pzer_pid = PID_PAT, sections = []\<rparr>,
      pzer_sdt_bat = \<lparr>pzer_pid = PID_SDT, sections = []\<rparr>,
      pzer_nit = \<lparr>pzer_pid = PID_NIT, sections = []\<rparr>,
      report = []\<rparr>"

subsection \<open>processSDT\<close>

text \<open>
  The first half of \<^verbatim>\<open>processSDT\<close>, up to the comment "Remove service description in the
  SDT": \<open>None\<close> is the early \<^verbatim>\<open>return\<close> of the by-name search that fails, given with the
  state at the return.
\<close>

definition processSDT_lookup :: "externals \<Rightarrow> plugin \<Rightarrow> SDT \<Rightarrow> plugin + plugin" where
  "processSDT_lookup x s sdt =
     (if hasId (service s) then
        (let found = (getId (service s) \<in> set (map fst (services sdt)))
         in if \<not> found then Inr (tsp_report Info ''service not found in SDT, ignoring it'' s)
            else Inr s)
      else
        (case findService x sdt (service s) of
           None \<Rightarrow>
             (if ignore_absent s then
                Inl ((tsp_report Warning ''service not found in SDT, ignoring it'' s)
                       \<lparr>transparent := True\<rparr>)
              else
                Inl ((tsp_report Error ''service not found in SDT'' s)\<lparr>abort := True\<rparr>))
         | Some sv \<Rightarrow>
             (let s1 = s\<lparr>service := sv\<rparr>;
                  s2 = s1\<lparr>demux := addPID PID_PAT (demux s1)\<rparr>;
                  s3 = (if \<not> ignore_nit s2 then s2\<lparr>demux := addPID PID_NIT (demux s2)\<rparr> else s2)
              in Inr (tsp_report Verbose ''found service'' s3))))"

text \<open>
  \<^verbatim>\<open>processSDT\<close> returns the state and the SDT, which it takes by reference.
\<close>

definition processSDT :: "externals \<Rightarrow> plugin \<Rightarrow> SDT \<Rightarrow> plugin \<times> SDT" where
  "processSDT x s sdt =
     (case processSDT_lookup x s sdt of
        Inl s1 \<Rightarrow> (s1, sdt)
      | Inr s1 \<Rightarrow>
          (let sdt1 = (if hasId (service s1)
                       then sdt\<lparr>services := erase (getId (service s1)) (services sdt)\<rparr>
                       else sdt)
           in (s1\<lparr>pzer_sdt_bat :=
                     addTable (Modified_SDT sdt1)
                       (removeSections_ext TID_SDT_ACT (ts_id sdt1) (pzer_sdt_bat s1))\<rparr>,
               sdt1)))"

subsection \<open>processPAT\<close>

text \<open>
  The loop over \<^verbatim>\<open>pat.pmts\<close>, with the local variable \<^verbatim>\<open>found\<close>.
\<close>

fun pat_loop :: "(u16 \<times> PID) list \<Rightarrow> plugin \<Rightarrow> bool \<Rightarrow> plugin \<times> bool" where
  "pat_loop [] s found = (s, found)"
| "pat_loop (it # rest) s found =
     (let s1 = s\<lparr>demux := addPID (snd it) (demux s)\<rparr>
      in if fst it = getId (service s1) then
           (let s2 = s1\<lparr>service := setPMTPID (snd it) (service s1)\<rparr>;
                s3 = tsp_report Verbose ''found service id, PMT PID'' s2
            in pat_loop rest (s3\<lparr>drop_pids := insert (snd it) (drop_pids s3)\<rparr>) True)
         else pat_loop rest (s1\<lparr>ref_pids := insert (snd it) (ref_pids s1)\<rparr>) found)"

text \<open>
  \<^verbatim>\<open>processPAT\<close> returns the state and the PAT, which it takes by reference; \<open>None\<close> is the
  failure of \<^verbatim>\<open>assert (_service.hasId())\<close>.
\<close>

definition processPAT :: "plugin \<Rightarrow> PAT \<Rightarrow> (plugin \<times> PAT) option" where
  "processPAT s pat =
     (if \<not> hasId (service s) then None
      else
        (let s1 = s\<lparr>pzer_nit := setPID (nit_pid pat) (pzer_nit s)\<rparr>;
             s2 = s1\<lparr>demux := addPID (nit_pid pat) (demux s1)\<rparr>;
             (s3, found) = pat_loop (pmts pat) s2 False;
             (s4, pat1) =
               (if found then (s3, pat\<lparr>pmts := erase (getId (service s3)) (pmts pat)\<rparr>)
                else if ignore_absent s3 \<or> \<not> ignore_nit s3 \<or> \<not> ignore_bat s3 then
                  ((tsp_report Info ''service id not found in PAT, ignoring it'' s3)
                     \<lparr>ready := True\<rparr>, pat)
                else
                  ((tsp_report Error ''service id not found in PAT'' s3)\<lparr>abort := True\<rparr>, pat))
         in Some (s4\<lparr>pzer_pat := addTable (Modified_PAT pat1)
                                     (removeSections TID_PAT (pzer_pat s4))\<rparr>,
                  pat1)))"

subsection \<open>processPMT and addECMPID\<close>

text \<open>
  \<^verbatim>\<open>addECMPID\<close>: the loop \<^verbatim>\<open>for (index = dlist.search (DID_CA); index < dlist.count();
  index = dlist.search (DID_CA, index + 1))\<close> over the CA descriptors.
\<close>

function addECMPID_loop :: "externals \<Rightarrow> DescriptorList \<Rightarrow> nat \<Rightarrow> PIDSet \<Rightarrow> PIDSet" where
  "addECMPID_loop x dlist index pid_set =
     (if index < length dlist then
        addECMPID_loop x dlist (search dlist DID_CA (index + 1) 0)
          (case ca_pid_of x (desc (dlist ! index)) of
             None \<Rightarrow> pid_set
           | Some p \<Rightarrow> insert p pid_set)
      else pid_set)"
  by pat_completeness auto
termination
  by (relation "measure (\<lambda>(x, dlist, index, pid_set). length dlist - index)")
     (auto simp: search_def)

definition addECMPID :: "externals \<Rightarrow> DescriptorList \<Rightarrow> PIDSet \<Rightarrow> PIDSet" where
  "addECMPID x dlist pid_set = addECMPID_loop x dlist (search dlist DID_CA 0 0) pid_set"

text \<open>
  The loop over \<^verbatim>\<open>pmt.streams\<close>.
\<close>

fun streams_loop :: "externals \<Rightarrow> (PID \<times> Stream) list \<Rightarrow> PIDSet \<Rightarrow> PIDSet" where
  "streams_loop x [] pid_set = pid_set"
| "streams_loop x (it # rest) pid_set =
     streams_loop x rest (addECMPID x (stream_descs (snd it)) (insert (fst it) pid_set))"

text \<open>
  \<^verbatim>\<open>processPMT\<close>: the reference \<^verbatim>\<open>pid_set\<close> is \<^verbatim>\<open>_drop_pids\<close> or \<^verbatim>\<open>_ref_pids\<close>; the model
  computes the new set and stores it in the field the reference stands for.
\<close>

definition processPMT :: "externals \<Rightarrow> plugin \<Rightarrow> PMT \<Rightarrow> plugin" where
  "processPMT x s pmt =
     (let removed_service = (service_id pmt = getId (service s));
          pid_set = (if removed_service then drop_pids s else ref_pids s);
          pid_set1 = addECMPID x (pmt_descs pmt) pid_set;
          pid_set2 = insert (pcr_pid pmt) pid_set1;
          pid_set3 = streams_loop x (streams pmt) pid_set2;
          s1 = (if removed_service then s\<lparr>drop_pids := pid_set3\<rparr>
                else s\<lparr>ref_pids := pid_set3\<rparr>)
      in s1\<lparr>ready := (ready s1 \<or> removed_service)\<rparr>)"

subsection \<open>processNITBAT\<close>

text \<open>
  The loop over \<^verbatim>\<open>table.transports\<close>, and \<^verbatim>\<open>processNITBAT\<close>, which edits the table it takes by
  reference.
\<close>

fun transports_loop ::
  "u16 \<Rightarrow> ((u16 \<times> u16) \<times> DescriptorList) list \<Rightarrow> ((u16 \<times> u16) \<times> DescriptorList) list"
where
  "transports_loop sid [] = []"
| "transports_loop sid (it # rest) =
     (fst it, processNITBATDescriptorList sid (snd it)) # transports_loop sid rest"

definition processNITBAT :: "plugin \<Rightarrow> AbstractTransportListTable \<Rightarrow> AbstractTransportListTable" where
  "processNITBAT s table =
     (let t1 = table\<lparr>descs := processNITBATDescriptorList (getId (service s)) (descs table)\<rparr>
      in t1\<lparr>transports := transports_loop (getId (service s)) (transports t1)\<rparr>)"

subsection \<open>handleTable\<close>

text \<open>
  The \<^verbatim>\<open>switch\<close> on the table id. \<open>None\<close> is the failed assertion of \<^verbatim>\<open>processPAT\<close>.
\<close>

definition handleTable :: "externals \<Rightarrow> plugin \<Rightarrow> BinaryTable \<Rightarrow> plugin option" where
  "handleTable x s table =
     (if tableId table = TID_PAT then
        (if sourcePID table = PID_PAT then
           (case decode_PAT table of
              Some pat \<Rightarrow> map_option fst (processPAT s pat)
            | None \<Rightarrow> Some s)
         else Some s)
      else if tableId table = TID_PMT then
        (case decode_PMT table of
           Some pmt \<Rightarrow> Some (processPMT x s pmt)
         | None \<Rightarrow> Some s)
      else if tableId table = TID_SDT_ACT then
        (if sourcePID table = PID_SDT then
           (case decode_SDT table of
              Some sdt \<Rightarrow> Some (fst (processSDT x s sdt))
            | None \<Rightarrow> Some s)
         else Some s)
      else if tableId table = TID_SDT_OTH then
        (if sourcePID table = PID_SDT then
           Some (s\<lparr>pzer_sdt_bat :=
                     addTable (Unmodified table)
                       (removeSections_ext TID_SDT_OTH (tableIdExtension table) (pzer_sdt_bat s))\<rparr>)
         else Some s)
      else if tableId table = TID_BAT then
        (if sourcePID table = PID_BAT then
           (if \<not> hasId (service s) then
              Some (s\<lparr>demux := resetPID (sourcePID table) (demux s)\<rparr>)
            else if ignore_bat s then
              Some (s\<lparr>pzer_sdt_bat :=
                        addTable (Unmodified table)
                          (removeSections_ext TID_BAT (tableIdExtension table) (pzer_sdt_bat s))\<rparr>)
            else
              (case decode_BAT table of
                 Some bat \<Rightarrow>
                   (let bat1 = processNITBAT s bat
                    in Some (s\<lparr>pzer_sdt_bat :=
                                 addTable (Modified_BAT bat1)
                                   (removeSections_ext TID_BAT (bouquet_id bat1) (pzer_sdt_bat s))\<rparr>))
               | None \<Rightarrow> Some s))
         else Some s)
      else if tableId table = TID_NIT_ACT then
        (if sourcePID table = PID_NIT then
           (if ignore_nit s then
              Some (s\<lparr>pzer_nit :=
                        addTable (Unmodified table)
                          (removeSections_ext TID_NIT_ACT (tableIdExtension table) (pzer_nit s))\<rparr>)
            else
              (case decode_NIT table of
                 Some nit \<Rightarrow>
                   (let nit1 = processNITBAT s nit
                    in Some (s\<lparr>pzer_nit :=
                                 addTable (Modified_NIT nit1)
                                   (removeSections_ext TID_NIT_ACT (network_id nit1) (pzer_nit s))\<rparr>))
               | None \<Rightarrow> Some s))
         else Some s)
      else if tableId table = TID_NIT_OTH then
        (if sourcePID table = PID_NIT then
           Some (s\<lparr>pzer_nit :=
                     addTable (Unmodified table)
                       (removeSections_ext TID_NIT_OTH (tableIdExtension table) (pzer_nit s))\<rparr>)
         else Some s)
      else Some s)"

subsection \<open>processPacket\<close>

text \<open>
  Modelled from the spec: \<^verbatim>\<open>SectionDemux::feedPacket\<close> is outside the plugin file. Which
  tables a packet completes depends on the bytes of the stream; the model takes them as the
  input \<open>tabs\<close>. A table is handed to \<^verbatim>\<open>handleTable\<close> when it comes from the PID of the packet,
  this PID is registered, and the table was not delivered before; it is marked as delivered
  before the handler runs, so that a \<^verbatim>\<open>resetPID\<close> of the handler clears the mark.
\<close>

definition deliver :: "externals \<Rightarrow> TSPacket \<Rightarrow> plugin \<Rightarrow> BinaryTable \<Rightarrow> plugin option" where
  "deliver x pkt s t =
     (if sourcePID t = getPID pkt \<and> getPID pkt \<in> pid_filter (demux s)
         \<and> table_key_of t \<notin> delivered (demux s)
      then handleTable x
             (s\<lparr>demux := (demux s)\<lparr>delivered := insert (table_key_of t) (delivered (demux s))\<rparr>\<rparr>) t
      else Some s)"

fun feedPacket :: "externals \<Rightarrow> plugin \<Rightarrow> TSPacket \<Rightarrow> BinaryTable list \<Rightarrow> plugin option" where
  "feedPacket x s pkt [] = Some s"
| "feedPacket x s pkt (t # ts) =
     (case deliver x pkt s t of
        None \<Rightarrow> None
      | Some s1 \<Rightarrow> feedPacket x s1 pkt ts)"

text \<open>
  \<^verbatim>\<open>processPacket\<close> returns the status, the packet (which it takes by reference) and the
  state; \<open>None\<close> is a failed assertion in a handler. \<open>route\<close> is the body of
  \<^verbatim>\<open>processPacket\<close> after the call of \<^verbatim>\<open>_demux.feedPacket\<close>, from the test of \<^verbatim>\<open>_abort\<close> on.
\<close>

definition route :: "externals \<Rightarrow> plugin \<Rightarrow> TSPacket \<Rightarrow> Status \<times> TSPacket \<times> plugin" where
  "route x s pkt =
     (let pid = getPID pkt in
      if abort s then (TSP_END, pkt, s)
      else if \<not> ready s then (drop_status s, pkt, s)
      else if pid \<in> drop_pids s \<and> pid \<notin> ref_pids s then (drop_status s, pkt, s)
      else if pid = pzer_pid (pzer_pat s) then
        (case getNextPacket x (pzer_pat s) of (p, z) \<Rightarrow> (TSP_OK, p, s\<lparr>pzer_pat := z\<rparr>))
      else if pid = pzer_pid (pzer_sdt_bat s) then
        (case getNextPacket x (pzer_sdt_bat s) of (p, z) \<Rightarrow> (TSP_OK, p, s\<lparr>pzer_sdt_bat := z\<rparr>))
      else if \<not> ignore_nit s \<and> pid = pzer_pid (pzer_nit s) then
        (case getNextPacket x (pzer_nit s) of (p, z) \<Rightarrow> (TSP_OK, p, s\<lparr>pzer_nit := z\<rparr>))
      else (TSP_OK, pkt, s))"

definition processPacket ::
  "externals \<Rightarrow> plugin \<Rightarrow> TSPacket \<Rightarrow> BinaryTable list \<Rightarrow> (Status \<times> TSPacket \<times> plugin) option"
where
  "processPacket x s pkt tabs =
     (if transparent s then Some (TSP_OK, pkt, s)
      else
        (case feedPacket x s pkt tabs of
           None \<Rightarrow> None
         | Some s1 \<Rightarrow> Some (route x s1 pkt)))"

text \<open>
  A run: the caller passes the packets one by one and stops at \<^verbatim>\<open>TSP_END\<close>. The result is
  the statuses and packets returned and the final state.
\<close>

fun run ::
  "externals \<Rightarrow> plugin \<Rightarrow> (TSPacket \<times> BinaryTable list) list \<Rightarrow>
   ((Status \<times> TSPacket) list \<times> plugin) option"
where
  "run x s [] = Some ([], s)"
| "run x s (i # rest) =
     (case processPacket x s (fst i) (snd i) of
        None \<Rightarrow> None
      | Some (st, p, s1) \<Rightarrow>
          (if st = TSP_END then Some ([(st, p)], s1)
           else (case run x s1 rest of
                   None \<Rightarrow> None
                 | Some (out, s2) \<Rightarrow> Some ((st, p) # out, s2))))"

section \<open>Definitions that follow the words of the specification\<close>

text \<open>
  These definitions are not taken from the source: they say what the specification
  promises, and the theorems below compare them with the embedding of the source.
\<close>

subsection \<open>Records of a descriptor payload\<close>

text \<open>
  The complete records of \<open>k\<close> bytes of a payload, in order; bytes after the last complete
  record belong to no record. The service id of a record is its leading 16-bit integer.
\<close>

function records :: "nat \<Rightarrow> u8 list \<Rightarrow> u8 list list" where
  "records k p = (if 0 < k \<and> k \<le> length p then take k p # records k (drop k p) else [])"
  by pat_completeness auto
termination
  by (relation "measure (\<lambda>(k, p). length p)") auto

definition record_id :: "u8 list \<Rightarrow> u16" where
  "record_id r = GetUInt16 r 0"

definition kept_records :: "nat \<Rightarrow> u16 \<Rightarrow> u8 list \<Rightarrow> u8 list list" where
  "kept_records k sid p = filter (\<lambda>r. record_id r \<noteq> sid) (records k p)"

text \<open>
  What the editor is to do with one element of a descriptor list: the payload of a service
  list descriptor and of a logical channel number descriptor under the EICTA specifier
  becomes the records that do not name the service, in order; nothing else changes.
\<close>

definition spec_edit :: "u16 \<Rightarrow> Element \<Rightarrow> Element" where
  "spec_edit sid e =
     (if tag (desc e) = DID_SERVICE_LIST then
        e\<lparr>desc := (desc e)\<lparr>payload := concat (kept_records 3 sid (payload (desc e)))\<rparr>\<rparr>
      else if tag (desc e) = DID_LOGICAL_CHANNEL_NUM \<and> pds e = PDS_EICTA then
        e\<lparr>desc := (desc e)\<lparr>payload := concat (kept_records 4 sid (payload (desc e)))\<rparr>\<rparr>
      else e)"

text \<open>
  All elements of the descriptor lists of a NIT or BAT: the global list and the list of
  each transport stream.
\<close>

definition all_elements :: "AbstractTransportListTable \<Rightarrow> Element list" where
  "all_elements t = descs t @ concat (map snd (transports t))"

text \<open>
  The offset of an access of the compaction loop, and the offset at which the trailing
  partial record of a payload starts (its length when there is none).
\<close>

fun offset :: "access \<Rightarrow> nat" where
  "offset (Rd i) = i"
| "offset (Wr i) = i"

definition complete_length :: "nat \<Rightarrow> u8 list \<Rightarrow> nat" where
  "complete_length k p = length p - length p mod k"

subsection \<open>PIDs a PMT names\<close>

text \<open>
  The PIDs of the CA descriptors of a descriptor list that decode (the ECM PIDs), and the
  PIDs a PMT names: the ECM PIDs at program level, the PCR PID, the PID of every
  elementary stream and the ECM PIDs at component level.
\<close>

definition ecm_pid :: "externals \<Rightarrow> Element \<Rightarrow> PIDSet" where
  "ecm_pid x e =
     (if tag (desc e) = DID_CA
      then (case ca_pid_of x (desc e) of Some p \<Rightarrow> {p} | None \<Rightarrow> {})
      else {})"

definition ecm_pids :: "externals \<Rightarrow> DescriptorList \<Rightarrow> PIDSet" where
  "ecm_pids x dlist = \<Union> (set (map (ecm_pid x) dlist))"

definition pmt_pids :: "externals \<Rightarrow> PMT \<Rightarrow> PIDSet" where
  "pmt_pids x pmt =
     ecm_pids x (pmt_descs pmt) \<union> {pcr_pid pmt} \<union> set (map fst (streams pmt))
     \<union> \<Union> (set (map (\<lambda>it. ecm_pids x (stream_descs (snd it))) (streams pmt)))"

subsection \<open>PMT PIDs of a PAT\<close>

text \<open>
  The PMT PIDs a PAT gives for the service id \<open>sid\<close>, and those it gives for all other
  services.
\<close>

definition pmt_pids_of :: "u16 \<Rightarrow> PAT \<Rightarrow> PIDSet" where
  "pmt_pids_of sid pat = set (map snd (filter (\<lambda>e. fst e = sid) (pmts pat)))"

definition other_pmt_pids :: "u16 \<Rightarrow> PAT \<Rightarrow> PIDSet" where
  "other_pmt_pids sid pat = set (map snd (filter (\<lambda>e. fst e \<noteq> sid) (pmts pat)))"

definition listed :: "u16 \<Rightarrow> (u16 \<times> 'v) list \<Rightarrow> bool" where
  "listed sid m = (sid \<in> set (map fst m))"

subsection \<open>Growth of the state within a run\<close>

text \<open>
  What a run may change between two states: the two PID sets only grow, the three phase
  flags are only set, the options stay, and an id that is known stays.
\<close>

definition grows :: "plugin \<Rightarrow> plugin \<Rightarrow> bool" where
  "grows s s' =
     (drop_pids s \<subseteq> drop_pids s' \<and> ref_pids s \<subseteq> ref_pids s'
      \<and> (abort s \<longrightarrow> abort s') \<and> (ready s \<longrightarrow> ready s') \<and> (transparent s \<longrightarrow> transparent s')
      \<and> ignore_absent s' = ignore_absent s \<and> ignore_bat s' = ignore_bat s
      \<and> ignore_nit s' = ignore_nit s \<and> drop_status s' = drop_status s
      \<and> (hasId (service s) \<longrightarrow> sv_id (service s') = sv_id (service s)))"

text \<open>
  As long as the id of the service is not known, only the PID of the SDT and BAT is
  registered with the demultiplexer.
\<close>

definition registered_after_id :: "plugin \<Rightarrow> bool" where
  "registered_after_id s = (hasId (service s) \<or> pid_filter (demux s) \<subseteq> {PID_SDT})"

subsection \<open>The outcomes of the packet router\<close>

text \<open>
  The outcomes the specification lists for a packet, and the one it selects by priority
  from the state after the demultiplexer was fed.
\<close>

datatype outcome =
    Terminate
  | Drop_behaviour
  | Replace_from_PAT
  | Replace_from_SDT_BAT
  | Replace_from_NIT
  | Pass_unchanged

definition selected_outcome :: "plugin \<Rightarrow> PID \<Rightarrow> outcome" where
  "selected_outcome s pid =
     (if abort s then Terminate
      else if \<not> ready s then Drop_behaviour
      else if pid \<in> drop_pids s \<and> pid \<notin> ref_pids s then Drop_behaviour
      else if pid = pzer_pid (pzer_pat s) then Replace_from_PAT
      else if pid = pzer_pid (pzer_sdt_bat s) then Replace_from_SDT_BAT
      else if \<not> ignore_nit s \<and> pid = pzer_pid (pzer_nit s) then Replace_from_NIT
      else Pass_unchanged)"

text \<open>
  What an outcome means for the caller: the status returned, the packet returned and the
  state left.
\<close>

fun outcome_result :: "externals \<Rightarrow> plugin \<Rightarrow> TSPacket \<Rightarrow> outcome \<Rightarrow> Status \<times> TSPacket \<times> plugin" where
  "outcome_result x s pkt Terminate = (TSP_END, pkt, s)"
| "outcome_result x s pkt Drop_behaviour = (drop_status s, pkt, s)"
| "outcome_result x s pkt Replace_from_PAT =
     (TSP_OK, fst (getNextPacket x (pzer_pat s)), s\<lparr>pzer_pat := snd (getNextPacket x (pzer_pat s))\<rparr>)"
| "outcome_result x s pkt Replace_from_SDT_BAT =
     (TSP_OK, fst (getNextPacket x (pzer_sdt_bat s)),
      s\<lparr>pzer_sdt_bat := snd (getNextPacket x (pzer_sdt_bat s))\<rparr>)"
| "outcome_result x s pkt Replace_from_NIT =
     (TSP_OK, fst (getNextPacket x (pzer_nit s)), s\<lparr>pzer_nit := snd (getNextPacket x (pzer_nit s))\<rparr>)"
| "outcome_result x s pkt Pass_unchanged = (TSP_OK, pkt, s)"

subsection \<open>An instance of the functions outside the plugin\<close>

text \<open>
  For the evaluation of the model on concrete inputs: a CA descriptor is valid with at
  least four bytes of payload and names the PID in the low 13 bits of its third and fourth
  byte; names are compared as they are; every packetizer produces a packet on its PID and
  stays as it is.
\<close>

definition sample_externals :: externals where
  "sample_externals =
     \<lparr>ca_pid_of = (\<lambda>d. if 4 \<le> length (payload d) then Some (ucast (GetUInt16 (payload d) 2 AND 0x1FFF))
                        else None),
      similar = (\<lambda>a b. a = b),
      getNextPacket = (\<lambda>z. (\<lparr>getPID = pzer_pid z, bytes = []\<rparr>, z))\<rparr>"

subsection \<open>Descriptors that name a service\<close>


section \<open>The compaction loop\<close>

declare records.simps [simp del] compact_loop.simps [simp del] edit_loop.simps [simp del]

lemma copy_record_length: "length (copy_record j b d n) = length b"
  by (induction j) (simp_all add: Let_def)

lemma copy_record_nth:
  "n \<le> d \<Longrightarrow> d + j \<le> length b \<Longrightarrow> i < length b \<Longrightarrow>
   copy_record j b d n ! i = (if n \<le> i \<and> i < n + j then b ! (d + (i - n)) else b ! i)"
proof (induction j arbitrary: i)
  case 0
  then show ?case by auto
next
  case (Suc j)
  let ?b = "copy_record j b d n"
  have len: "length ?b = length b" by (rule copy_record_length)
  have src: "?b ! (d + j) = b ! (d + j)"
    using Suc.IH [of "d + j"] Suc.prems by simp
  show ?case
  proof (cases "i = n + j")
    case True
    then show ?thesis using Suc.prems src len by (simp add: Let_def)
  next
    case False
    then show ?thesis using Suc.IH [of i] Suc.prems len by (auto simp: Let_def)
  qed
qed

lemma copy_record_take:
  assumes "n \<le> d" "d + k \<le> length b"
  shows "take (n + k) (copy_record k b d n) = take n b @ take k (drop d b)"
proof (rule nth_equalityI)
  show "length (take (n + k) (copy_record k b d n)) = length (take n b @ take k (drop d b))"
    using assms by (simp add: copy_record_length)
next
  fix i assume "i < length (take (n + k) (copy_record k b d n))"
  then have i: "i < n + k" "i < length b" by (simp_all add: copy_record_length)
  show "take (n + k) (copy_record k b d n) ! i = (take n b @ take k (drop d b)) ! i"
    using i assms by (auto simp: copy_record_nth nth_append)
qed

lemma copy_record_drop:
  assumes "n \<le> d" "d + k \<le> length b"
  shows "drop (d + k) (copy_record k b d n) = drop (d + k) b"
proof (rule nth_equalityI)
  show "length (drop (d + k) (copy_record k b d n)) = length (drop (d + k) b)"
    by (simp add: copy_record_length)
next
  fix i assume "i < length (drop (d + k) (copy_record k b d n))"
  then have i: "d + k + i < length b" by (simp add: copy_record_length)
  show "drop (d + k) (copy_record k b d n) ! i = drop (d + k) b ! i"
    using i assms by (simp add: copy_record_nth copy_record_length)
qed

lemma record_id_take:
  "2 \<le> k \<Longrightarrow> d + k \<le> length b \<Longrightarrow> record_id (take k (drop d b)) = GetUInt16 b d"
  by (simp add: record_id_def GetUInt16_def)

lemma compact_loop_result:
  "2 \<le> k \<Longrightarrow> new_data \<le> data \<Longrightarrow> data + sz = length b \<Longrightarrow>
   compact_loop k sid b data new_data sz tr = (b', n', tr') \<Longrightarrow>
   take n' b' = take new_data b @ concat (kept_records k sid (drop data b))"
proof (induction k sid b data new_data sz tr rule: compact_loop.induct)
  case (1 k sid b data new_data sz tr)
  show ?case
  proof (cases "k \<le> sz")
    case False
    then have "records k (drop data b) = []"
      using "1.prems" by (simp add: records.simps)
    moreover have "b' = b" "n' = new_data"
      using False "1.prems" by (simp_all add: compact_loop.simps)
    ultimately show ?thesis by (simp add: kept_records_def)
  next
    case True
    have k0: "0 < k" using "1.prems" by simp
    have bound: "data + k \<le> length b" using True "1.prems" by simp
    have recs: "records k (drop data b) = take k (drop data b) # records k (drop (data + k) b)"
      using True k0 "1.prems" by (subst records.simps) (simp add: add.commute)
    have rid: "record_id (take k (drop data b)) = GetUInt16 b data"
      using "1.prems" bound by (simp add: record_id_take)
    show ?thesis
    proof (cases "GetUInt16 b data \<noteq> sid")
      case keep: True
      let ?b = "copy_record k b data new_data"
      have call: "compact_loop k sid ?b (data + k) (new_data + k) (sz - k)
                    (tr @ [Rd data, Rd (data + 1)] @ copy_trace k data new_data) = (b', n', tr')"
        using True k0 keep "1.prems"(4) by (subst (asm) compact_loop.simps) simp
      have "take n' b' = take (new_data + k) ?b @ concat (kept_records k sid (drop (data + k) ?b))"
        using "1.IH"(1) [OF _ keep _ _ _ call] True k0 "1.prems" by (simp add: copy_record_length)
      then show ?thesis
        using keep rid recs "1.prems"(2) bound
        by (simp add: copy_record_take copy_record_drop kept_records_def)
    next
      case skip: False
      have call: "compact_loop k sid b (data + k) new_data (sz - k)
                    (tr @ [Rd data, Rd (data + 1)]) = (b', n', tr')"
        using True k0 skip "1.prems"(4) by (subst (asm) compact_loop.simps) simp
      have "take n' b' = take new_data b @ concat (kept_records k sid (drop (data + k) b))"
        using "1.IH"(2) [OF _ skip _ _ _ call] True k0 "1.prems" by simp
      then show ?thesis
        using skip rid recs by (simp add: kept_records_def)
    qed
  qed
qed

lemma compact_payload_eq:
  assumes k: "2 \<le> k"
  shows "compact_payload k sid p = concat (kept_records k sid p)"
proof -
  obtain b' n' tr' where r: "compact_loop k sid p 0 0 (length p) [] = (b', n', tr')"
    by (cases "compact_loop k sid p 0 0 (length p) []") auto
  from compact_loop_result [OF k _ _ r] show ?thesis
    by (simp add: compact_payload_def r)
qed

lemma compact_descriptor_eq:
  "2 \<le> k \<Longrightarrow> compact_descriptor k sid d = d\<lparr>payload := concat (kept_records k sid (payload d))\<rparr>"
  using compact_payload_eq [of k sid "payload d"]
  by (simp add: compact_descriptor_def compact_payload_def resizePayload_def split: prod.splits)

lemma records_length: "r \<in> set (records k p) \<Longrightarrow> length r = k"
  by (induction k p rule: records.induct) (subst (asm) records.simps, auto split: if_splits)

lemma concat_dvd: "(\<And>r. r \<in> set rs \<Longrightarrow> length r = k) \<Longrightarrow> k dvd length (concat rs)"
  by (induction rs) auto

lemma kept_dvd: "k dvd length (concat (kept_records k sid p))"
  by (rule concat_dvd) (auto simp: kept_records_def records_length)

subsection \<open>What the loop reads and writes\<close>

lemma copy_trace_offset: "a \<in> set (copy_trace j d n) \<Longrightarrow> n \<le> d \<Longrightarrow> offset a < d + j"
  by (induction j) auto

lemma complete_step: "0 < k \<Longrightarrow> k \<le> sz \<Longrightarrow> k + (sz - k - (sz - k) mod k) = sz - sz mod (k::nat)"
proof -
  assume k: "0 < k" "k \<le> sz"
  have m: "(sz - k) mod k = sz mod k" using k by (simp add: le_mod_geq)
  have "sz mod k \<le> sz - k" using m mod_less_eq_dividend [of "sz - k" k] by simp
  then show ?thesis using k m by simp
qed

lemma compact_loop_trace:
  "2 \<le> k \<Longrightarrow> new_data \<le> data \<Longrightarrow>
   compact_loop k sid b data new_data sz tr = (b', n', tr') \<Longrightarrow> a \<in> set tr' \<Longrightarrow>
   a \<in> set tr \<or> offset a < data + (sz - sz mod k)"
proof (induction k sid b data new_data sz tr rule: compact_loop.induct)
  case (1 k sid b data new_data sz tr)
  show ?case
  proof (cases "k \<le> sz")
    case False
    then have "tr' = tr" using "1.prems" by (simp add: compact_loop.simps)
    then show ?thesis using "1.prems" by simp
  next
    case True
    have k0: "0 < k" using "1.prems" by simp
    have step: "k + (sz - k - (sz - k) mod k) = sz - sz mod k"
      using k0 True by (rule complete_step)
    have big: "k \<le> sz - sz mod k" using step by linarith
    show ?thesis
    proof (cases "GetUInt16 b data \<noteq> sid")
      case keep: True
      have call: "compact_loop k sid (copy_record k b data new_data) (data + k) (new_data + k) (sz - k)
                    (tr @ [Rd data, Rd (data + 1)] @ copy_trace k data new_data) = (b', n', tr')"
        using True k0 keep "1.prems"(3) by (subst (asm) compact_loop.simps) simp
      have "a \<in> set (tr @ [Rd data, Rd (data + 1)] @ copy_trace k data new_data)
            \<or> offset a < data + k + (sz - k - (sz - k) mod k)"
        using "1.IH"(1) [OF _ keep _ _ call "1.prems"(4)] True k0 "1.prems" by simp
      then show ?thesis
        using step big "1.prems"(1,2) copy_trace_offset [of a k data new_data] by auto
    next
      case skip: False
      have call: "compact_loop k sid b (data + k) new_data (sz - k)
                    (tr @ [Rd data, Rd (data + 1)]) = (b', n', tr')"
        using True k0 skip "1.prems"(3) by (subst (asm) compact_loop.simps) simp
      have "a \<in> set (tr @ [Rd data, Rd (data + 1)])
            \<or> offset a < data + k + (sz - k - (sz - k) mod k)"
        using "1.IH"(2) [OF _ skip _ _ call "1.prems"(4)] True k0 "1.prems" by simp
      then show ?thesis
        using step big "1.prems"(1) by auto
    qed
  qed
qed

lemma compact_accesses_bound:
  assumes "2 \<le> k" "a \<in> set (compact_accesses k sid p)"
  shows "offset a < complete_length k p"
proof -
  obtain b' n' tr' where r: "compact_loop k sid p 0 0 (length p) [] = (b', n', tr')"
    by (cases "compact_loop k sid p 0 0 (length p) []") auto
  have "a \<in> set tr'" using assms(2) by (simp add: compact_accesses_def r)
  from compact_loop_trace [OF assms(1) _ r this] show ?thesis
    by (simp add: complete_length_def)
qed

lemma records_short: "\<not> (0 < k \<and> k \<le> length p) \<Longrightarrow> records k p = []"
  by (subst records.simps) simp

lemma records_step: "0 < k \<Longrightarrow> k \<le> length p \<Longrightarrow> records k p = take k p # records k (drop k p)"
  by (subst records.simps) simp

lemma complete_length_step:
  "0 < k \<Longrightarrow> k \<le> length p \<Longrightarrow> complete_length k p = k + complete_length k (drop k p)"
  using complete_step [of k "length p"] by (simp add: complete_length_def)

lemma complete_length_le: "complete_length k p \<le> length p"
  by (simp add: complete_length_def)

lemma records_complete: "records k (take (complete_length k p) p) = records k p"
proof (induction k p rule: records.induct)
  case (1 k p)
  show ?case
  proof (cases "0 < k \<and> k \<le> length p")
    case False
    then have "\<not> (0 < k \<and> k \<le> length (take (complete_length k p) p))"
      by auto
    then show ?thesis using False by (simp add: records_short)
  next
    case True
    then have k: "0 < k" "k \<le> length p" by simp_all
    have cl: "complete_length k p = k + complete_length k (drop k p)"
      using k by (rule complete_length_step)
    have len: "k \<le> length (take (complete_length k p) p)"
      using cl complete_length_le [of k p] by simp
    have d: "drop k (take (complete_length k p) p) = take (complete_length k (drop k p)) (drop k p)"
      by (simp add: cl drop_take)
    have t: "take k (take (complete_length k p) p) = take k p"
      by (simp add: cl min_def)
    have "records k (take (complete_length k p) p)
          = take k p # records k (take (complete_length k (drop k p)) (drop k p))"
      using records_step [OF k(1) len] by (simp only: d t)
    also have "\<dots> = take k p # records k (drop k p)"
      using "1.IH" True by simp
    also have "\<dots> = records k p"
      using records_step [OF k] by simp
    finally show ?thesis .
  qed
qed

lemma kept_records_length: "length (concat (kept_records k sid p)) \<le> complete_length k p"
proof (induction k p rule: records.induct)
  case (1 k p)
  show ?case
  proof (cases "0 < k \<and> k \<le> length p")
    case False
    then show ?thesis by (simp add: records_short kept_records_def)
  next
    case True
    then have k: "0 < k" "k \<le> length p" by simp_all
    have cl: "complete_length k p = k + complete_length k (drop k p)"
      using k by (rule complete_length_step)
    have "length (concat (kept_records k sid p))
            \<le> k + length (concat (kept_records k sid (drop k p)))"
      by (simp add: kept_records_def records_step [OF k])
    then show ?thesis using "1.IH" True cl by simp
  qed
qed
subsection \<open>The loops over a descriptor list\<close>

lemma search_ge: "s \<le> search dl t s p"
  by (simp add: search_def)

lemma search_found:
  assumes "search dl t s p < length dl"
  shows "search_match t p (dl ! search dl t s p)"
proof -
  let ?P = "\<lambda>e. \<not> search_match t p e"
  let ?n = "length (takeWhile ?P (drop s dl))"
  have n: "?n < length (drop s dl)" using assms by (simp add: search_def)
  then have "\<not> ?P (drop s dl ! ?n)" by (rule nth_length_takeWhile)
  moreover have "drop s dl ! ?n = dl ! (s + ?n)" using n by simp
  ultimately show ?thesis by (simp add: search_def)
qed

lemma search_skipped:
  assumes "s \<le> j" "j < search dl t s p"
  shows "\<not> search_match t p (dl ! j)"
proof -
  let ?P = "\<lambda>e. \<not> search_match t p e"
  let ?tw = "takeWhile ?P (drop s dl)"
  have j: "j - s < length ?tw" using assms by (simp add: search_def)
  then have "?tw ! (j - s) \<in> set ?tw" by (rule nth_mem)
  then have "?P (?tw ! (j - s))" by (rule set_takeWhileD [THEN conjunct2])
  moreover have "?tw ! (j - s) = drop s dl ! (j - s)" using j by (rule takeWhile_nth)
  moreover have "j - s < length (drop s dl)"
    using j length_takeWhile_le [of ?P "drop s dl"] by linarith
  then have "drop s dl ! (j - s) = dl ! j" using assms(1) by simp
  ultimately show ?thesis by simp
qed

lemma edit_loop_nth:
  "length (edit_loop t p f dl (search dl t s p)) = length dl \<and>
   (\<forall>j < length dl. edit_loop t p f dl (search dl t s p) ! j =
        (if s \<le> j \<and> search_match t p (dl ! j) then (dl ! j)\<lparr>desc := f (desc (dl ! j))\<rparr>
         else dl ! j))"
proof (induction "length dl - s" arbitrary: dl s rule: less_induct)
  case less
  let ?i = "search dl t s p"
  show ?case
  proof (cases "?i < length dl")
    case False
    then have r: "edit_loop t p f dl ?i = dl" by (subst edit_loop.simps) simp
    have "\<not> search_match t p (dl ! j)" if "s \<le> j" "j < length dl" for j
      using search_skipped [of s j dl t p] that False by simp
    then show ?thesis using r by auto
  next
    case True
    let ?dl = "dl[?i := (dl ! ?i)\<lparr>desc := f (desc (dl ! ?i))\<rparr>]"
    have r: "edit_loop t p f dl ?i = edit_loop t p f ?dl (search ?dl t (?i + 1) p)"
      using True by (subst edit_loop.simps) (simp add: Let_def)
    have si: "s \<le> ?i" by (rule search_ge)
    have "length ?dl - (?i + 1) < length dl - s" using True si by simp
    from less [OF this]
    have ih: "length (edit_loop t p f ?dl (search ?dl t (?i + 1) p)) = length ?dl"
      "\<And>j. j < length ?dl \<Longrightarrow> edit_loop t p f ?dl (search ?dl t (?i + 1) p) ! j =
        (if ?i + 1 \<le> j \<and> search_match t p (?dl ! j) then (?dl ! j)\<lparr>desc := f (desc (?dl ! j))\<rparr>
         else ?dl ! j)"
      by simp_all
    have m: "search_match t p (dl ! ?i)" using True by (rule search_found)
    have "edit_loop t p f dl ?i ! j =
        (if s \<le> j \<and> search_match t p (dl ! j) then (dl ! j)\<lparr>desc := f (desc (dl ! j))\<rparr>
         else dl ! j)" if j: "j < length dl" for j
    proof -
      have jl: "j < length ?dl" using j by simp
      have val: "edit_loop t p f dl ?i ! j =
        (if ?i + 1 \<le> j \<and> search_match t p (?dl ! j) then (?dl ! j)\<lparr>desc := f (desc (?dl ! j))\<rparr>
         else ?dl ! j)"
        by (simp only: r ih(2) [OF jl])
      consider "j < ?i" | "j = ?i" | "?i < j" by linarith
      then show ?thesis
      proof cases
        case 1
        then have "\<not> (s \<le> j \<and> search_match t p (dl ! j))"
          using search_skipped [of s j dl t p] by auto
        moreover have "?dl ! j = dl ! j" using 1 by simp
        moreover have "\<not> ?i + 1 \<le> j" using 1 by simp
        ultimately show ?thesis unfolding val by auto
      next
        case 2
        have "?dl ! j = (dl ! j)\<lparr>desc := f (desc (dl ! j))\<rparr>" using 2 True by simp
        moreover have "\<not> ?i + 1 \<le> j" using 2 by simp
        moreover have "s \<le> j \<and> search_match t p (dl ! j)" using 2 m si by simp
        ultimately show ?thesis unfolding val by auto
      next
        case 3
        have "?dl ! j = dl ! j" using 3 by simp
        moreover have "?i + 1 \<le> j" "s \<le> j" using 3 si by simp_all
        ultimately show ?thesis unfolding val by auto
      qed
    qed
    then show ?thesis using r ih(1) by simp
  qed
qed

lemma edit_loop_map:
  "edit_loop t p f dl (search dl t 0 p) =
   map (\<lambda>e. if search_match t p e then e\<lparr>desc := f (desc e)\<rparr> else e) dl"
  by (rule nth_equalityI) (simp_all add: edit_loop_nth)

lemma processNITBATDescriptorList_map:
  "processNITBATDescriptorList sid dl = map (spec_edit sid) dl"
proof -
  have sl: "search_match DID_SERVICE_LIST 0 e = (tag (desc e) = DID_SERVICE_LIST)" for e
    by (simp add: search_match_def)
  have lcn: "search_match DID_LOGICAL_CHANNEL_NUM PDS_EICTA e
             = (tag (desc e) = DID_LOGICAL_CHANNEL_NUM \<and> pds e = PDS_EICTA)" for e
    by (simp add: search_match_def DID_LOGICAL_CHANNEL_NUM_def PDS_EICTA_def)
  have ne: "DID_SERVICE_LIST \<noteq> DID_LOGICAL_CHANNEL_NUM"
    by (simp add: DID_SERVICE_LIST_def DID_LOGICAL_CHANNEL_NUM_def)
  show ?thesis
    unfolding processNITBATDescriptorList_def Let_def edit_loop_map
    using ne by (auto simp: sl lcn spec_edit_def compact_descriptor_eq)
qed

lemma transports_loop_map:
  "transports_loop sid ts = map (\<lambda>it. (fst it, map (spec_edit sid) (snd it))) ts"
  by (induction ts) (simp_all add: processNITBATDescriptorList_map)

lemma spec_edit_dvd:
  "(tag (desc (spec_edit sid e)) = DID_SERVICE_LIST \<longrightarrow> 3 dvd length (payload (desc (spec_edit sid e))))
   \<and> (tag (desc (spec_edit sid e)) = DID_LOGICAL_CHANNEL_NUM \<and> pds (spec_edit sid e) = PDS_EICTA
        \<longrightarrow> 4 dvd length (payload (desc (spec_edit sid e))))"
  by (auto simp: spec_edit_def kept_dvd DID_SERVICE_LIST_def DID_LOGICAL_CHANNEL_NUM_def)

text \<open>
  C5. For every service list descriptor (records of 3 bytes) and every logical channel
  number descriptor under the EICTA specifier (records of 4 bytes) in the global or a
  per-transport descriptor list of a NIT or BAT, \<^verbatim>\<open>processNITBAT\<close> leaves as payload exactly
  the records whose leading 16-bit service id differs from the id of the service, in their
  original order, and the length of the payload is a multiple of the record size. Every
  other descriptor, the transport keys and the table id extension are unchanged.
\<close>

theorem C5_compaction_keeps_other_records:
  "descs (processNITBAT s t) = map (spec_edit (getId (service s))) (descs t)
   \<and> transports (processNITBAT s t)
       = map (\<lambda>it. (fst it, map (spec_edit (getId (service s))) (snd it))) (transports t)
   \<and> tid_ext (processNITBAT s t) = tid_ext t
   \<and> (\<forall>e \<in> set (all_elements (processNITBAT s t)).
         (tag (desc e) = DID_SERVICE_LIST \<longrightarrow> 3 dvd length (payload (desc e)))
         \<and> (tag (desc e) = DID_LOGICAL_CHANNEL_NUM \<and> pds e = PDS_EICTA
              \<longrightarrow> 4 dvd length (payload (desc e))))"
proof -
  let ?sid = "getId (service s)"
  have d: "descs (processNITBAT s t) = map (spec_edit ?sid) (descs t)"
    by (simp add: processNITBAT_def Let_def processNITBATDescriptorList_map)
  have tr: "transports (processNITBAT s t)
       = map (\<lambda>it. (fst it, map (spec_edit ?sid) (snd it))) (transports t)"
    by (simp add: processNITBAT_def Let_def transports_loop_map)
  have x: "tid_ext (processNITBAT s t) = tid_ext t"
    by (simp add: processNITBAT_def Let_def)
  have "\<exists>e0. e = spec_edit ?sid e0" if "e \<in> set (all_elements (processNITBAT s t))" for e
    using that unfolding all_elements_def d tr by auto
  then have "(tag (desc e) = DID_SERVICE_LIST \<longrightarrow> 3 dvd length (payload (desc e)))
         \<and> (tag (desc e) = DID_LOGICAL_CHANNEL_NUM \<and> pds e = PDS_EICTA
              \<longrightarrow> 4 dvd length (payload (desc e)))"
    if "e \<in> set (all_elements (processNITBAT s t))" for e
    using that spec_edit_dvd by blast
  then show ?thesis using d tr x by blast
qed
theorem C5_compaction_witness:
  "map (\<lambda>e. payload (desc e))
     (descs (processNITBAT (constructed\<lparr>service := Service_set (ById 2)\<rparr>)
        \<lparr>tid_ext = 1,
         descs = [\<lparr>desc = \<lparr>tag = DID_SERVICE_LIST, payload = [0, 1, 1, 0, 2, 1, 0, 3, 2]\<rparr>, pds = 0\<rparr>,
                  \<lparr>desc = \<lparr>tag = DID_LOGICAL_CHANNEL_NUM, payload = [0, 2, 0, 5, 0, 3, 0, 6]\<rparr>,
                   pds = PDS_EICTA\<rparr>,
                  \<lparr>desc = \<lparr>tag = DID_CA, payload = [0, 2, 0]\<rparr>, pds = 0\<rparr>],
         transports = [((1, 1), [\<lparr>desc = \<lparr>tag = DID_SERVICE_LIST, payload = [0, 2, 1]\<rparr>, pds = 0\<rparr>])]\<rparr>))
   = [[0, 1, 1, 0, 3, 2], [0, 3, 0, 6], [0, 2, 0]]"
  using C5_compaction_keeps_other_records
    [of "constructed\<lparr>service := Service_set (ById 2)\<rparr>"
        "\<lparr>tid_ext = 1,
         descs = [\<lparr>desc = \<lparr>tag = DID_SERVICE_LIST, payload = [0, 1, 1, 0, 2, 1, 0, 3, 2]\<rparr>, pds = 0\<rparr>,
                  \<lparr>desc = \<lparr>tag = DID_LOGICAL_CHANNEL_NUM, payload = [0, 2, 0, 5, 0, 3, 0, 6]\<rparr>,
                   pds = PDS_EICTA\<rparr>,
                  \<lparr>desc = \<lparr>tag = DID_CA, payload = [0, 2, 0]\<rparr>, pds = 0\<rparr>],
         transports = [((1, 1), [\<lparr>desc = \<lparr>tag = DID_SERVICE_LIST, payload = [0, 2, 1]\<rparr>, pds = 0\<rparr>])]\<rparr>"]
  by (simp add: spec_edit_def kept_records_def records_step records_short record_id_def
        GetUInt16_def getId_def Service_set_def constructed_def
        DID_SERVICE_LIST_def DID_LOGICAL_CHANNEL_NUM_def DID_CA_def PDS_EICTA_def)

text \<open>
  C6, as the specification states it, fails: a trailing partial record is not left in the
  output. With the service list payload \<open>[0, 1, 9, 7]\<close> (one record and one trailing byte)
  and the service id 2, the record is kept and the trailing byte 7 is cut off by the final
  \<^verbatim>\<open>resizePayload (new_data - base)\<close>.
\<close>

theorem C6_trailing_bytes_counterexample:
  "map (\<lambda>e. payload (desc e))
     (processNITBATDescriptorList 2
        [\<lparr>desc = \<lparr>tag = DID_SERVICE_LIST, payload = [0, 1, 9, 7]\<rparr>, pds = 0\<rparr>])
   = [[0, 1, 9]]"
  by (simp add: processNITBATDescriptorList_map spec_edit_def kept_records_def records_step
        records_short record_id_def GetUInt16_def)

text \<open>
  C6, amended. For every descriptor payload whose length is not a multiple of the record
  size, the compaction loop neither reads nor writes the trailing partial record (every
  offset it touches lies in the complete records), the output does not depend on the
  trailing partial record, and the output holds complete records only: the trailing
  partial record is cut off by the final resize.
\<close>

theorem C6_trailing_partial_record_cut_off:
  assumes "2 \<le> k" and "length (payload d) mod k \<noteq> 0"
  shows "(\<forall>a \<in> set (compact_accesses k sid (payload d)).
            offset a < complete_length k (payload d))
         \<and> complete_length k (payload d) < length (payload d)
         \<and> compact_descriptor k sid d
             = compact_descriptor k sid
                 (d\<lparr>payload := take (complete_length k (payload d)) (payload d)\<rparr>)
         \<and> payload (compact_descriptor k sid d)
             = concat (kept_records k sid (take (complete_length k (payload d)) (payload d)))
         \<and> length (payload (compact_descriptor k sid d)) \<le> complete_length k (payload d)"
proof -
  let ?p = "payload d"
  have a: "\<forall>a \<in> set (compact_accesses k sid ?p). offset a < complete_length k ?p"
    using assms(1) compact_accesses_bound by blast
  have "0 < length ?p mod k" using assms(2) by simp
  moreover have "length ?p mod k \<le> length ?p" by simp
  ultimately have b: "complete_length k ?p < length ?p"
    unfolding complete_length_def by linarith
  have kr: "kept_records k sid (take (complete_length k ?p) ?p) = kept_records k sid ?p"
    by (simp add: kept_records_def records_complete)
  have c: "compact_descriptor k sid d
             = compact_descriptor k sid (d\<lparr>payload := take (complete_length k ?p) ?p\<rparr>)"
    using assms(1) by (simp add: compact_descriptor_eq kr)
  have e: "payload (compact_descriptor k sid d)
             = concat (kept_records k sid (take (complete_length k ?p) ?p))"
    using assms(1) by (simp add: compact_descriptor_eq kr)
  have f: "length (payload (compact_descriptor k sid d)) \<le> complete_length k ?p"
    using assms(1) by (simp add: compact_descriptor_eq kept_records_length)
  show ?thesis using a b c e f by blast
qed

theorem C6_trailing_partial_record_witness:
  "length (payload \<lparr>tag = DID_SERVICE_LIST, payload = [0, 1, 9, 7]\<rparr>) mod 3 = 1
   \<and> complete_length 3 [0, 1, 9, 7] = 3
   \<and> payload (compact_descriptor 3 2 \<lparr>tag = DID_SERVICE_LIST, payload = [0, 1, 9, 7]\<rparr>) = [0, 1, 9]"
proof -
  let ?d = "\<lparr>tag = DID_SERVICE_LIST, payload = [0, 1, 9, 7]\<rparr>"
  have h1: "(2::nat) \<le> 3" by simp
  have h2: "length (payload ?d) mod 3 \<noteq> 0" by simp
  have "payload (compact_descriptor 3 2 ?d)
          = concat (kept_records 3 2 (take (complete_length 3 (payload ?d)) (payload ?d)))"
    using C6_trailing_partial_record_cut_off [OF h1 h2, of 2] by blast
  then show ?thesis
    by (simp add: complete_length_def kept_records_def records_step records_short record_id_def
          GetUInt16_def)
qed

section \<open>The PAT handler\<close>

declare addECMPID_loop.simps [simp del]

lemma erase_not_listed: "\<not> listed k (erase k m)"
  by (auto simp: listed_def erase_def)

lemma erase_absent: "\<not> listed k m \<Longrightarrow> erase k m = m"
  by (induction m) (auto simp: listed_def erase_def)

lemma getId_setPMTPID [simp]: "getId (setPMTPID p sv) = getId sv"
  by (simp add: getId_def setPMTPID_def)

lemma hasId_setPMTPID [simp]: "hasId (setPMTPID p sv) = hasId sv"
  by (simp add: hasId_def setPMTPID_def)

lemma sv_id_setPMTPID [simp]: "sv_id (setPMTPID p sv) = sv_id sv"
  by (simp add: setPMTPID_def)

lemma sv_name_setPMTPID [simp]: "sv_name (setPMTPID p sv) = sv_name sv"
  by (simp add: setPMTPID_def)

lemma pat_loop_frame:
  "pat_loop m s found = (s', found') \<Longrightarrow>
   abort s' = abort s \<and> ready s' = ready s \<and> transparent s' = transparent s
   \<and> ignore_absent s' = ignore_absent s \<and> ignore_bat s' = ignore_bat s
   \<and> ignore_nit s' = ignore_nit s \<and> drop_status s' = drop_status s
   \<and> pzer_pat s' = pzer_pat s \<and> pzer_sdt_bat s' = pzer_sdt_bat s \<and> pzer_nit s' = pzer_nit s
   \<and> sv_id (service s') = sv_id (service s) \<and> sv_name (service s') = sv_name (service s)
   \<and> delivered (demux s') = delivered (demux s)"
proof (induction m arbitrary: s found)
  case Nil
  then show ?case by simp
next
  case (Cons it rest)
  show ?case
  proof (cases "fst it = getId (service s)")
    case True
    then have "pat_loop rest
        ((tsp_report Verbose ''found service id, PMT PID''
            (s\<lparr>demux := addPID (snd it) (demux s), service := setPMTPID (snd it) (service s)\<rparr>))
          \<lparr>drop_pids := insert (snd it) (drop_pids s)\<rparr>) True = (s', found')"
      using Cons.prems by (simp add: Let_def tsp_report_def)
    from Cons.IH [OF this] show ?thesis by (simp add: tsp_report_def addPID_def)
  next
    case False
    then have "pat_loop rest
        (s\<lparr>demux := addPID (snd it) (demux s), ref_pids := insert (snd it) (ref_pids s)\<rparr>) found
        = (s', found')"
      using Cons.prems by (simp add: Let_def)
    from Cons.IH [OF this] show ?thesis by (simp add: addPID_def)
  qed
qed

lemma getId_cong: "sv_id a = sv_id b \<Longrightarrow> getId a = getId b"
  by (simp add: getId_def)

lemma hasId_cong: "sv_id a = sv_id b \<Longrightarrow> hasId a = hasId b"
  by (simp add: hasId_def)

lemma pat_loop_sets:
  "pat_loop m s found = (s', found') \<Longrightarrow>
   found' = (found \<or> listed (getId (service s)) m)
   \<and> drop_pids s' = drop_pids s \<union> set (map snd (filter (\<lambda>e. fst e = getId (service s)) m))
   \<and> ref_pids s' = ref_pids s \<union> set (map snd (filter (\<lambda>e. fst e \<noteq> getId (service s)) m))
   \<and> pid_filter (demux s') = pid_filter (demux s) \<union> set (map snd m)"
proof (induction m arbitrary: s found)
  case Nil
  then show ?case by (simp add: listed_def)
next
  case (Cons it rest)
  show ?case
  proof (cases "fst it = getId (service s)")
    case True
    then have "pat_loop rest
        ((tsp_report Verbose ''found service id, PMT PID''
            (s\<lparr>demux := addPID (snd it) (demux s), service := setPMTPID (snd it) (service s)\<rparr>))
          \<lparr>drop_pids := insert (snd it) (drop_pids s)\<rparr>) True = (s', found')"
      using Cons.prems by (simp add: Let_def tsp_report_def)
    from Cons.IH [OF this] show ?thesis
      using True by (auto simp: tsp_report_def addPID_def listed_def)
  next
    case False
    then have "pat_loop rest
        (s\<lparr>demux := addPID (snd it) (demux s), ref_pids := insert (snd it) (ref_pids s)\<rparr>) found
        = (s', found')"
      using Cons.prems by (simp add: Let_def)
    from Cons.IH [OF this] show ?thesis
      using False by (auto simp: addPID_def listed_def)
  qed
qed

text \<open>
  \<^verbatim>\<open>processPAT\<close> returns exactly when the service has an id, and what it does then, in full.
\<close>

lemma processPAT_total: "hasId (service s) \<Longrightarrow> \<exists>s' pat'. processPAT s pat = Some (s', pat')"
  by (simp add: processPAT_def Let_def split: prod.splits)

lemma processPAT_hasId: "processPAT s pat = Some r \<Longrightarrow> hasId (service s)"
  by (simp add: processPAT_def split: if_splits)

lemma processPAT_props:
  assumes "processPAT s pat = Some (s', pat')"
  shows "drop_pids s' = drop_pids s \<union> pmt_pids_of (getId (service s)) pat"
    and "ref_pids s' = ref_pids s \<union> other_pmt_pids (getId (service s)) pat"
    and "pid_filter (demux s') = pid_filter (demux s) \<union> {nit_pid pat} \<union> set (map snd (pmts pat))"
    and "delivered (demux s') = delivered (demux s)"
    and "sv_id (service s') = sv_id (service s)"
    and "sv_name (service s') = sv_name (service s)"
    and "transparent s' = transparent s"
    and "ignore_absent s' = ignore_absent s"
    and "ignore_bat s' = ignore_bat s"
    and "ignore_nit s' = ignore_nit s"
    and "drop_status s' = drop_status s"
    and "pzer_sdt_bat s' = pzer_sdt_bat s"
    and "pzer_nit s' = setPID (nit_pid pat) (pzer_nit s)"
    and "pzer_pat s' = addTable (Modified_PAT pat') (removeSections TID_PAT (pzer_pat s))"
    and "pat' = (if listed (getId (service s)) (pmts pat)
               then pat\<lparr>pmts := erase (getId (service s)) (pmts pat)\<rparr> else pat)"
    and "ready s' = (ready s \<or> (\<not> listed (getId (service s)) (pmts pat)
                    \<and> (ignore_absent s \<or> \<not> ignore_nit s \<or> \<not> ignore_bat s)))"
    and "abort s' = (abort s \<or> (\<not> listed (getId (service s)) (pmts pat)
                    \<and> \<not> (ignore_absent s \<or> \<not> ignore_nit s \<or> \<not> ignore_bat s)))"
proof -
  let ?s2 = "s\<lparr>pzer_nit := setPID (nit_pid pat) (pzer_nit s),
               demux := addPID (nit_pid pat) (demux s)\<rparr>"
  obtain s3 found where loop: "pat_loop (pmts pat) ?s2 False = (s3, found)"
    by (cases "pat_loop (pmts pat) ?s2 False") auto
  note fr = pat_loop_frame [OF loop] and st = pat_loop_sets [OF loop]
  have gid: "getId (service s3) = getId (service s)"
    using fr getId_cong [of "service s3" "service s"] by simp
  have found: "found = listed (getId (service s)) (pmts pat)" using st by simp
  have h: "hasId (service s)" using assms by (rule processPAT_hasId)
  define s4 where "s4 =
     (if found then s3
      else if ignore_absent s3 \<or> \<not> ignore_nit s3 \<or> \<not> ignore_bat s3 then
        (tsp_report Info ''service id not found in PAT, ignoring it'' s3)\<lparr>ready := True\<rparr>
      else (tsp_report Error ''service id not found in PAT'' s3)\<lparr>abort := True\<rparr>)"
  define pat1 where "pat1 = (if found then pat\<lparr>pmts := erase (getId (service s3)) (pmts pat)\<rparr> else pat)"
  have res: "s' = s4\<lparr>pzer_pat := addTable (Modified_PAT pat1) (removeSections TID_PAT (pzer_pat s4))\<rparr>"
      "pat' = pat1"
    using assms h loop by (auto simp: processPAT_def Let_def s4_def pat1_def split: if_splits)
  show "drop_pids s' = drop_pids s \<union> pmt_pids_of (getId (service s)) pat"
    using st by (simp add: res s4_def tsp_report_def pmt_pids_of_def)
  show "ref_pids s' = ref_pids s \<union> other_pmt_pids (getId (service s)) pat"
    using st by (simp add: res s4_def tsp_report_def other_pmt_pids_def)
  show "pid_filter (demux s') = pid_filter (demux s) \<union> {nit_pid pat} \<union> set (map snd (pmts pat))"
    using st by (simp add: res s4_def tsp_report_def addPID_def)
  show "delivered (demux s') = delivered (demux s)"
    using fr by (simp add: res s4_def tsp_report_def addPID_def)
  show "sv_id (service s') = sv_id (service s)"
    using fr by (simp add: res s4_def tsp_report_def)
  show "sv_name (service s') = sv_name (service s)"
    using fr by (simp add: res s4_def tsp_report_def)
  show "transparent s' = transparent s"
    using fr by (simp add: res s4_def tsp_report_def)
  show "ignore_absent s' = ignore_absent s"
    using fr by (simp add: res s4_def tsp_report_def)
  show "ignore_bat s' = ignore_bat s"
    using fr by (simp add: res s4_def tsp_report_def)
  show "ignore_nit s' = ignore_nit s"
    using fr by (simp add: res s4_def tsp_report_def)
  show "drop_status s' = drop_status s"
    using fr by (simp add: res s4_def tsp_report_def)
  show "pzer_sdt_bat s' = pzer_sdt_bat s"
    using fr by (simp add: res s4_def tsp_report_def)
  show "pzer_nit s' = setPID (nit_pid pat) (pzer_nit s)"
    using fr by (simp add: res s4_def tsp_report_def)
  show "pzer_pat s' = addTable (Modified_PAT pat') (removeSections TID_PAT (pzer_pat s))"
    using fr by (simp add: res s4_def tsp_report_def)
  show "pat' = (if listed (getId (service s)) (pmts pat)
               then pat\<lparr>pmts := erase (getId (service s)) (pmts pat)\<rparr> else pat)"
    by (simp add: res pat1_def found gid)
  show "ready s' = (ready s \<or> (\<not> listed (getId (service s)) (pmts pat)
                    \<and> (ignore_absent s \<or> \<not> ignore_nit s \<or> \<not> ignore_bat s)))"
    using fr found by (auto simp: res s4_def tsp_report_def)
  show "abort s' = (abort s \<or> (\<not> listed (getId (service s)) (pmts pat)
                    \<and> \<not> (ignore_absent s \<or> \<not> ignore_nit s \<or> \<not> ignore_bat s)))"
    using fr found by (auto simp: res s4_def tsp_report_def)
qed
text \<open>
  C1. For every decoded PAT processed while the id of the service is known: if the id is
  in the service map of the PAT, then after \<^verbatim>\<open>processPAT\<close> the service list of the PAT (as
  edited in place and as queued in the PAT packetizer) no longer holds the id, every other
  mapping from a service to its PMT PID is kept unchanged and in its original order, the
  PMT PID of the service has been added to \<open>drop_pids\<close> and the PMT PID of every other
  service has been added to \<open>ref_pids\<close>.
\<close>

theorem C1_processPAT_removes_target:
  assumes "hasId (service s)" and "listed (getId (service s)) (pmts pat)"
  shows "\<exists>s' pat'. processPAT s pat = Some (s', pat')
     \<and> \<not> listed (getId (service s)) (pmts pat')
     \<and> pmts pat' = filter (\<lambda>e. fst e \<noteq> getId (service s)) (pmts pat)
     \<and> nit_pid pat' = nit_pid pat
     \<and> drop_pids s' = drop_pids s \<union> pmt_pids_of (getId (service s)) pat
     \<and> ref_pids s' = ref_pids s \<union> other_pmt_pids (getId (service s)) pat
     \<and> sections (pzer_pat s')
         = filter (\<lambda>q. queued_tid q \<noteq> TID_PAT) (sections (pzer_pat s)) @ [Modified_PAT pat']"
proof -
  obtain s' pat' where r: "processPAT s pat = Some (s', pat')"
    using processPAT_total [OF assms(1)] by blast
  note P = processPAT_props [OF r]
  have p': "pat' = pat\<lparr>pmts := erase (getId (service s)) (pmts pat)\<rparr>"
    using P(15) assms(2) by simp
  have 1: "\<not> listed (getId (service s)) (pmts pat')"
    by (simp add: p' erase_not_listed)
  have 2: "pmts pat' = filter (\<lambda>e. fst e \<noteq> getId (service s)) (pmts pat)"
    by (simp add: p' erase_def)
  have 3: "nit_pid pat' = nit_pid pat"
    by (simp add: p')
  have 4: "sections (pzer_pat s')
         = filter (\<lambda>q. queued_tid q \<noteq> TID_PAT) (sections (pzer_pat s)) @ [Modified_PAT pat']"
    by (simp add: P(14) addTable_def removeSections_def)
  show ?thesis
    by (intro exI conjI) (rule r 1 2 3 P(1) P(2) 4)+
qed

theorem C1_processPAT_witness:
  "map_option (\<lambda>r. (pmts (snd r), drop_pids (fst r), ref_pids (fst r)))
     (processPAT (constructed\<lparr>service := Service_set (ById 0x20)\<rparr>)
        \<lparr>nit_pid = 0x10, pmts = [(0x10, 0x80), (0x20, 0x100), (0x30, 0x180)]\<rparr>)
   = Some ([(0x10, 0x80), (0x30, 0x180)], {0x100}, {0x80, 0x180})"
proof -
  let ?s = "constructed\<lparr>service := Service_set (ById 0x20)\<rparr>"
  let ?pat = "\<lparr>nit_pid = 0x10, pmts = [(0x10, 0x80), (0x20, 0x100), (0x30, 0x180)]\<rparr>"
  have h1: "hasId (service ?s)" by (simp add: hasId_def Service_set_def)
  have h2: "listed (getId (service ?s)) (pmts ?pat)"
    by (simp add: listed_def getId_def Service_set_def)
  from C1_processPAT_removes_target [OF h1 h2]
  obtain s' pat' where r: "processPAT ?s ?pat = Some (s', pat')"
    and p: "pmts pat' = filter (\<lambda>e. fst e \<noteq> getId (service ?s)) (pmts ?pat)"
    and d: "drop_pids s' = drop_pids ?s \<union> pmt_pids_of (getId (service ?s)) ?pat"
    and f: "ref_pids s' = ref_pids ?s \<union> other_pmt_pids (getId (service ?s)) ?pat"
    by (elim exE conjE)
  have "pmts pat' = [(0x10, 0x80), (0x30, 0x180)]"
    unfolding p by (simp add: getId_def Service_set_def)
  moreover have "drop_pids s' = {0x100}"
    unfolding d by (simp add: getId_def Service_set_def pmt_pids_of_def constructed_def)
  moreover have "ref_pids s' = {0x80, 0x180}"
    unfolding f by (simp add: getId_def Service_set_def other_pmt_pids_def constructed_def)
  ultimately show ?thesis by (simp add: r)
qed

section \<open>The PMT handler\<close>

lemma ecm_pids_append: "ecm_pids x (a @ b) = ecm_pids x a \<union> ecm_pids x b"
  by (simp add: ecm_pids_def)

lemma ecm_pids_Cons: "ecm_pids x (e # dl) = ecm_pid x e \<union> ecm_pids x dl"
  by (simp add: ecm_pids_def)

lemma ecm_pids_none:
  "(\<And>e. e \<in> set dl \<Longrightarrow> tag (desc e) \<noteq> DID_CA) \<Longrightarrow> ecm_pids x dl = {}"
  by (simp add: ecm_pids_def ecm_pid_def)

lemma search_match_CA: "search_match DID_CA 0 e = (tag (desc e) = DID_CA)"
  by (simp add: search_match_def)

lemma drop_split:
  assumes "s \<le> i" "i < length dl"
  shows "drop s dl = take (i - s) (drop s dl) @ dl ! i # drop (Suc i) dl"
proof -
  have "i - s < length (drop s dl)" using assms by simp
  from id_take_nth_drop [OF this]
  have "drop s dl = take (i - s) (drop s dl) @ drop s dl ! (i - s) # drop (Suc (i - s)) (drop s dl)" .
  moreover have "drop s dl ! (i - s) = dl ! i" using assms by simp
  moreover have "drop (Suc (i - s)) (drop s dl) = drop (Suc i) dl" using assms by simp
  ultimately show ?thesis by simp
qed

lemma skipped_prefix:
  assumes "e \<in> set (take (search dl t s p - s) (drop s dl))"
  shows "\<not> search_match t p e"
proof -
  let ?i = "search dl t s p"
  obtain j where j: "j < length (take (?i - s) (drop s dl))" "e = take (?i - s) (drop s dl) ! j"
    using assms by (auto simp: in_set_conv_nth)
  have js: "j < ?i - s" "s + j < length dl" using j(1) by auto
  then have "e = dl ! (s + j)" using j(2) by simp
  moreover have "\<not> search_match t p (dl ! (s + j))"
    by (rule search_skipped [of s]) (use js in simp_all)
  ultimately show ?thesis by simp
qed

lemma no_match_after:
  assumes "\<not> search dl t s p < length dl" "e \<in> set (drop s dl)"
  shows "\<not> search_match t p e"
proof -
  obtain j where j: "j < length (drop s dl)" "e = drop s dl ! j"
    using assms(2) by (auto simp: in_set_conv_nth)
  then have "e = dl ! (s + j)" "s + j < length dl" by simp_all
  moreover have "\<not> search_match t p (dl ! (s + j))"
    by (rule search_skipped [of s]) (use assms(1) calculation(2) in simp_all)
  ultimately show ?thesis by simp
qed

lemma addECMPID_loop_from:
  "addECMPID_loop x dl (search dl DID_CA s 0) S = S \<union> ecm_pids x (drop s dl)"
proof (induction "length dl - s" arbitrary: s S rule: less_induct)
  case less
  let ?i = "search dl DID_CA s 0"
  show ?case
  proof (cases "?i < length dl")
    case False
    then have "addECMPID_loop x dl ?i S = S" by (subst addECMPID_loop.simps) simp
    moreover have "ecm_pids x (drop s dl) = {}"
      by (rule ecm_pids_none) (use no_match_after [OF False] search_match_CA in blast)
    ultimately show ?thesis by simp
  next
    case True
    let ?S = "case ca_pid_of x (desc (dl ! ?i)) of None \<Rightarrow> S | Some p \<Rightarrow> insert p S"
    have si: "s \<le> ?i" by (rule search_ge)
    have m: "tag (desc (dl ! ?i)) = DID_CA"
      using search_found [OF True] by (simp add: search_match_CA)
    have r: "addECMPID_loop x dl ?i S = addECMPID_loop x dl (search dl DID_CA (?i + 1) 0) ?S"
      using True by (subst addECMPID_loop.simps) simp
    have "length dl - (?i + 1) < length dl - s" using True si by simp
    from less [OF this]
    have ih: "addECMPID_loop x dl (search dl DID_CA (?i + 1) 0) ?S = ?S \<union> ecm_pids x (drop (?i + 1) dl)" .
    have pre: "ecm_pids x (take (?i - s) (drop s dl)) = {}"
      by (rule ecm_pids_none) (use skipped_prefix search_match_CA in blast)
    have "ecm_pids x (drop s dl)
            = ecm_pids x (take (?i - s) (drop s dl)) \<union> (ecm_pid x (dl ! ?i)
              \<union> ecm_pids x (drop (Suc ?i) dl))"
      by (subst drop_split [OF si True]) (simp only: ecm_pids_append ecm_pids_Cons)
    then have e: "ecm_pids x (drop s dl) = ecm_pid x (dl ! ?i) \<union> ecm_pids x (drop (Suc ?i) dl)"
      using pre by simp
    have "?S = S \<union> ecm_pid x (dl ! ?i)"
      using m by (cases "ca_pid_of x (desc (dl ! ?i))") (simp_all add: ecm_pid_def)
    then show ?thesis
      unfolding r ih e by auto
  qed
qed

lemma addECMPID_eq: "addECMPID x dl S = S \<union> ecm_pids x dl"
  using addECMPID_loop_from [of x dl 0 S] by (simp add: addECMPID_def)

lemma streams_loop_eq:
  "streams_loop x m S
   = S \<union> set (map fst m) \<union> \<Union> (set (map (\<lambda>it. ecm_pids x (stream_descs (snd it))) m))"
  by (induction m arbitrary: S) (auto simp: addECMPID_eq)

lemma processPMT_pid_set:
  "streams_loop x (streams pmt) (insert (pcr_pid pmt) (addECMPID x (pmt_descs pmt) S))
   = S \<union> pmt_pids x pmt"
  by (auto simp: streams_loop_eq addECMPID_eq pmt_pids_def)

lemma processPMT_removed:
  "service_id pmt = getId (service s) \<Longrightarrow>
   processPMT x s pmt = s\<lparr>drop_pids := drop_pids s \<union> pmt_pids x pmt, ready := True\<rparr>"
  by (simp add: processPMT_def Let_def processPMT_pid_set)

lemma processPMT_other:
  "service_id pmt \<noteq> getId (service s) \<Longrightarrow>
   processPMT x s pmt = s\<lparr>ref_pids := ref_pids s \<union> pmt_pids x pmt\<rparr>"
  by (simp add: processPMT_def Let_def processPMT_pid_set)

text \<open>
  C2. For every decoded PMT processed: if its service id equals the id of the service
  (\<^verbatim>\<open>_service.getId()\<close>), then the PIDs of all its elementary streams, its PCR PID and the
  ECM PIDs of the CA descriptors at program level and at component level are added to
  \<open>drop_pids\<close> and \<open>ready\<close> becomes true; if its service id differs, exactly the same set of
  PIDs is added to \<open>ref_pids\<close> instead and \<open>ready\<close> is not changed. In both cases nothing
  else changes, and \<^verbatim>\<open>handleTable\<close> passes every valid PMT to \<^verbatim>\<open>processPMT\<close>.
\<close>

theorem C2_processPMT_classifies_pids:
  "(service_id pmt = getId (service s) \<longrightarrow>
      processPMT x s pmt = s\<lparr>drop_pids := drop_pids s \<union> pmt_pids x pmt, ready := True\<rparr>
      \<and> drop_pids (processPMT x s pmt) = drop_pids s \<union> pmt_pids x pmt
      \<and> ref_pids (processPMT x s pmt) = ref_pids s
      \<and> ready (processPMT x s pmt))
   \<and> (service_id pmt \<noteq> getId (service s) \<longrightarrow>
      processPMT x s pmt = s\<lparr>ref_pids := ref_pids s \<union> pmt_pids x pmt\<rparr>
      \<and> ref_pids (processPMT x s pmt) = ref_pids s \<union> pmt_pids x pmt
      \<and> drop_pids (processPMT x s pmt) = drop_pids s
      \<and> ready (processPMT x s pmt) = ready s)
   \<and> (tableId t = TID_PMT \<and> decode_PMT t = Some pmt \<longrightarrow>
        handleTable x s t = Some (processPMT x s pmt))"
proof -
  have "tableId t = TID_PMT \<and> decode_PMT t = Some pmt \<longrightarrow>
        handleTable x s t = Some (processPMT x s pmt)"
    by (simp add: handleTable_def TID_PMT_def TID_PAT_def)
  then show ?thesis
    by (simp add: processPMT_removed processPMT_other)
qed
theorem C2_processPMT_witness:
  "drop_pids (processPMT sample_externals (constructed\<lparr>service := Service_set (ById 0x20)\<rparr>)
      \<lparr>service_id = 0x20, pcr_pid = 0x101,
       pmt_descs = [\<lparr>desc = \<lparr>tag = DID_CA, payload = [1, 0, 0xE1, 0x10]\<rparr>, pds = 0\<rparr>],
       streams = [(0x101, \<lparr>stream_type = 2, stream_descs = []\<rparr>),
                  (0x102, \<lparr>stream_type = 4,
                     stream_descs = [\<lparr>desc = \<lparr>tag = DID_CA, payload = [1, 0, 0xE1, 0x11]\<rparr>,
                                      pds = 0\<rparr>]\<rparr>)]\<rparr>)
   = {0x110, 0x101, 0x102, 0x111}
   \<and> ref_pids (processPMT sample_externals (constructed\<lparr>service := Service_set (ById 0x21)\<rparr>)
      \<lparr>service_id = 0x20, pcr_pid = 0x101,
       pmt_descs = [\<lparr>desc = \<lparr>tag = DID_CA, payload = [1, 0, 0xE1, 0x10]\<rparr>, pds = 0\<rparr>],
       streams = [(0x101, \<lparr>stream_type = 2, stream_descs = []\<rparr>),
                  (0x102, \<lparr>stream_type = 4,
                     stream_descs = [\<lparr>desc = \<lparr>tag = DID_CA, payload = [1, 0, 0xE1, 0x11]\<rparr>,
                                      pds = 0\<rparr>]\<rparr>)]\<rparr>)
   = {0x110, 0x101, 0x102, 0x111}"
proof -
  let ?pmt = "\<lparr>service_id = 0x20, pcr_pid = 0x101,
       pmt_descs = [\<lparr>desc = \<lparr>tag = DID_CA, payload = [1, 0, 0xE1, 0x10]\<rparr>, pds = 0\<rparr>],
       streams = [(0x101, \<lparr>stream_type = 2, stream_descs = []\<rparr>),
                  (0x102, \<lparr>stream_type = 4,
                     stream_descs = [\<lparr>desc = \<lparr>tag = DID_CA, payload = [1, 0, 0xE1, 0x11]\<rparr>,
                                      pds = 0\<rparr>]\<rparr>)]\<rparr>"
  let ?s = "constructed\<lparr>service := Service_set (ById 0x20)\<rparr>"
  let ?s' = "constructed\<lparr>service := Service_set (ById 0x21)\<rparr>"
  have pids: "pmt_pids sample_externals ?pmt = {0x110, 0x101, 0x102, 0x111}"
    by (auto simp: pmt_pids_def ecm_pids_def ecm_pid_def sample_externals_def GetUInt16_def)
  have a: "service_id ?pmt = getId (service ?s)"
    by (simp add: getId_def Service_set_def)
  have b: "service_id ?pmt \<noteq> getId (service ?s')"
    by (simp add: getId_def Service_set_def)
  have "drop_pids (processPMT sample_externals ?s ?pmt)
          = drop_pids ?s \<union> pmt_pids sample_externals ?pmt"
    using C2_processPMT_classifies_pids [of ?pmt ?s sample_externals] a by blast
  moreover have "ref_pids (processPMT sample_externals ?s' ?pmt)
          = ref_pids ?s' \<union> pmt_pids sample_externals ?pmt"
    using C2_processPMT_classifies_pids [of ?pmt ?s' sample_externals] b by blast
  ultimately show ?thesis
    unfolding pids by (simp add: constructed_def)
qed

section \<open>The SDT handler\<close>

lemma findService_name_None:
  "findService_name x es n = None \<longleftrightarrow> (\<forall>e \<in> set es. \<not> similar x (serviceName (snd e)) n)"
  by (induction es) auto

lemma findService_Some:
  "findService x sdt sv = Some sv' \<Longrightarrow>
   sv_id sv' \<noteq> None \<and> sv_name sv' = sv_name sv \<and> sv_pmt_pid sv' = sv_pmt_pid sv
   \<and> listed (getId sv') (services sdt)"
proof -
  have "findService_name x es n = Some i \<Longrightarrow> listed i es" for es n i
    by (induction es) (auto simp: listed_def split: if_splits)
  moreover assume "findService x sdt sv = Some sv'"
  ultimately show ?thesis
    by (auto simp: findService_def getId_def split: option.splits)
qed

text \<open>
  The three ways \<^verbatim>\<open>processSDT\<close> goes.
\<close>

lemma processSDT_by_id:
  assumes "hasId (service s)"
  shows "processSDT x s sdt =
     ((if listed (getId (service s)) (services sdt) then s
       else tsp_report Info ''service not found in SDT, ignoring it'' s)
        \<lparr>pzer_sdt_bat :=
           addTable (Modified_SDT (sdt\<lparr>services := erase (getId (service s)) (services sdt)\<rparr>))
             (removeSections_ext TID_SDT_ACT (ts_id sdt) (pzer_sdt_bat s))\<rparr>,
      sdt\<lparr>services := erase (getId (service s)) (services sdt)\<rparr>)"
  using assms
  by (simp add: processSDT_def processSDT_lookup_def Let_def tsp_report_def listed_def)

lemma processSDT_name_not_found:
  assumes "\<not> hasId (service s)" and "findService x sdt (service s) = None"
  shows "processSDT x s sdt =
     (if ignore_absent s
      then ((tsp_report Warning ''service not found in SDT, ignoring it'' s)\<lparr>transparent := True\<rparr>, sdt)
      else ((tsp_report Error ''service not found in SDT'' s)\<lparr>abort := True\<rparr>, sdt))"
  using assms by (simp add: processSDT_def processSDT_lookup_def)

lemma processSDT_name_found:
  assumes "\<not> hasId (service s)" and "findService x sdt (service s) = Some sv"
  shows "processSDT x s sdt =
     ((tsp_report Verbose ''found service''
         (s\<lparr>service := sv,
            demux := (if ignore_nit s then addPID PID_PAT (demux s)
                      else addPID PID_NIT (addPID PID_PAT (demux s)))\<rparr>))
        \<lparr>pzer_sdt_bat :=
           addTable (Modified_SDT (sdt\<lparr>services := erase (getId sv) (services sdt)\<rparr>))
             (removeSections_ext TID_SDT_ACT (ts_id sdt) (pzer_sdt_bat s))\<rparr>,
      sdt\<lparr>services := erase (getId sv) (services sdt)\<rparr>)"
proof -
  have "hasId sv" using findService_Some [OF assms(2)] by (simp add: hasId_def)
  then show ?thesis
    using assms by (simp add: processSDT_def processSDT_lookup_def Let_def tsp_report_def)
qed

lemma processSDT_grows: "grows s (fst (processSDT x s sdt))"
proof (cases "hasId (service s)")
  case True
  then show ?thesis by (simp add: processSDT_by_id grows_def tsp_report_def)
next
  case False
  show ?thesis
  proof (cases "findService x sdt (service s)")
    case None
    then show ?thesis using False by (simp add: processSDT_name_not_found grows_def tsp_report_def)
  next
    case (Some sv)
    then show ?thesis using False by (simp add: processSDT_name_found grows_def tsp_report_def)
  qed
qed

lemma processSDT_registered:
  "registered_after_id s \<Longrightarrow> registered_after_id (fst (processSDT x s sdt))"
proof (cases "hasId (service s)")
  case True
  then show ?thesis by (simp add: processSDT_by_id registered_after_id_def tsp_report_def)
next
  case False
  assume r: "registered_after_id s"
  show ?thesis
  proof (cases "findService x sdt (service s)")
    case None
    then show ?thesis
      using False r by (simp add: processSDT_name_not_found registered_after_id_def tsp_report_def)
  next
    case (Some sv)
    then have "hasId sv" using findService_Some [OF Some] by (simp add: hasId_def)
    then show ?thesis
      using False Some by (simp add: processSDT_name_found registered_after_id_def tsp_report_def)
  qed
qed

section \<open>What every handler keeps\<close>

lemma growsI:
  assumes "drop_pids s \<subseteq> drop_pids s'" and "ref_pids s \<subseteq> ref_pids s'"
    and "abort s \<longrightarrow> abort s'" and "ready s \<longrightarrow> ready s'"
    and "transparent s \<longrightarrow> transparent s'"
    and "ignore_absent s' = ignore_absent s" and "ignore_bat s' = ignore_bat s"
    and "ignore_nit s' = ignore_nit s" and "drop_status s' = drop_status s"
    and "hasId (service s) \<longrightarrow> sv_id (service s') = sv_id (service s)"
  shows "grows s s'"
  unfolding grows_def using assms by (intro conjI)

lemma growsD:
  assumes "grows s s'"
  shows "drop_pids s \<subseteq> drop_pids s'" and "ref_pids s \<subseteq> ref_pids s'"
    and "abort s \<longrightarrow> abort s'" and "ready s \<longrightarrow> ready s'"
    and "transparent s \<longrightarrow> transparent s'"
    and "ignore_absent s' = ignore_absent s" and "ignore_bat s' = ignore_bat s"
    and "ignore_nit s' = ignore_nit s" and "drop_status s' = drop_status s"
    and "hasId (service s) \<longrightarrow> sv_id (service s') = sv_id (service s)"
  using assms unfolding grows_def by blast+

lemma grows_refl: "grows s s"
  by (rule growsI) simp_all

lemma grows_trans:
  assumes ab: "grows a b" and bc: "grows b c"
  shows "grows a c"
proof (rule growsI)
  show "drop_pids a \<subseteq> drop_pids c"
    using growsD(1) [OF ab] growsD(1) [OF bc] by (rule order_trans)
  show "ref_pids a \<subseteq> ref_pids c"
    using growsD(2) [OF ab] growsD(2) [OF bc] by (rule order_trans)
  show "abort a \<longrightarrow> abort c" using growsD(3) [OF ab] growsD(3) [OF bc] by simp
  show "ready a \<longrightarrow> ready c" using growsD(4) [OF ab] growsD(4) [OF bc] by simp
  show "transparent a \<longrightarrow> transparent c" using growsD(5) [OF ab] growsD(5) [OF bc] by simp
  show "ignore_absent c = ignore_absent a" using growsD(6) [OF ab] growsD(6) [OF bc] by simp
  show "ignore_bat c = ignore_bat a" using growsD(7) [OF ab] growsD(7) [OF bc] by simp
  show "ignore_nit c = ignore_nit a" using growsD(8) [OF ab] growsD(8) [OF bc] by simp
  show "drop_status c = drop_status a" using growsD(9) [OF ab] growsD(9) [OF bc] by simp
  show "hasId (service a) \<longrightarrow> sv_id (service c) = sv_id (service a)"
    using growsD(10) [OF ab] growsD(10) [OF bc] by (simp add: hasId_def)
qed

lemma grows_pzer_pat: "grows s (s\<lparr>pzer_pat := z\<rparr>)"
  by (rule growsI) simp_all

lemma grows_pzer_sdt_bat: "grows s (s\<lparr>pzer_sdt_bat := z\<rparr>)"
  by (rule growsI) simp_all

lemma grows_pzer_nit: "grows s (s\<lparr>pzer_nit := z\<rparr>)"
  by (rule growsI) simp_all

lemma grows_demux: "grows s (s\<lparr>demux := d\<rparr>)"
  by (rule growsI) simp_all

lemma processPAT_grows:
  assumes "processPAT s pat = Some (s', pat')"
  shows "grows s s'"
proof (rule growsI)
  note P = processPAT_props [OF assms]
  show "drop_pids s \<subseteq> drop_pids s'" by (simp add: P(1))
  show "ref_pids s \<subseteq> ref_pids s'" by (simp add: P(2))
  show "abort s \<longrightarrow> abort s'" by (simp add: P(17))
  show "ready s \<longrightarrow> ready s'" by (simp add: P(16))
  show "transparent s \<longrightarrow> transparent s'" by (simp add: P(7))
  show "ignore_absent s' = ignore_absent s" by (rule P(8))
  show "ignore_bat s' = ignore_bat s" by (rule P(9))
  show "ignore_nit s' = ignore_nit s" by (rule P(10))
  show "drop_status s' = drop_status s" by (rule P(11))
  show "hasId (service s) \<longrightarrow> sv_id (service s') = sv_id (service s)" by (simp add: P(5))
qed

lemma processPMT_grows: "grows s (processPMT x s pmt)"
  by (cases "service_id pmt = getId (service s)")
     (auto simp: processPMT_removed processPMT_other intro!: growsI)

text \<open>
  \<^verbatim>\<open>handleTable\<close>, one case of the \<^verbatim>\<open>switch\<close> at a time.
\<close>

lemmas TID_defs = TID_PAT_def TID_PMT_def TID_SDT_ACT_def TID_SDT_OTH_def TID_BAT_def
  TID_NIT_ACT_def TID_NIT_OTH_def

lemma handleTable_PAT:
  "tableId t = TID_PAT \<Longrightarrow> handleTable x s t =
     (if sourcePID t = PID_PAT then
        (case decode_PAT t of Some pat \<Rightarrow> map_option fst (processPAT s pat) | None \<Rightarrow> Some s)
      else Some s)"
  by (simp add: handleTable_def)

lemma handleTable_PMT:
  "tableId t = TID_PMT \<Longrightarrow> handleTable x s t =
     (case decode_PMT t of Some pmt \<Rightarrow> Some (processPMT x s pmt) | None \<Rightarrow> Some s)"
  by (simp add: handleTable_def TID_defs)

lemma handleTable_SDT_ACT:
  "tableId t = TID_SDT_ACT \<Longrightarrow> handleTable x s t =
     (if sourcePID t = PID_SDT then
        (case decode_SDT t of Some sdt \<Rightarrow> Some (fst (processSDT x s sdt)) | None \<Rightarrow> Some s)
      else Some s)"
  by (simp add: handleTable_def TID_defs)

lemma handleTable_SDT_OTH:
  "tableId t = TID_SDT_OTH \<Longrightarrow> handleTable x s t =
     (if sourcePID t = PID_SDT then
        Some (s\<lparr>pzer_sdt_bat :=
                  addTable (Unmodified t)
                    (removeSections_ext TID_SDT_OTH (tableIdExtension t) (pzer_sdt_bat s))\<rparr>)
      else Some s)"
  by (simp add: handleTable_def TID_defs)

lemma handleTable_BAT:
  "tableId t = TID_BAT \<Longrightarrow> handleTable x s t =
     (if sourcePID t = PID_BAT then
        (if \<not> hasId (service s) then Some (s\<lparr>demux := resetPID (sourcePID t) (demux s)\<rparr>)
         else if ignore_bat s then
           Some (s\<lparr>pzer_sdt_bat :=
                     addTable (Unmodified t)
                       (removeSections_ext TID_BAT (tableIdExtension t) (pzer_sdt_bat s))\<rparr>)
         else
           (case decode_BAT t of
              Some bat \<Rightarrow>
                Some (s\<lparr>pzer_sdt_bat :=
                          addTable (Modified_BAT (processNITBAT s bat))
                            (removeSections_ext TID_BAT (bouquet_id (processNITBAT s bat))
                               (pzer_sdt_bat s))\<rparr>)
            | None \<Rightarrow> Some s))
      else Some s)"
  by (cases "decode_BAT t") (simp_all add: handleTable_def TID_defs Let_def)

lemma handleTable_NIT_ACT:
  "tableId t = TID_NIT_ACT \<Longrightarrow> handleTable x s t =
     (if sourcePID t = PID_NIT then
        (if ignore_nit s then
           Some (s\<lparr>pzer_nit :=
                     addTable (Unmodified t)
                       (removeSections_ext TID_NIT_ACT (tableIdExtension t) (pzer_nit s))\<rparr>)
         else
           (case decode_NIT t of
              Some nit \<Rightarrow>
                Some (s\<lparr>pzer_nit :=
                          addTable (Modified_NIT (processNITBAT s nit))
                            (removeSections_ext TID_NIT_ACT (network_id (processNITBAT s nit))
                               (pzer_nit s))\<rparr>)
            | None \<Rightarrow> Some s))
      else Some s)"
  by (cases "decode_NIT t") (simp_all add: handleTable_def TID_defs Let_def)

lemma handleTable_NIT_OTH:
  "tableId t = TID_NIT_OTH \<Longrightarrow> handleTable x s t =
     (if sourcePID t = PID_NIT then
        Some (s\<lparr>pzer_nit :=
                  addTable (Unmodified t)
                    (removeSections_ext TID_NIT_OTH (tableIdExtension t) (pzer_nit s))\<rparr>)
      else Some s)"
  by (simp add: handleTable_def TID_defs)

lemma handleTable_other:
  "tableId t \<noteq> TID_PAT \<Longrightarrow> tableId t \<noteq> TID_PMT \<Longrightarrow> tableId t \<noteq> TID_SDT_ACT \<Longrightarrow>
   tableId t \<noteq> TID_SDT_OTH \<Longrightarrow> tableId t \<noteq> TID_BAT \<Longrightarrow> tableId t \<noteq> TID_NIT_ACT \<Longrightarrow>
   tableId t \<noteq> TID_NIT_OTH \<Longrightarrow> handleTable x s t = Some s"
  by (simp add: handleTable_def)

text \<open>
  What \<^verbatim>\<open>handleTable\<close> can do to the state.
\<close>

lemma tableId_cases:
  obtains "tableId t = TID_PAT" | "tableId t = TID_PMT" | "tableId t = TID_SDT_ACT"
    | "tableId t = TID_SDT_OTH" | "tableId t = TID_BAT" | "tableId t = TID_NIT_ACT"
    | "tableId t = TID_NIT_OTH"
    | "tableId t \<noteq> TID_PAT" "tableId t \<noteq> TID_PMT" "tableId t \<noteq> TID_SDT_ACT"
      "tableId t \<noteq> TID_SDT_OTH" "tableId t \<noteq> TID_BAT" "tableId t \<noteq> TID_NIT_ACT"
      "tableId t \<noteq> TID_NIT_OTH"
  by blast

lemma handleTable_cases:
  assumes "handleTable x s t = Some s'"
  obtains (pat) pat r where "processPAT s pat = Some r" "s' = fst r"
    | (pmt) pmt where "s' = processPMT x s pmt"
    | (sdt) sdt where "s' = fst (processSDT x s sdt)"
    | (zs) z where "s' = s\<lparr>pzer_sdt_bat := z\<rparr>"
    | (zn) z where "s' = s\<lparr>pzer_nit := z\<rparr>"
    | (dm) "s' = s\<lparr>demux := resetPID (sourcePID t) (demux s)\<rparr>"
    | (same) "s' = s"
proof -
  show thesis
  proof (cases t rule: tableId_cases)
    case 1
    then show ?thesis
      using assms pat same by (auto simp: handleTable_PAT split: if_splits option.splits)
  next
    case 2
    then show ?thesis
      using assms pmt same by (auto simp: handleTable_PMT split: option.splits)
  next
    case 3
    then show ?thesis
      using assms sdt same by (auto simp: handleTable_SDT_ACT split: if_splits option.splits)
  next
    case 4
    then show ?thesis
      using assms zs same by (auto simp: handleTable_SDT_OTH split: if_splits)
  next
    case 5
    then show ?thesis
      using assms zs dm same by (auto simp: handleTable_BAT split: if_splits option.splits)
  next
    case 6
    then show ?thesis
      using assms zn same by (auto simp: handleTable_NIT_ACT split: if_splits option.splits)
  next
    case 7
    then show ?thesis
      using assms zn same by (auto simp: handleTable_NIT_OTH split: if_splits)
  next
    case 8
    then show ?thesis
      using assms same by (simp add: handleTable_other)
  qed
qed

lemma handleTable_grows:
  assumes "handleTable x s t = Some s'"
  shows "grows s s'"
  using assms
proof (cases rule: handleTable_cases)
  case (pat pat r)
  then show ?thesis using processPAT_grows [of s pat "fst r" "snd r"] by simp
next
  case (pmt pmt)
  then show ?thesis by (simp add: processPMT_grows)
next
  case (sdt sdt)
  then show ?thesis by (simp add: processSDT_grows)
next
  case (zs z)
  then show ?thesis by (simp add: grows_pzer_sdt_bat)
next
  case (zn z)
  then show ?thesis by (simp add: grows_pzer_nit)
next
  case dm
  then show ?thesis by (simp add: grows_demux)
next
  case same
  then show ?thesis by (simp add: grows_refl)
qed

lemma PID_PAT_not_SDT: "PID_PAT \<noteq> PID_SDT"
  by (simp add: PID_PAT_def PID_SDT_def)


lemma processPAT_registered: "processPAT s pat = Some (s', pat') \<Longrightarrow> registered_after_id s'"
  using processPAT_props(5) [of s pat s' pat'] processPAT_hasId [of s pat "(s', pat')"]
  by (simp add: registered_after_id_def hasId_def)

lemma processPMT_registered: "registered_after_id s \<Longrightarrow> registered_after_id (processPMT x s pmt)"
  by (cases "service_id pmt = getId (service s)")
     (simp_all add: processPMT_removed processPMT_other registered_after_id_def)

lemma handleTable_registered:
  assumes "handleTable x s t = Some s'" and "registered_after_id s"
  shows "registered_after_id s'"
  using assms(1)
proof (cases rule: handleTable_cases)
  case (pat pat r)
  then show ?thesis using processPAT_registered [of s pat "fst r" "snd r"] by simp
next
  case (pmt pmt)
  then show ?thesis using assms(2) by (simp add: processPMT_registered)
next
  case (sdt sdt)
  then show ?thesis using assms(2) by (simp add: processSDT_registered)
next
  case (zs z)
  then show ?thesis using assms(2) by (simp add: registered_after_id_def)
next
  case (zn z)
  then show ?thesis using assms(2) by (simp add: registered_after_id_def)
next
  case dm
  then show ?thesis using assms(2) by (simp add: registered_after_id_def resetPID_def)
next
  case same
  then show ?thesis using assms(2) by simp
qed

text \<open>
  The assertion of \<^verbatim>\<open>processPAT\<close> holds whenever the table comes from a registered PID.
\<close>

lemma handleTable_None:
  assumes "handleTable x s t = None"
  shows "tableId t = TID_PAT \<and> sourcePID t = PID_PAT \<and> \<not> hasId (service s)"
proof (cases t rule: tableId_cases)
  case 1
  have sp: "sourcePID t = PID_PAT"
    using 1 assms by (simp add: handleTable_PAT split: if_splits)
  obtain pat where "processPAT s pat = None"
    using 1 assms sp by (cases "decode_PAT t") (simp_all add: handleTable_PAT)
  then have "\<not> hasId (service s)"
    using processPAT_total [of s pat] by auto
  then show ?thesis using 1 sp by simp
next
  case 2
  then show ?thesis using assms by (simp add: handleTable_PMT split: option.splits)
next
  case 3
  then show ?thesis using assms by (simp add: handleTable_SDT_ACT split: if_splits option.splits)
next
  case 4
  then show ?thesis using assms by (simp add: handleTable_SDT_OTH split: if_splits)
next
  case 5
  then show ?thesis using assms by (simp add: handleTable_BAT split: if_splits option.splits)
next
  case 6
  then show ?thesis using assms by (simp add: handleTable_NIT_ACT split: if_splits option.splits)
next
  case 7
  then show ?thesis using assms by (simp add: handleTable_NIT_OTH split: if_splits)
next
  case 8
  then show ?thesis using assms by (simp add: handleTable_other)
qed

lemma handleTable_total:
  assumes "registered_after_id s" and "sourcePID t \<in> pid_filter (demux s)"
  shows "\<exists>s'. handleTable x s t = Some s'"
proof (cases "handleTable x s t")
  case None
  then have "sourcePID t = PID_PAT" "\<not> hasId (service s)"
    using handleTable_None by blast+
  then have False
    using assms PID_PAT_not_SDT by (auto simp: registered_after_id_def)
  then show ?thesis ..
next
  case (Some s')
  then show ?thesis by simp
qed

section \<open>Feeding the demultiplexer and routing a packet\<close>

lemma deliver_grows: "deliver x pkt s t = Some s' \<Longrightarrow> grows s s'"
  unfolding deliver_def
  by (auto split: if_splits intro: grows_refl grows_trans [OF grows_demux handleTable_grows])

lemma deliver_registered:
  assumes "deliver x pkt s t = Some s'" and "registered_after_id s"
  shows "registered_after_id s'"
proof (cases "sourcePID t = getPID pkt \<and> getPID pkt \<in> pid_filter (demux s)
         \<and> table_key_of t \<notin> delivered (demux s)")
  case True
  let ?s = "s\<lparr>demux := (demux s)\<lparr>delivered := insert (table_key_of t) (delivered (demux s))\<rparr>\<rparr>"
  have h: "handleTable x ?s t = Some s'" using assms(1) True by (simp add: deliver_def)
  have "registered_after_id ?s" using assms(2) by (simp add: registered_after_id_def)
  with h show ?thesis by (rule handleTable_registered)
next
  case False
  then have "s' = s" using assms(1) by (auto simp: deliver_def)
  then show ?thesis using assms(2) by simp
qed

lemma deliver_total: "registered_after_id s \<Longrightarrow> \<exists>s'. deliver x pkt s t = Some s'"
  unfolding deliver_def
  by (auto intro!: handleTable_total simp: registered_after_id_def)

lemma feedPacket_grows: "feedPacket x s pkt tabs = Some s' \<Longrightarrow> grows s s'"
proof (induction tabs arbitrary: s)
  case Nil
  then show ?case by (simp add: grows_refl)
next
  case (Cons t ts)
  then obtain s1 where d: "deliver x pkt s t = Some s1" and f: "feedPacket x s1 pkt ts = Some s'"
    by (auto split: option.splits)
  from deliver_grows [OF d] Cons.IH [OF f] show ?case by (rule grows_trans)
qed

lemma feedPacket_registered:
  "feedPacket x s pkt tabs = Some s' \<Longrightarrow> registered_after_id s \<Longrightarrow> registered_after_id s'"
proof (induction tabs arbitrary: s)
  case Nil
  then show ?case by simp
next
  case (Cons t ts)
  then obtain s1 where d: "deliver x pkt s t = Some s1" and f: "feedPacket x s1 pkt ts = Some s'"
    by (auto split: option.splits)
  from Cons.IH [OF f deliver_registered [OF d Cons.prems(2)]] show ?case .
qed

lemma feedPacket_total:
  "registered_after_id s \<Longrightarrow> \<exists>s'. feedPacket x s pkt tabs = Some s'"
proof (induction tabs arbitrary: s)
  case Nil
  then show ?case by simp
next
  case (Cons t ts)
  obtain s1 where d: "deliver x pkt s t = Some s1"
    using deliver_total [OF Cons.prems] by blast
  from Cons.IH [OF deliver_registered [OF d Cons.prems]] d show ?case by simp
qed

lemma route_eq: "route x s pkt = outcome_result x s pkt (selected_outcome s (getPID pkt))"
  by (simp add: route_def selected_outcome_def Let_def split: prod.splits)

lemma route_state:
  "route x s pkt = (st, p, s') \<Longrightarrow>
   (\<exists>z. s' = s\<lparr>pzer_pat := z\<rparr>) \<or> (\<exists>z. s' = s\<lparr>pzer_sdt_bat := z\<rparr>)
   \<or> (\<exists>z. s' = s\<lparr>pzer_nit := z\<rparr>) \<or> s' = s"
  unfolding route_def Let_def by (auto split: if_splits prod.splits)

lemma route_grows: "route x s pkt = (st, p, s') \<Longrightarrow> grows s s'"
  using route_state [of x s pkt st p s']
  by (auto simp: grows_pzer_pat grows_pzer_sdt_bat grows_pzer_nit grows_refl)

lemma route_registered:
  "route x s pkt = (st, p, s') \<Longrightarrow> registered_after_id s \<Longrightarrow> registered_after_id s'"
  using route_state [of x s pkt st p s'] by (auto simp: registered_after_id_def)

lemma processPacket_grows: "processPacket x s pkt tabs = Some (st, p, s') \<Longrightarrow> grows s s'"
  unfolding processPacket_def
  by (auto split: if_splits option.splits
        intro: grows_refl grows_trans [OF feedPacket_grows route_grows])

lemma processPacket_registered:
  "processPacket x s pkt tabs = Some (st, p, s') \<Longrightarrow> registered_after_id s \<Longrightarrow>
   registered_after_id s'"
  unfolding processPacket_def
  by (auto split: if_splits option.splits dest: feedPacket_registered route_registered)

lemma processPacket_total:
  assumes "registered_after_id s"
  shows "\<exists>r. processPacket x s pkt tabs = Some r"
proof (cases "transparent s")
  case True
  then show ?thesis by (simp add: processPacket_def)
next
  case False
  obtain s1 where "feedPacket x s pkt tabs = Some s1"
    using feedPacket_total [OF assms] by blast
  then have "processPacket x s pkt tabs = Some (route x s1 pkt)"
    using False by (simp add: processPacket_def)
  then show ?thesis by (rule exI)
qed

lemma run_grows: "run x s ins = Some (out, s') \<Longrightarrow> grows s s'"
proof (induction ins arbitrary: s out)
  case Nil
  then show ?case by (simp add: grows_refl)
next
  case (Cons i rest)
  from Cons.prems obtain st p s1 where pp: "processPacket x s (fst i) (snd i) = Some (st, p, s1)"
    by (auto split: option.splits)
  have g1: "grows s s1" using pp by (rule processPacket_grows)
  show ?case
  proof (cases "st = TSP_END")
    case True
    then have "s' = s1" using Cons.prems pp by simp
    then show ?thesis using g1 by simp
  next
    case False
    then obtain out1 where "run x s1 rest = Some (out1, s')"
      using Cons.prems pp by (auto split: option.splits)
    from g1 Cons.IH [OF this] show ?thesis by (rule grows_trans)
  qed
qed

lemma run_total:
  "registered_after_id s \<Longrightarrow> \<exists>r. run x s ins = Some r"
proof (induction ins arbitrary: s)
  case Nil
  then show ?case by simp
next
  case (Cons i rest)
  obtain st p s1 where pp: "processPacket x s (fst i) (snd i) = Some (st, p, s1)"
    using processPacket_total [OF Cons.prems, of x "fst i" "snd i"] by (metis prod_cases3)
  have "registered_after_id s1" using pp Cons.prems by (rule processPacket_registered)
  from Cons.IH [OF this] obtain r where "run x s1 rest = Some r" by blast
  then show ?case using pp by (cases r) (simp split: option.splits)
qed

lemma start_registered:
  "pid_filter (demux s) \<subseteq> {PID_SDT} \<Longrightarrow> registered_after_id (start opts s)"
  by (auto simp: registered_after_id_def start_def Let_def addPID_def demux_reset_def)

section \<open>The packet router\<close>

lemma route_flags:
  assumes "route x s pkt = (st, p, s')"
  shows "ready s' = ready s" and "abort s' = abort s" and "drop_pids s' = drop_pids s"
    and "ref_pids s' = ref_pids s"
  using route_state [OF assms] by auto

lemma processPacket_transparent:
  "transparent s \<Longrightarrow> processPacket x s pkt tabs = Some (TSP_OK, pkt, s)"
  by (simp add: processPacket_def)

lemma processPacket_routed:
  "\<not> transparent s \<Longrightarrow> feedPacket x s pkt tabs = Some s1 \<Longrightarrow>
   processPacket x s pkt tabs = Some (route x s1 pkt)"
  by (simp add: processPacket_def)

lemma route_abort: "abort s \<Longrightarrow> route x s pkt = (TSP_END, pkt, s)"
  by (simp add: route_def)

text \<open>
  C3. For every incoming packet \<^verbatim>\<open>processPacket\<close> produces exactly one outcome, chosen in
  this fixed priority: in transparent mode the packet passes unchanged and the
  demultiplexer is not fed; otherwise the demultiplexer is fed and then, on the state it
  leaves, abort ends the stream; otherwise, if ready is not yet true, the packet gets the
  configured drop behaviour whatever its PID; otherwise a packet whose PID is in
  \<open>drop_pids\<close> and not in \<open>ref_pids\<close> gets the drop behaviour; otherwise a packet on the
  output PID of the PAT packetizer, of the SDT/BAT packetizer or (when NIT editing is not
  suppressed) of the NIT packetizer is replaced by the next packet of that packetizer;
  otherwise the packet passes unchanged. The outcome is the one the specification selects
  (\<open>selected_outcome\<close>), and from a state a run can reach the function returns.
\<close>

theorem C3_router_priority:
  "(transparent s \<longrightarrow> processPacket x s pkt tabs = Some (TSP_OK, pkt, s))
   \<and> (\<not> transparent s \<and> feedPacket x s pkt tabs = None \<longrightarrow> processPacket x s pkt tabs = None)
   \<and> (\<not> transparent s \<and> feedPacket x s pkt tabs = Some s1 \<longrightarrow>
        processPacket x s pkt tabs
          = Some (outcome_result x s1 pkt (selected_outcome s1 (getPID pkt)))
        \<and> (abort s1 \<longrightarrow> processPacket x s pkt tabs = Some (TSP_END, pkt, s1))
        \<and> (\<not> abort s1 \<and> \<not> ready s1 \<longrightarrow>
             processPacket x s pkt tabs = Some (drop_status s1, pkt, s1))
        \<and> (\<not> abort s1 \<and> ready s1 \<and> getPID pkt \<in> drop_pids s1 \<and> getPID pkt \<notin> ref_pids s1 \<longrightarrow>
             processPacket x s pkt tabs = Some (drop_status s1, pkt, s1))
        \<and> (\<not> abort s1 \<and> ready s1 \<and> \<not> (getPID pkt \<in> drop_pids s1 \<and> getPID pkt \<notin> ref_pids s1) \<longrightarrow>
             (getPID pkt = pzer_pid (pzer_pat s1) \<longrightarrow>
                processPacket x s pkt tabs
                  = Some (TSP_OK, fst (getNextPacket x (pzer_pat s1)),
                          s1\<lparr>pzer_pat := snd (getNextPacket x (pzer_pat s1))\<rparr>))
             \<and> (getPID pkt \<noteq> pzer_pid (pzer_pat s1) \<and> getPID pkt = pzer_pid (pzer_sdt_bat s1) \<longrightarrow>
                processPacket x s pkt tabs
                  = Some (TSP_OK, fst (getNextPacket x (pzer_sdt_bat s1)),
                          s1\<lparr>pzer_sdt_bat := snd (getNextPacket x (pzer_sdt_bat s1))\<rparr>))
             \<and> (getPID pkt \<noteq> pzer_pid (pzer_pat s1) \<and> getPID pkt \<noteq> pzer_pid (pzer_sdt_bat s1)
                  \<and> \<not> ignore_nit s1 \<and> getPID pkt = pzer_pid (pzer_nit s1) \<longrightarrow>
                processPacket x s pkt tabs
                  = Some (TSP_OK, fst (getNextPacket x (pzer_nit s1)),
                          s1\<lparr>pzer_nit := snd (getNextPacket x (pzer_nit s1))\<rparr>))
             \<and> (getPID pkt \<noteq> pzer_pid (pzer_pat s1) \<and> getPID pkt \<noteq> pzer_pid (pzer_sdt_bat s1)
                  \<and> (ignore_nit s1 \<or> getPID pkt \<noteq> pzer_pid (pzer_nit s1)) \<longrightarrow>
                processPacket x s pkt tabs = Some (TSP_OK, pkt, s1))))
   \<and> (registered_after_id s \<longrightarrow> (\<exists>r. processPacket x s pkt tabs = Some r))"
proof -
  have t: "transparent s \<longrightarrow> processPacket x s pkt tabs = Some (TSP_OK, pkt, s)"
    by (simp add: processPacket_transparent)
  have n: "\<not> transparent s \<and> feedPacket x s pkt tabs = None \<longrightarrow> processPacket x s pkt tabs = None"
    by (simp add: processPacket_def)
  have tot: "registered_after_id s \<longrightarrow> (\<exists>r. processPacket x s pkt tabs = Some r)"
    using processPacket_total by blast
  have r: "\<not> transparent s \<and> feedPacket x s pkt tabs = Some s1 \<longrightarrow>
        processPacket x s pkt tabs = Some (route x s1 pkt)"
    by (simp add: processPacket_routed)
  have sel: "route x s1 pkt = outcome_result x s1 pkt (selected_outcome s1 (getPID pkt))"
    by (rule route_eq)
  have o1: "abort s1 \<Longrightarrow> selected_outcome s1 pid = Terminate" for pid
    by (simp add: selected_outcome_def)
  have o2: "\<not> abort s1 \<and> \<not> ready s1 \<Longrightarrow> selected_outcome s1 pid = Drop_behaviour" for pid
    by (simp add: selected_outcome_def)
  have o3: "\<not> abort s1 \<and> ready s1 \<and> pid \<in> drop_pids s1 \<and> pid \<notin> ref_pids s1 \<Longrightarrow>
            selected_outcome s1 pid = Drop_behaviour" for pid
    by (simp add: selected_outcome_def)
  have o4: "\<not> abort s1 \<and> ready s1 \<and> \<not> (pid \<in> drop_pids s1 \<and> pid \<notin> ref_pids s1) \<Longrightarrow>
            pid = pzer_pid (pzer_pat s1) \<Longrightarrow>
            selected_outcome s1 pid = Replace_from_PAT" for pid
    by (auto simp: selected_outcome_def)
  have o5: "\<not> abort s1 \<and> ready s1 \<and> \<not> (pid \<in> drop_pids s1 \<and> pid \<notin> ref_pids s1) \<Longrightarrow>
            pid \<noteq> pzer_pid (pzer_pat s1) \<and> pid = pzer_pid (pzer_sdt_bat s1) \<Longrightarrow>
            selected_outcome s1 pid = Replace_from_SDT_BAT" for pid
    by (auto simp: selected_outcome_def)
  have o6: "\<not> abort s1 \<and> ready s1 \<and> \<not> (pid \<in> drop_pids s1 \<and> pid \<notin> ref_pids s1) \<Longrightarrow>
            pid \<noteq> pzer_pid (pzer_pat s1) \<and> pid \<noteq> pzer_pid (pzer_sdt_bat s1)
                  \<and> \<not> ignore_nit s1 \<and> pid = pzer_pid (pzer_nit s1) \<Longrightarrow>
            selected_outcome s1 pid = Replace_from_NIT" for pid
    by (auto simp: selected_outcome_def)
  have o7: "\<not> abort s1 \<and> ready s1 \<and> \<not> (pid \<in> drop_pids s1 \<and> pid \<notin> ref_pids s1) \<Longrightarrow>
            pid \<noteq> pzer_pid (pzer_pat s1) \<and> pid \<noteq> pzer_pid (pzer_sdt_bat s1)
                  \<and> (ignore_nit s1 \<or> pid \<noteq> pzer_pid (pzer_nit s1)) \<Longrightarrow>
            selected_outcome s1 pid = Pass_unchanged" for pid
    by (auto simp: selected_outcome_def)
  have third: "\<not> transparent s \<and> feedPacket x s pkt tabs = Some s1 \<longrightarrow>
        processPacket x s pkt tabs
          = Some (outcome_result x s1 pkt (selected_outcome s1 (getPID pkt)))
        \<and> (abort s1 \<longrightarrow> processPacket x s pkt tabs = Some (TSP_END, pkt, s1))
        \<and> (\<not> abort s1 \<and> \<not> ready s1 \<longrightarrow>
             processPacket x s pkt tabs = Some (drop_status s1, pkt, s1))
        \<and> (\<not> abort s1 \<and> ready s1 \<and> getPID pkt \<in> drop_pids s1 \<and> getPID pkt \<notin> ref_pids s1 \<longrightarrow>
             processPacket x s pkt tabs = Some (drop_status s1, pkt, s1))
        \<and> (\<not> abort s1 \<and> ready s1 \<and> \<not> (getPID pkt \<in> drop_pids s1 \<and> getPID pkt \<notin> ref_pids s1) \<longrightarrow>
             (getPID pkt = pzer_pid (pzer_pat s1) \<longrightarrow>
                processPacket x s pkt tabs
                  = Some (TSP_OK, fst (getNextPacket x (pzer_pat s1)),
                          s1\<lparr>pzer_pat := snd (getNextPacket x (pzer_pat s1))\<rparr>))
             \<and> (getPID pkt \<noteq> pzer_pid (pzer_pat s1) \<and> getPID pkt = pzer_pid (pzer_sdt_bat s1) \<longrightarrow>
                processPacket x s pkt tabs
                  = Some (TSP_OK, fst (getNextPacket x (pzer_sdt_bat s1)),
                          s1\<lparr>pzer_sdt_bat := snd (getNextPacket x (pzer_sdt_bat s1))\<rparr>))
             \<and> (getPID pkt \<noteq> pzer_pid (pzer_pat s1) \<and> getPID pkt \<noteq> pzer_pid (pzer_sdt_bat s1)
                  \<and> \<not> ignore_nit s1 \<and> getPID pkt = pzer_pid (pzer_nit s1) \<longrightarrow>
                processPacket x s pkt tabs
                  = Some (TSP_OK, fst (getNextPacket x (pzer_nit s1)),
                          s1\<lparr>pzer_nit := snd (getNextPacket x (pzer_nit s1))\<rparr>))
             \<and> (getPID pkt \<noteq> pzer_pid (pzer_pat s1) \<and> getPID pkt \<noteq> pzer_pid (pzer_sdt_bat s1)
                  \<and> (ignore_nit s1 \<or> getPID pkt \<noteq> pzer_pid (pzer_nit s1)) \<longrightarrow>
                processPacket x s pkt tabs = Some (TSP_OK, pkt, s1)))"
  proof (intro impI)
    assume a: "\<not> transparent s \<and> feedPacket x s pkt tabs = Some s1"
    have pp: "processPacket x s pkt tabs
                = Some (outcome_result x s1 pkt (selected_outcome s1 (getPID pkt)))"
      using a r sel by simp
    show "processPacket x s pkt tabs
          = Some (outcome_result x s1 pkt (selected_outcome s1 (getPID pkt)))
        \<and> (abort s1 \<longrightarrow> processPacket x s pkt tabs = Some (TSP_END, pkt, s1))
        \<and> (\<not> abort s1 \<and> \<not> ready s1 \<longrightarrow>
             processPacket x s pkt tabs = Some (drop_status s1, pkt, s1))
        \<and> (\<not> abort s1 \<and> ready s1 \<and> getPID pkt \<in> drop_pids s1 \<and> getPID pkt \<notin> ref_pids s1 \<longrightarrow>
             processPacket x s pkt tabs = Some (drop_status s1, pkt, s1))
        \<and> (\<not> abort s1 \<and> ready s1 \<and> \<not> (getPID pkt \<in> drop_pids s1 \<and> getPID pkt \<notin> ref_pids s1) \<longrightarrow>
             (getPID pkt = pzer_pid (pzer_pat s1) \<longrightarrow>
                processPacket x s pkt tabs
                  = Some (TSP_OK, fst (getNextPacket x (pzer_pat s1)),
                          s1\<lparr>pzer_pat := snd (getNextPacket x (pzer_pat s1))\<rparr>))
             \<and> (getPID pkt \<noteq> pzer_pid (pzer_pat s1) \<and> getPID pkt = pzer_pid (pzer_sdt_bat s1) \<longrightarrow>
                processPacket x s pkt tabs
                  = Some (TSP_OK, fst (getNextPacket x (pzer_sdt_bat s1)),
                          s1\<lparr>pzer_sdt_bat := snd (getNextPacket x (pzer_sdt_bat s1))\<rparr>))
             \<and> (getPID pkt \<noteq> pzer_pid (pzer_pat s1) \<and> getPID pkt \<noteq> pzer_pid (pzer_sdt_bat s1)
                  \<and> \<not> ignore_nit s1 \<and> getPID pkt = pzer_pid (pzer_nit s1) \<longrightarrow>
                processPacket x s pkt tabs
                  = Some (TSP_OK, fst (getNextPacket x (pzer_nit s1)),
                          s1\<lparr>pzer_nit := snd (getNextPacket x (pzer_nit s1))\<rparr>))
             \<and> (getPID pkt \<noteq> pzer_pid (pzer_pat s1) \<and> getPID pkt \<noteq> pzer_pid (pzer_sdt_bat s1)
                  \<and> (ignore_nit s1 \<or> getPID pkt \<noteq> pzer_pid (pzer_nit s1)) \<longrightarrow>
                processPacket x s pkt tabs = Some (TSP_OK, pkt, s1)))"
      unfolding pp
      by (intro conjI impI; (elim conjE)?; simp add: o1 o2 o3 o4 o5 o6 o7)
  qed
  show ?thesis
    using t n third tot by (intro conjI)
qed
theorem C3_router_priority_witness:
  "processPacket sample_externals (constructed\<lparr>ready := True, drop_pids := {0x100}\<rparr>)
     \<lparr>getPID = 0x100, bytes = []\<rparr> []
   = Some (TSP_DROP, \<lparr>getPID = 0x100, bytes = []\<rparr>,
           constructed\<lparr>ready := True, drop_pids := {0x100}\<rparr>)
   \<and> processPacket sample_externals (constructed\<lparr>ready := True, drop_pids := {0x100}\<rparr>)
     \<lparr>getPID = 0, bytes = [1]\<rparr> []
   = Some (TSP_OK, \<lparr>getPID = 0, bytes = []\<rparr>,
           constructed\<lparr>ready := True, drop_pids := {0x100}\<rparr>)
   \<and> processPacket sample_externals (constructed\<lparr>transparent := True\<rparr>)
     \<lparr>getPID = 0x100, bytes = []\<rparr> []
   = Some (TSP_OK, \<lparr>getPID = 0x100, bytes = []\<rparr>, constructed\<lparr>transparent := True\<rparr>)"
proof -
  let ?s = "constructed\<lparr>ready := True, drop_pids := {0x100}\<rparr>"
  let ?t = "constructed\<lparr>transparent := True\<rparr>"
  have f: "\<not> transparent ?s \<and> feedPacket sample_externals ?s pkt [] = Some ?s" for pkt
    by (simp add: constructed_def)
  have T: "processPacket sample_externals ?s pkt []
             = Some (outcome_result sample_externals ?s pkt (selected_outcome ?s (getPID pkt)))"
    for pkt
    using C3_router_priority [of ?s sample_externals pkt "[]" ?s, THEN conjunct2,
            THEN conjunct2, THEN conjunct1, THEN mp, OF f, THEN conjunct1] .
  have a: "selected_outcome ?s 0x100 = Drop_behaviour"
    by (simp add: selected_outcome_def constructed_def)
  have b: "selected_outcome ?s 0 = Replace_from_PAT"
    by (simp add: selected_outcome_def constructed_def PID_PAT_def)
  have c: "processPacket sample_externals ?t \<lparr>getPID = 0x100, bytes = []\<rparr> []
             = Some (TSP_OK, \<lparr>getPID = 0x100, bytes = []\<rparr>, ?t)"
    using C3_router_priority [of ?t sample_externals "\<lparr>getPID = 0x100, bytes = []\<rparr>" "[]" ?t,
            THEN conjunct1]
    by (simp add: constructed_def)
  show ?thesis
    unfolding T c by (simp add: a b) (simp add: constructed_def sample_externals_def PID_PAT_def)
qed
text \<open>
  C4. For every packet routed after readiness: if the PID of the packet is in both
  \<open>drop_pids\<close> and \<open>ref_pids\<close>, the status returned is never the drop behaviour (neither
  \<^verbatim>\<open>TSP_DROP\<close>, the removal, nor \<^verbatim>\<open>TSP_NULL\<close>, the null packet), and the outcome selected at
  the routing decision is not the drop behaviour. This holds for the sets and the flag at
  the routing decision (which the returned state still has) and for those at the arrival
  of the packet, since the demultiplexer only adds to them.
\<close>

theorem C4_referenced_pid_never_dropped:
  assumes "processPacket x s pkt tabs = Some (st, p, s')"
  shows "(ready s' \<and> getPID pkt \<in> drop_pids s' \<and> getPID pkt \<in> ref_pids s' \<longrightarrow>
            st \<noteq> TSP_DROP \<and> st \<noteq> TSP_NULL
            \<and> (\<not> transparent s \<longrightarrow> selected_outcome s' (getPID pkt) \<noteq> Drop_behaviour))
         \<and> (ready s \<and> getPID pkt \<in> drop_pids s \<and> getPID pkt \<in> ref_pids s \<longrightarrow>
            st \<noteq> TSP_DROP \<and> st \<noteq> TSP_NULL
            \<and> ready s' \<and> getPID pkt \<in> drop_pids s' \<and> getPID pkt \<in> ref_pids s')"
proof -
  have post: "st \<noteq> TSP_DROP \<and> st \<noteq> TSP_NULL
            \<and> (\<not> transparent s \<longrightarrow> selected_outcome s' (getPID pkt) \<noteq> Drop_behaviour)"
    if h: "ready s'" "getPID pkt \<in> ref_pids s'"
  proof (cases "transparent s")
    case True
    then show ?thesis using assms by (simp add: processPacket_transparent)
  next
    case False
    then obtain s1 where r: "route x s1 pkt = (st, p, s')"
      using assms by (auto simp: processPacket_def split: option.splits)
    note fl = route_flags [OF r]
    have rd: "ready s1" and rf: "getPID pkt \<in> ref_pids s1" using h fl by simp_all
    have sel: "selected_outcome s1 (getPID pkt) \<noteq> Drop_behaviour"
      using rd rf by (simp add: selected_outcome_def)
    have "selected_outcome s' (getPID pkt) \<noteq> Drop_behaviour"
      using h by (simp add: selected_outcome_def)
    moreover have "st = fst (outcome_result x s1 pkt (selected_outcome s1 (getPID pkt)))"
      using r by (simp add: route_eq [symmetric])
    then have "st \<noteq> TSP_DROP \<and> st \<noteq> TSP_NULL"
      using sel by (cases "selected_outcome s1 (getPID pkt)") simp_all
    ultimately show ?thesis by simp
  qed
  have g: "grows s s'" using assms by (rule processPacket_grows)
  have pre: "ready s' \<and> getPID pkt \<in> drop_pids s' \<and> getPID pkt \<in> ref_pids s'"
    if "ready s" "getPID pkt \<in> drop_pids s" "getPID pkt \<in> ref_pids s"
    using that growsD(1,2,4) [OF g] by blast
  show ?thesis using post pre by blast
qed

theorem C4_referenced_pid_witness:
  "processPacket sample_externals
     (constructed\<lparr>ready := True, drop_pids := {0x100}, ref_pids := {0x100}\<rparr>)
     \<lparr>getPID = 0x100, bytes = [7]\<rparr> []
   = Some (TSP_OK, \<lparr>getPID = 0x100, bytes = [7]\<rparr>,
           constructed\<lparr>ready := True, drop_pids := {0x100}, ref_pids := {0x100}\<rparr>)
   \<and> TSP_OK \<noteq> TSP_DROP \<and> TSP_OK \<noteq> TSP_NULL"
proof -
  let ?s = "constructed\<lparr>ready := True, drop_pids := {0x100}, ref_pids := {0x100}\<rparr>"
  let ?pkt = "\<lparr>getPID = 0x100, bytes = [7]\<rparr>"
  have r: "processPacket sample_externals ?s ?pkt [] = Some (TSP_OK, ?pkt, ?s)"
    by (simp add: processPacket_def route_def constructed_def PID_PAT_def PID_SDT_def PID_NIT_def)
  from C4_referenced_pid_never_dropped [OF r]
  have "TSP_OK \<noteq> TSP_DROP \<and> TSP_OK \<noteq> TSP_NULL" by (simp add: constructed_def)
  with r show ?thesis by simp
qed

section \<open>Growth of the PID sets\<close>

text \<open>
  C10. Within one run, from \<^verbatim>\<open>start\<close> on, \<open>drop_pids\<close> and \<open>ref_pids\<close> only grow: no table
  handler (\<^verbatim>\<open>handleTable\<close> with \<^verbatim>\<open>processPAT\<close>, \<^verbatim>\<open>processPMT\<close>, \<^verbatim>\<open>processSDT\<close>), no
  \<^verbatim>\<open>processPacket\<close> and no sequence of them removes a PID from either set. \<^verbatim>\<open>start\<close> sets
  \<open>ref_pids\<close> to the fifteen standard PIDs, which the statement lists: PAT, CAT, TSDT, null,
  NIT, SDT (which is also the PID of the BAT), EIT, RST, TDT, network synchronisation, RNT,
  inband signalling, measurement, DIT and SIT; and it empties \<open>drop_pids\<close>. Each of these
  PIDs is in \<open>ref_pids\<close> at the end of every run from \<^verbatim>\<open>start\<close>, and such a run returns when
  no PID but that of the SDT was registered with the demultiplexer before \<^verbatim>\<open>start\<close> (as for a
  plugin just constructed).
\<close>

theorem C10_pid_sets_grow:
  "(handleTable x s t = Some s' \<longrightarrow>
      drop_pids s \<subseteq> drop_pids s' \<and> ref_pids s \<subseteq> ref_pids s')
   \<and> (processPacket x s pkt tabs = Some (st, p, s') \<longrightarrow>
      drop_pids s \<subseteq> drop_pids s' \<and> ref_pids s \<subseteq> ref_pids s')
   \<and> (run x s ins = Some (out, s') \<longrightarrow>
      drop_pids s \<subseteq> drop_pids s' \<and> ref_pids s \<subseteq> ref_pids s')
   \<and> ref_pids (start opts s0) =
        {PID_PAT, PID_CAT, PID_TSDT, PID_NULL, PID_NIT, PID_SDT, PID_EIT, PID_RST, PID_TDT,
         PID_NETSYNC, PID_RNT, PID_INBSIGN, PID_MEASURE, PID_DIT, PID_SIT}
   \<and> PID_BAT \<in> ref_pids (start opts s0)
   \<and> drop_pids (start opts s0) = {}
   \<and> (run x (start opts s0) ins = Some (out, s') \<longrightarrow>
        {PID_PAT, PID_CAT, PID_TSDT, PID_NULL, PID_NIT, PID_SDT, PID_BAT, PID_EIT, PID_RST,
         PID_TDT, PID_NETSYNC, PID_RNT, PID_INBSIGN, PID_MEASURE, PID_DIT, PID_SIT}
          \<subseteq> ref_pids s')
   \<and> (pid_filter (demux s0) \<subseteq> {PID_SDT} \<longrightarrow>
        (\<exists>out' s''. run x (start opts s0) ins = Some (out', s'')
           \<and> {PID_PAT, PID_CAT, PID_TSDT, PID_NULL, PID_NIT, PID_SDT, PID_BAT, PID_EIT,
               PID_RST, PID_TDT, PID_NETSYNC, PID_RNT, PID_INBSIGN, PID_MEASURE, PID_DIT,
               PID_SIT} \<subseteq> ref_pids s''))"
proof -
  let ?S = "{PID_PAT, PID_CAT, PID_TSDT, PID_NULL, PID_NIT, PID_SDT, PID_BAT, PID_EIT, PID_RST,
         PID_TDT, PID_NETSYNC, PID_RNT, PID_INBSIGN, PID_MEASURE, PID_DIT, PID_SIT}"
  have 1: "handleTable x s t = Some s' \<longrightarrow>
      drop_pids s \<subseteq> drop_pids s' \<and> ref_pids s \<subseteq> ref_pids s'"
    using growsD(1,2) [OF handleTable_grows] by blast
  have 2: "processPacket x s pkt tabs = Some (st, p, s') \<longrightarrow>
      drop_pids s \<subseteq> drop_pids s' \<and> ref_pids s \<subseteq> ref_pids s'"
    using growsD(1,2) [OF processPacket_grows] by blast
  have 3: "run x s ins = Some (out, s') \<longrightarrow>
      drop_pids s \<subseteq> drop_pids s' \<and> ref_pids s \<subseteq> ref_pids s'"
    using growsD(1,2) [OF run_grows] by blast
  have seed: "ref_pids (start opts s0) =
        {PID_PAT, PID_CAT, PID_TSDT, PID_NULL, PID_NIT, PID_SDT, PID_EIT, PID_RST, PID_TDT,
         PID_NETSYNC, PID_RNT, PID_INBSIGN, PID_MEASURE, PID_DIT, PID_SIT}"
    by (simp add: start_def Let_def standard_pids_def)
  have bat: "PID_BAT \<in> ref_pids (start opts s0)"
    unfolding seed by (simp add: PID_BAT_def PID_SDT_def)
  have all: "?S \<subseteq> ref_pids (start opts s0)"
    using bat unfolding seed by simp
  have dr: "drop_pids (start opts s0) = {}"
    by (simp add: start_def Let_def)
  have std: "?S \<subseteq> ref_pids s2" if "run x (start opts s0) ins = Some (o2, s2)"
    for o2 s2
    using growsD(2) [OF run_grows [OF that]] all by (rule_tac order_trans)
  have 4: "run x (start opts s0) ins = Some (out, s') \<longrightarrow> ?S \<subseteq> ref_pids s'"
    using std by blast
  have 5: "pid_filter (demux s0) \<subseteq> {PID_SDT} \<longrightarrow>
        (\<exists>out' s''. run x (start opts s0) ins = Some (out', s'') \<and> ?S \<subseteq> ref_pids s'')"
  proof
    assume "pid_filter (demux s0) \<subseteq> {PID_SDT}"
    then obtain out' s'' where r: "run x (start opts s0) ins = Some (out', s'')"
      using run_total [OF start_registered, of s0 x opts ins] by (metis surj_pair)
    with std [OF r] show "\<exists>out' s''. run x (start opts s0) ins = Some (out', s'')
           \<and> ?S \<subseteq> ref_pids s''" by blast
  qed
  show ?thesis using 1 2 3 seed bat dr 4 5 by (intro conjI)
qed

theorem C10_pid_sets_grow_witness:
  "(\<exists>s1. handleTable sample_externals
            (start \<lparr>opt_service = ById 0x20, opt_ignore_absent = False, opt_ignore_bat = False,
                     opt_ignore_nit = False, opt_stuffing = False\<rparr> constructed)
            \<lparr>tableId = TID_PAT, sourcePID = PID_PAT, tableIdExtension = 1, table_version = 0,
              content = Content_PAT \<lparr>nit_pid = 0x10, pmts = [(0x20, 0x100), (0x21, 0x200)]\<rparr>\<rparr>
              = Some s1
          \<and> {0x100} \<subseteq> drop_pids s1
          \<and> {0, 1, 2, 0x10, 0x11, 0x12, 0x13, 0x14, 0x15, 0x16, 0x1C, 0x1D, 0x1E, 0x1F, 0x1FFF,
              0x200} \<subseteq> ref_pids s1)
   \<and> (\<exists>st p s1. processPacket sample_externals
            (start \<lparr>opt_service = ById 0x20, opt_ignore_absent = False, opt_ignore_bat = False,
                     opt_ignore_nit = False, opt_stuffing = False\<rparr> constructed)
            \<lparr>getPID = 0, bytes = []\<rparr>
            [\<lparr>tableId = TID_PAT, sourcePID = PID_PAT, tableIdExtension = 1, table_version = 0,
              content = Content_PAT \<lparr>nit_pid = 0x10, pmts = [(0x20, 0x100), (0x21, 0x200)]\<rparr>\<rparr>]
              = Some (st, p, s1)
          \<and> PID_PAT \<in> ref_pids s1)
   \<and> (\<exists>out s1. run sample_externals
            (start \<lparr>opt_service = ById 0x20, opt_ignore_absent = False, opt_ignore_bat = False,
                     opt_ignore_nit = False, opt_stuffing = False\<rparr> constructed)
            [(\<lparr>getPID = 0x1FFF, bytes = []\<rparr>, [])] = Some (out, s1)
          \<and> PID_SDT \<in> ref_pids s1)
   \<and> (\<exists>out s''.
         run sample_externals
           (start \<lparr>opt_service = ById 0x20, opt_ignore_absent = False, opt_ignore_bat = False,
                    opt_ignore_nit = False, opt_stuffing = False\<rparr> constructed)
           [(\<lparr>getPID = 0, bytes = []\<rparr>,
             [\<lparr>tableId = TID_PAT, sourcePID = PID_PAT, tableIdExtension = 1, table_version = 0,
               content = Content_PAT \<lparr>nit_pid = 0x10, pmts = [(0x20, 0x100), (0x21, 0x200)]\<rparr>\<rparr>])]
           = Some (out, s'')
         \<and> {PID_PAT, PID_CAT, PID_TSDT, PID_NULL, PID_NIT, PID_SDT, PID_BAT, PID_EIT,
             PID_RST, PID_TDT, PID_NETSYNC, PID_RNT, PID_INBSIGN, PID_MEASURE, PID_DIT,
             PID_SIT} \<subseteq> ref_pids s'')"
proof -
  let ?opts = "\<lparr>opt_service = ById 0x20, opt_ignore_absent = False, opt_ignore_bat = False,
                     opt_ignore_nit = False, opt_stuffing = False\<rparr>"
  let ?t = "\<lparr>tableId = TID_PAT, sourcePID = PID_PAT, tableIdExtension = 1, table_version = 0,
               content = Content_PAT \<lparr>nit_pid = 0x10, pmts = [(0x20, 0x100), (0x21, 0x200)]\<rparr>\<rparr>"
  let ?ins = "[(\<lparr>getPID = 0, bytes = []\<rparr>, [?t])]"
  let ?s = "start ?opts constructed"
  let ?p = "\<lparr>nit_pid = 0x10, pmts = [(0x20, 0x100), (0x21, 0x200)]\<rparr>"
  have hid: "hasId (service ?s)"
    by (simp add: start_def Let_def Service_set_def hasId_def)
  obtain s1 p1 where pp: "processPAT ?s ?p = Some (s1, p1)"
    using processPAT_total [OF hid] by blast
  have h: "handleTable sample_externals ?s ?t = Some s1"
    using pp by (simp add: handleTable_PAT decode_PAT_def TID_PAT_def)
  have gid: "getId (service ?s) = 0x20"
    by (simp add: start_def Let_def Service_set_def getId_def)
  have d1: "0x100 \<in> drop_pids s1"
    unfolding processPAT_props(1) [OF pp] gid by (simp add: pmt_pids_of_def)
  have r1: "0x200 \<in> ref_pids s1"
    unfolding processPAT_props(2) [OF pp] gid by (simp add: other_pmt_pids_def)
  have seed: "ref_pids ?s =
        {PID_PAT, PID_CAT, PID_TSDT, PID_NULL, PID_NIT, PID_SDT, PID_EIT, PID_RST, PID_TDT,
         PID_NETSYNC, PID_RNT, PID_INBSIGN, PID_MEASURE, PID_DIT, PID_SIT}"
    using C10_pid_sets_grow [of sample_externals ?s ?t s1 undefined undefined undefined
              undefined undefined undefined ?opts constructed]
    by (elim conjE)
  have sub: "ref_pids ?s \<subseteq> ref_pids s1"
    using C10_pid_sets_grow [of sample_externals ?s ?t s1 undefined undefined undefined
              undefined undefined undefined ?opts constructed] h
    by (elim conjE) (drule (1) mp, elim conjE)
  have nums: "{0, 1, 2, 0x10, 0x11, 0x12, 0x13, 0x14, 0x15, 0x16, 0x1C, 0x1D, 0x1E, 0x1F, 0x1FFF}
               \<subseteq> ref_pids ?s"
    unfolding seed
    by (simp add: PID_PAT_def PID_CAT_def PID_TSDT_def PID_NULL_def PID_NIT_def PID_SDT_def
          PID_EIT_def PID_RST_def PID_TDT_def PID_NETSYNC_def PID_RNT_def PID_INBSIGN_def
          PID_MEASURE_def PID_DIT_def PID_SIT_def)
  have A: "\<exists>s1. handleTable sample_externals ?s ?t = Some s1
          \<and> {0x100} \<subseteq> drop_pids s1
          \<and> {0, 1, 2, 0x10, 0x11, 0x12, 0x13, 0x14, 0x15, 0x16, 0x1C, 0x1D, 0x1E, 0x1F, 0x1FFF,
              0x200} \<subseteq> ref_pids s1"
    using h d1 r1 nums sub by (intro exI [of _ s1]) auto
  have fresh: "pid_filter (demux constructed) \<subseteq> {PID_SDT}"
    by (simp add: constructed_def)
  have reg: "registered_after_id ?s" using fresh by (rule start_registered)
  obtain st p s2 where pp: "processPacket sample_externals ?s \<lparr>getPID = 0, bytes = []\<rparr> [?t]
      = Some (st, p, s2)"
    using processPacket_total [OF reg, of sample_externals "\<lparr>getPID = 0, bytes = []\<rparr>" "[?t]"]
    by (metis prod_cases3)
  have sub2: "ref_pids ?s \<subseteq> ref_pids s2"
    using C10_pid_sets_grow [of sample_externals ?s undefined s2 "\<lparr>getPID = 0, bytes = []\<rparr>"
              "[?t]" st p undefined undefined ?opts constructed] pp
    by (elim conjE) (drule (1) mp, elim conjE)
  have "PID_PAT \<in> ref_pids ?s" unfolding seed by simp
  then have P: "\<exists>st p s1. processPacket sample_externals ?s \<lparr>getPID = 0, bytes = []\<rparr> [?t]
      = Some (st, p, s1) \<and> PID_PAT \<in> ref_pids s1"
    using pp sub2 by blast
  obtain out3 s3 where rr: "run sample_externals ?s [(\<lparr>getPID = 0x1FFF, bytes = []\<rparr>, [])]
      = Some (out3, s3)"
    using run_total [OF reg, of sample_externals "[(\<lparr>getPID = 0x1FFF, bytes = []\<rparr>, [])]"]
    by (metis surj_pair)
  have sub3: "ref_pids ?s \<subseteq> ref_pids s3"
    using C10_pid_sets_grow [of sample_externals ?s undefined s3 undefined undefined undefined
              undefined "[(\<lparr>getPID = 0x1FFF, bytes = []\<rparr>, [])]" out3 ?opts constructed] rr
    by (elim conjE) (drule (1) mp, elim conjE)
  have "PID_SDT \<in> ref_pids ?s" unfolding seed by simp
  then have R: "\<exists>out s1. run sample_externals ?s [(\<lparr>getPID = 0x1FFF, bytes = []\<rparr>, [])]
      = Some (out, s1) \<and> PID_SDT \<in> ref_pids s1"
    using rr sub3 by blast
  have B: "\<exists>out s''. run sample_externals ?s ?ins = Some (out, s'')
         \<and> {PID_PAT, PID_CAT, PID_TSDT, PID_NULL, PID_NIT, PID_SDT, PID_BAT, PID_EIT,
             PID_RST, PID_TDT, PID_NETSYNC, PID_RNT, PID_INBSIGN, PID_MEASURE, PID_DIT,
             PID_SIT} \<subseteq> ref_pids s''"
    using C10_pid_sets_grow [of sample_externals constructed undefined constructed
              undefined undefined undefined undefined ?ins undefined ?opts constructed] fresh
    by (elim conjE) (erule mp)
  show ?thesis using A P R B by (intro conjI)
qed

section \<open>A PAT without the service\<close>

lemma route_END: "abort s \<Longrightarrow> fst (route x s pkt) = TSP_END"
  by (simp add: route_def)

text \<open>
  C7. For every decoded PAT in which the id of the service is absent (the id being known):
  \<^verbatim>\<open>processPAT\<close> leaves the PAT as it is and adds nothing to \<open>drop_pids\<close>; it sets \<open>ready\<close>
  exactly when ignore-absent is configured or NIT editing is not suppressed or BAT editing
  is not suppressed (\<open>ready\<close> then is true, and \<open>abort\<close> is as before); otherwise it sets
  \<open>abort\<close> and leaves \<open>ready\<close> as before, and the stream is ended at the next check of the
  router: in every state the run can reach from there the router returns \<^verbatim>\<open>TSP_END\<close>, and
  so does \<^verbatim>\<open>processPacket\<close> for the next packet.
\<close>

theorem C7_processPAT_absent_service:
  assumes "hasId (service s)" and "\<not> listed (getId (service s)) (pmts pat)"
  shows "\<exists>s'. processPAT s pat = Some (s', pat)
     \<and> drop_pids s' = drop_pids s
     \<and> (ready s' \<longleftrightarrow> ready s \<or> (ignore_absent s \<or> \<not> ignore_nit s \<or> \<not> ignore_bat s))
     \<and> (abort s' \<longleftrightarrow> abort s \<or> \<not> (ignore_absent s \<or> \<not> ignore_nit s \<or> \<not> ignore_bat s))
     \<and> (ignore_absent s \<or> \<not> ignore_nit s \<or> \<not> ignore_bat s \<longrightarrow>
          ready s' \<and> abort s' = abort s)
     \<and> (\<not> (ignore_absent s \<or> \<not> ignore_nit s \<or> \<not> ignore_bat s) \<longrightarrow>
          abort s' \<and> ready s' = ready s
          \<and> (\<forall>s2 pkt. grows s' s2 \<longrightarrow> fst (route x s2 pkt) = TSP_END)
          \<and> (\<forall>pkt tabs r. \<not> transparent s' \<and> processPacket x s' pkt tabs = Some r \<longrightarrow>
                fst r = TSP_END))"
proof -
  obtain s' pat' where r: "processPAT s pat = Some (s', pat')"
    using processPAT_total [OF assms(1)] by blast
  note P = processPAT_props [OF r]
  let ?A = "ignore_absent s \<or> \<not> ignore_nit s \<or> \<not> ignore_bat s"
  have p: "pat' = pat" using P(15) assms(2) by simp
  have "pmt_pids_of (getId (service s)) pat = {}"
    using assms(2) by (force simp: pmt_pids_of_def listed_def)
  then have d: "drop_pids s' = drop_pids s"
    using P(1) by simp
  have rd: "ready s' \<longleftrightarrow> ready s \<or> ?A" using P(16) assms(2) by simp
  have ab: "abort s' \<longleftrightarrow> abort s \<or> \<not> ?A" using P(17) assms(2) by simp
  have t: "?A \<longrightarrow> ready s' \<and> abort s' = abort s" using rd ab by blast
  have e: "abort s' \<and> ready s' = ready s
          \<and> (\<forall>s2 pkt. grows s' s2 \<longrightarrow> fst (route x s2 pkt) = TSP_END)
          \<and> (\<forall>pkt tabs r. \<not> transparent s' \<and> processPacket x s' pkt tabs = Some r \<longrightarrow>
                fst r = TSP_END)" if na: "\<not> ?A"
  proof -
    have a: "abort s'" using ab na by blast
    have b: "ready s' = ready s" using rd na by blast
    have c: "fst (route x s2 pkt) = TSP_END" if "grows s' s2" for s2 pkt
      using growsD(3) [OF that] a by (simp add: route_END)
    have "fst r = TSP_END"
      if h: "\<not> transparent s'" "processPacket x s' pkt tabs = Some r" for pkt tabs r
    proof -
      obtain s1 where f: "feedPacket x s' pkt tabs = Some s1" and rr: "r = route x s1 pkt"
        using h by (auto simp: processPacket_def split: option.splits)
      from c [OF feedPacket_grows [OF f]] rr show ?thesis by simp
    qed
    then show ?thesis using a b c by blast
  qed
  show ?thesis
    using r p d rd ab t e by blast
qed

theorem C7_processPAT_absent_witness:
  "map_option (\<lambda>r. (ready (fst r), abort (fst r), drop_pids (fst r), pmts (snd r)))
     (processPAT (constructed\<lparr>service := Service_set (ById 0x20), ignore_nit := True,
                               ignore_bat := True\<rparr>)
        \<lparr>nit_pid = 0x10, pmts = [(0x10, 0x80)]\<rparr>)
   = Some (False, True, {}, [(0x10, 0x80)])
   \<and> map_option (\<lambda>r. (ready (fst r), abort (fst r), drop_pids (fst r), pmts (snd r)))
     (processPAT (constructed\<lparr>service := Service_set (ById 0x20)\<rparr>)
        \<lparr>nit_pid = 0x10, pmts = [(0x10, 0x80)]\<rparr>)
   = Some (True, False, {}, [(0x10, 0x80)])"
proof -
  let ?s = "constructed\<lparr>service := Service_set (ById 0x20), ignore_nit := True,
                               ignore_bat := True\<rparr>"
  let ?s' = "constructed\<lparr>service := Service_set (ById 0x20)\<rparr>"
  let ?pat = "\<lparr>nit_pid = 0x10, pmts = [(0x10, 0x80)]\<rparr>"
  have h1: "hasId (service ?s)" "hasId (service ?s')"
    by (simp_all add: hasId_def Service_set_def)
  have h2: "\<not> listed (getId (service ?s)) (pmts ?pat)" "\<not> listed (getId (service ?s')) (pmts ?pat)"
    by (simp_all add: listed_def getId_def Service_set_def)
  obtain a where a: "processPAT ?s ?pat = Some (a, ?pat)" "drop_pids a = drop_pids ?s"
    "ready a \<longleftrightarrow> ready ?s \<or> (ignore_absent ?s \<or> \<not> ignore_nit ?s \<or> \<not> ignore_bat ?s)"
    "abort a \<longleftrightarrow> abort ?s \<or> \<not> (ignore_absent ?s \<or> \<not> ignore_nit ?s \<or> \<not> ignore_bat ?s)"
    using C7_processPAT_absent_service [OF h1(1) h2(1), of sample_externals] by (elim exE conjE)
  obtain b where b: "processPAT ?s' ?pat = Some (b, ?pat)" "drop_pids b = drop_pids ?s'"
    "ready b \<longleftrightarrow> ready ?s' \<or> (ignore_absent ?s' \<or> \<not> ignore_nit ?s' \<or> \<not> ignore_bat ?s')"
    "abort b \<longleftrightarrow> abort ?s' \<or> \<not> (ignore_absent ?s' \<or> \<not> ignore_nit ?s' \<or> \<not> ignore_bat ?s')"
    using C7_processPAT_absent_service [OF h1(2) h2(2), of sample_externals] by (elim exE conjE)
  show ?thesis
    using a(2-4) b(2-4) unfolding a(1) b(1) by (simp add: constructed_def)
qed

section \<open>A service that the SDT does not have\<close>

lemma run_transparent:
  "transparent s \<Longrightarrow> run x s ins = Some (map (\<lambda>i. (TSP_OK, fst i)) ins, s)"
  by (induction ins) (simp_all add: processPacket_transparent)

text \<open>
  C8. For every SDT Actual processed: when the service is designated by name (its id is
  not known) and the name is not found in the SDT, \<^verbatim>\<open>processSDT\<close> sets \<open>transparent\<close> if
  ignore-absent is configured, and all packets then pass unmodified (each one, and so every
  run from there, with the state left as it is); it sets \<open>abort\<close>
  otherwise, and the next routing check ends the stream; in both cases the SDT is not
  queued. When the id is known and the SDT has no entry for it, only an informational
  message is reported: no flag changes, the SDT is left as it is and is still queued in the
  SDT/BAT packetizer in place of the SDT Actual of the same transport stream id.
\<close>

theorem C8_processSDT_service_not_found:
  "(\<not> hasId (service s) \<and> findService x sdt (service s) = None \<and> ignore_absent s \<longrightarrow>
      transparent (fst (processSDT x s sdt))
      \<and> abort (fst (processSDT x s sdt)) = abort s
      \<and> pzer_sdt_bat (fst (processSDT x s sdt)) = pzer_sdt_bat s
      \<and> snd (processSDT x s sdt) = sdt
      \<and> (\<forall>pkt tabs. processPacket x (fst (processSDT x s sdt)) pkt tabs
             = Some (TSP_OK, pkt, fst (processSDT x s sdt)))
      \<and> (\<forall>ins. run x (fst (processSDT x s sdt)) ins
             = Some (map (\<lambda>i. (TSP_OK, fst i)) ins, fst (processSDT x s sdt))))
   \<and> (\<not> hasId (service s) \<and> findService x sdt (service s) = None \<and> \<not> ignore_absent s \<longrightarrow>
      abort (fst (processSDT x s sdt))
      \<and> transparent (fst (processSDT x s sdt)) = transparent s
      \<and> pzer_sdt_bat (fst (processSDT x s sdt)) = pzer_sdt_bat s
      \<and> snd (processSDT x s sdt) = sdt
      \<and> (\<forall>pkt tabs r. \<not> transparent s \<and> processPacket x (fst (processSDT x s sdt)) pkt tabs = Some r
             \<longrightarrow> fst r = TSP_END))
   \<and> (hasId (service s) \<and> \<not> listed (getId (service s)) (services sdt) \<longrightarrow>
      abort (fst (processSDT x s sdt)) = abort s
      \<and> transparent (fst (processSDT x s sdt)) = transparent s
      \<and> ready (fst (processSDT x s sdt)) = ready s
      \<and> drop_pids (fst (processSDT x s sdt)) = drop_pids s
      \<and> ref_pids (fst (processSDT x s sdt)) = ref_pids s
      \<and> report (fst (processSDT x s sdt))
           = report s @ [(Info, ''service not found in SDT, ignoring it'')]
      \<and> snd (processSDT x s sdt) = sdt
      \<and> sections (pzer_sdt_bat (fst (processSDT x s sdt)))
           = filter (\<lambda>q. \<not> (queued_tid q = TID_SDT_ACT \<and> queued_ext q = Some (ts_id sdt)))
               (sections (pzer_sdt_bat s)) @ [Modified_SDT sdt])
   \<and> (sv_name (service s) = Some n \<longrightarrow>
        (findService x sdt (service s) = None
           \<longleftrightarrow> (\<forall>e \<in> set (services sdt). \<not> similar x (serviceName (snd e)) n)))
   \<and> (tableId t = TID_SDT_ACT \<and> sourcePID t = PID_SDT \<and> decode_SDT t = Some sdt \<longrightarrow>
        handleTable x s t = Some (fst (processSDT x s sdt)))"
proof -
  let ?s' = "fst (processSDT x s sdt)"
  have a: "\<not> hasId (service s) \<and> findService x sdt (service s) = None \<and> ignore_absent s \<longrightarrow>
      transparent ?s' \<and> abort ?s' = abort s \<and> pzer_sdt_bat ?s' = pzer_sdt_bat s
      \<and> snd (processSDT x s sdt) = sdt
      \<and> (\<forall>pkt tabs. processPacket x ?s' pkt tabs = Some (TSP_OK, pkt, ?s'))
      \<and> (\<forall>ins. run x ?s' ins = Some (map (\<lambda>i. (TSP_OK, fst i)) ins, ?s'))"
    by (simp add: processSDT_name_not_found tsp_report_def processPacket_transparent
          run_transparent)
  have b: "\<not> hasId (service s) \<and> findService x sdt (service s) = None \<and> \<not> ignore_absent s \<longrightarrow>
      abort ?s' \<and> transparent ?s' = transparent s \<and> pzer_sdt_bat ?s' = pzer_sdt_bat s
      \<and> snd (processSDT x s sdt) = sdt
      \<and> (\<forall>pkt tabs r. \<not> transparent s \<and> processPacket x ?s' pkt tabs = Some r
             \<longrightarrow> fst r = TSP_END)"
  proof (intro impI)
    assume h: "\<not> hasId (service s) \<and> findService x sdt (service s) = None \<and> \<not> ignore_absent s"
    have e: "processSDT x s sdt
               = ((tsp_report Error ''service not found in SDT'' s)\<lparr>abort := True\<rparr>, sdt)"
      using h by (simp add: processSDT_name_not_found)
    have ab: "abort ?s'" and tr: "transparent ?s' = transparent s"
      by (simp_all add: e tsp_report_def)
    have "fst r = TSP_END"
      if h2: "\<not> transparent s" "processPacket x ?s' pkt tabs = Some r" for pkt tabs r
    proof -
      obtain s1 where f: "feedPacket x ?s' pkt tabs = Some s1" and rr: "r = route x s1 pkt"
        using h2 tr by (auto simp: processPacket_def split: option.splits)
      have "abort s1" using growsD(3) [OF feedPacket_grows [OF f]] ab by simp
      then show ?thesis using rr by (simp add: route_END)
    qed
    then have q: "\<forall>pkt tabs r. \<not> transparent s \<and> processPacket x ?s' pkt tabs = Some r
             \<longrightarrow> fst r = TSP_END"
      by blast
    have rest: "pzer_sdt_bat ?s' = pzer_sdt_bat s" "snd (processSDT x s sdt) = sdt"
      by (simp_all add: e tsp_report_def)
    show "abort ?s' \<and> transparent ?s' = transparent s \<and> pzer_sdt_bat ?s' = pzer_sdt_bat s
      \<and> snd (processSDT x s sdt) = sdt
      \<and> (\<forall>pkt tabs r. \<not> transparent s \<and> processPacket x ?s' pkt tabs = Some r
             \<longrightarrow> fst r = TSP_END)"
      using ab tr rest q by (intro conjI)
  qed
  have c: "hasId (service s) \<and> \<not> listed (getId (service s)) (services sdt) \<longrightarrow>
      abort ?s' = abort s \<and> transparent ?s' = transparent s \<and> ready ?s' = ready s
      \<and> drop_pids ?s' = drop_pids s \<and> ref_pids ?s' = ref_pids s
      \<and> report ?s' = report s @ [(Info, ''service not found in SDT, ignoring it'')]
      \<and> snd (processSDT x s sdt) = sdt
      \<and> sections (pzer_sdt_bat ?s')
           = filter (\<lambda>q. \<not> (queued_tid q = TID_SDT_ACT \<and> queued_ext q = Some (ts_id sdt)))
               (sections (pzer_sdt_bat s)) @ [Modified_SDT sdt]"
    by (simp add: processSDT_by_id erase_absent tsp_report_def addTable_def removeSections_ext_def)
  have d: "sv_name (service s) = Some n \<longrightarrow>
        (findService x sdt (service s) = None
           \<longleftrightarrow> (\<forall>e \<in> set (services sdt). \<not> similar x (serviceName (snd e)) n))"
    using findService_name_None [of x "services sdt" n]
    by (auto simp: findService_def split: option.splits)
  have e: "tableId t = TID_SDT_ACT \<and> sourcePID t = PID_SDT \<and> decode_SDT t = Some sdt \<longrightarrow>
        handleTable x s t = Some ?s'"
    by (simp add: handleTable_SDT_ACT)
  show ?thesis using a b c d e by (intro conjI)
qed
theorem C8_processSDT_witness:
  "transparent (fst (processSDT sample_externals
       (constructed\<lparr>service := Service_set (ByName ''Channel 5''), ignore_absent := True\<rparr>)
       \<lparr>ts_id = 1, services = [(0x30, \<lparr>serviceName = ''Channel 6''\<rparr>)]\<rparr>))
   \<and> abort (fst (processSDT sample_externals
       (constructed\<lparr>service := Service_set (ByName ''Channel 5'')\<rparr>)
       \<lparr>ts_id = 1, services = [(0x30, \<lparr>serviceName = ''Channel 6''\<rparr>)]\<rparr>))
   \<and> sections (pzer_sdt_bat (fst (processSDT sample_externals
       (constructed\<lparr>service := Service_set (ById 0x20)\<rparr>)
       \<lparr>ts_id = 1, services = [(0x30, \<lparr>serviceName = ''Channel 6''\<rparr>)]\<rparr>)))
     = [Modified_SDT \<lparr>ts_id = 1, services = [(0x30, \<lparr>serviceName = ''Channel 6''\<rparr>)]\<rparr>]"
proof -
  let ?sdt = "\<lparr>ts_id = 1, services = [(0x30, \<lparr>serviceName = ''Channel 6''\<rparr>)]\<rparr>"
  let ?a = "constructed\<lparr>service := Service_set (ByName ''Channel 5''), ignore_absent := True\<rparr>"
  let ?b = "constructed\<lparr>service := Service_set (ByName ''Channel 5'')\<rparr>"
  let ?c = "constructed\<lparr>service := Service_set (ById 0x20)\<rparr>"
  have nf: "findService sample_externals ?sdt (Service_set (ByName ''Channel 5'')) = None"
    by (simp add: findService_def Service_set_def sample_externals_def)
  have ha: "\<not> hasId (service ?a) \<and> findService sample_externals ?sdt (service ?a) = None
            \<and> ignore_absent ?a"
    using nf by (simp add: hasId_def Service_set_def)
  have hb: "\<not> hasId (service ?b) \<and> findService sample_externals ?sdt (service ?b) = None
            \<and> \<not> ignore_absent ?b"
    using nf by (simp add: hasId_def Service_set_def constructed_def)
  have hc: "hasId (service ?c) \<and> \<not> listed (getId (service ?c)) (services ?sdt)"
    by (simp add: hasId_def getId_def listed_def Service_set_def)
  have 1: "transparent (fst (processSDT sample_externals ?a ?sdt))"
    using C8_processSDT_service_not_found [of ?a sample_externals ?sdt, THEN conjunct1,
            THEN mp, OF ha] by (elim conjE)
  have 2: "abort (fst (processSDT sample_externals ?b ?sdt))"
    using C8_processSDT_service_not_found [of ?b sample_externals ?sdt, THEN conjunct2,
            THEN conjunct1, THEN mp, OF hb] by (elim conjE)
  have 3: "sections (pzer_sdt_bat (fst (processSDT sample_externals ?c ?sdt)))
           = filter (\<lambda>q. \<not> (queued_tid q = TID_SDT_ACT \<and> queued_ext q = Some (ts_id ?sdt)))
               (sections (pzer_sdt_bat ?c)) @ [Modified_SDT ?sdt]"
    using C8_processSDT_service_not_found [of ?c sample_externals ?sdt, THEN conjunct2,
            THEN conjunct2, THEN conjunct1, THEN mp, OF hc] by (elim conjE)
  show ?thesis
    using 1 2 unfolding 3 by (simp add: constructed_def)
qed

section \<open>A BAT or NIT before the id of the service is known\<close>











section \<open>A run: the BAT before the SDT\<close>

text \<open>
  The service is given by name. The first BAT arrives before the SDT and is deferred; the
  SDT gives the id \<open>0x30\<close> of the service; the BAT arrives again and is queued without
  the service list entry of the service. Until the PAT and PMT are seen the plugin is not
  ready, and every packet gets the drop behaviour.
\<close>

lemma run_BAT_before_SDT:
  "map_option (\<lambda>r. (map fst (fst r), sections (pzer_sdt_bat (snd r)), sv_id (service (snd r))))
     (run sample_externals
        (start \<lparr>opt_service = ByName ''Channel 5'', opt_ignore_absent = False,
                 opt_ignore_bat = False, opt_ignore_nit = False, opt_stuffing = False\<rparr>
           constructed)
        [(\<lparr>getPID = PID_BAT, bytes = []\<rparr>,
          [\<lparr>tableId = TID_BAT, sourcePID = PID_BAT, tableIdExtension = 1, table_version = 0,
            content = Content_BAT
              \<lparr>tid_ext = 1,
               descs = [\<lparr>desc = \<lparr>tag = DID_SERVICE_LIST, payload = [0, 0x30, 1, 0, 0x31, 1]\<rparr>,
                         pds = 0\<rparr>],
               transports = []\<rparr>\<rparr>]),
         (\<lparr>getPID = PID_SDT, bytes = []\<rparr>,
          [\<lparr>tableId = TID_SDT_ACT, sourcePID = PID_SDT, tableIdExtension = 7, table_version = 0,
            content = Content_SDT
              \<lparr>ts_id = 7, services = [(0x30, \<lparr>serviceName = ''Channel 5''\<rparr>),
                                       (0x31, \<lparr>serviceName = ''Channel 6''\<rparr>)]\<rparr>\<rparr>]),
         (\<lparr>getPID = PID_BAT, bytes = []\<rparr>,
          [\<lparr>tableId = TID_BAT, sourcePID = PID_BAT, tableIdExtension = 1, table_version = 0,
            content = Content_BAT
              \<lparr>tid_ext = 1,
               descs = [\<lparr>desc = \<lparr>tag = DID_SERVICE_LIST, payload = [0, 0x30, 1, 0, 0x31, 1]\<rparr>,
                         pds = 0\<rparr>],
               transports = []\<rparr>\<rparr>])])
   = Some ([TSP_DROP, TSP_DROP, TSP_DROP],
           [Modified_SDT \<lparr>ts_id = 7, services = [(0x31, \<lparr>serviceName = ''Channel 6''\<rparr>)]\<rparr>,
            Modified_BAT
              \<lparr>tid_ext = 1,
               descs = [\<lparr>desc = \<lparr>tag = DID_SERVICE_LIST, payload = [0, 0x31, 1]\<rparr>, pds = 0\<rparr>],
               transports = []\<rparr>],
           Some 0x30)"
proof -
  have e: "spec_edit 0x30 \<lparr>desc = \<lparr>tag = DID_SERVICE_LIST, payload = [0, 0x30, 1, 0, 0x31, 1]\<rparr>,
                            pds = 0\<rparr>
           = \<lparr>desc = \<lparr>tag = DID_SERVICE_LIST, payload = [0, 0x31, 1]\<rparr>, pds = 0\<rparr>"
    by (simp add: spec_edit_def kept_records_def records_step records_short record_id_def
          GetUInt16_def)
  have n: "getId (service s) = 0x30 \<Longrightarrow> processNITBAT s
           \<lparr>tid_ext = 1,
            descs = [\<lparr>desc = \<lparr>tag = DID_SERVICE_LIST, payload = [0, 0x30, 1, 0, 0x31, 1]\<rparr>,
                      pds = 0\<rparr>],
            transports = []\<rparr>
         = \<lparr>tid_ext = 1,
            descs = [\<lparr>desc = \<lparr>tag = DID_SERVICE_LIST, payload = [0, 0x31, 1]\<rparr>, pds = 0\<rparr>],
            transports = []\<rparr>" for s
    by (simp add: processNITBAT_def processNITBATDescriptorList_map e)
  show ?thesis
    by (simp add: start_def Let_def constructed_def processPacket_def deliver_def
          handleTable_BAT handleTable_SDT_ACT route_def table_key_of_def
          processSDT_def processSDT_lookup_def findService_def sample_externals_def
          Service_set_def hasId_def getId_def n erase_def
          addPID_def resetPID_def demux_reset_def pzer_reset_def addTable_def
          removeSections_ext_def decode_BAT_def decode_SDT_def tsp_report_def bouquet_id_def
          PID_BAT_def PID_SDT_def PID_PAT_def PID_NIT_def TID_defs)
qed

section \<open>A run: the NIT before the SDT\<close>

text \<open>
  The service is given by name, to a plugin just constructed. The NIT that arrives before
  the SDT is not handed to the handler, the NIT PID not being registered yet; the SDT gives
  the id \<open>0x30\<close> of the service and registers the NIT PID; the NIT arrives again and is
  queued without the service list entry of the service.
\<close>

lemma run_NIT_before_SDT:
  "map_option (\<lambda>r. (map fst (fst r), sections (pzer_nit (snd r)), sv_id (service (snd r))))
     (run sample_externals
        (start \<lparr>opt_service = ByName ''Channel 5'', opt_ignore_absent = False,
                 opt_ignore_bat = False, opt_ignore_nit = False, opt_stuffing = False\<rparr>
           constructed)
        [(\<lparr>getPID = PID_NIT, bytes = []\<rparr>,
          [\<lparr>tableId = TID_NIT_ACT, sourcePID = PID_NIT, tableIdExtension = 1, table_version = 0,
            content = Content_NIT
              \<lparr>tid_ext = 1,
               descs = [\<lparr>desc = \<lparr>tag = DID_SERVICE_LIST, payload = [0, 0x30, 1, 0, 0x31, 1]\<rparr>,
                         pds = 0\<rparr>],
               transports = []\<rparr>\<rparr>]),
         (\<lparr>getPID = PID_SDT, bytes = []\<rparr>,
          [\<lparr>tableId = TID_SDT_ACT, sourcePID = PID_SDT, tableIdExtension = 7, table_version = 0,
            content = Content_SDT
              \<lparr>ts_id = 7, services = [(0x30, \<lparr>serviceName = ''Channel 5''\<rparr>),
                                       (0x31, \<lparr>serviceName = ''Channel 6''\<rparr>)]\<rparr>\<rparr>]),
         (\<lparr>getPID = PID_NIT, bytes = []\<rparr>,
          [\<lparr>tableId = TID_NIT_ACT, sourcePID = PID_NIT, tableIdExtension = 1, table_version = 0,
            content = Content_NIT
              \<lparr>tid_ext = 1,
               descs = [\<lparr>desc = \<lparr>tag = DID_SERVICE_LIST, payload = [0, 0x30, 1, 0, 0x31, 1]\<rparr>,
                         pds = 0\<rparr>],
               transports = []\<rparr>\<rparr>])])
   = Some ([TSP_DROP, TSP_DROP, TSP_DROP],
           [Modified_NIT
              \<lparr>tid_ext = 1,
               descs = [\<lparr>desc = \<lparr>tag = DID_SERVICE_LIST, payload = [0, 0x31, 1]\<rparr>, pds = 0\<rparr>],
               transports = []\<rparr>],
           Some 0x30)"
proof -
  have e: "spec_edit 0x30 \<lparr>desc = \<lparr>tag = DID_SERVICE_LIST, payload = [0, 0x30, 1, 0, 0x31, 1]\<rparr>,
                            pds = 0\<rparr>
           = \<lparr>desc = \<lparr>tag = DID_SERVICE_LIST, payload = [0, 0x31, 1]\<rparr>, pds = 0\<rparr>"
    by (simp add: spec_edit_def kept_records_def records_step records_short record_id_def
          GetUInt16_def)
  have n: "getId (service s) = 0x30 \<Longrightarrow> processNITBAT s
           \<lparr>tid_ext = 1,
            descs = [\<lparr>desc = \<lparr>tag = DID_SERVICE_LIST, payload = [0, 0x30, 1, 0, 0x31, 1]\<rparr>,
                      pds = 0\<rparr>],
            transports = []\<rparr>
         = \<lparr>tid_ext = 1,
            descs = [\<lparr>desc = \<lparr>tag = DID_SERVICE_LIST, payload = [0, 0x31, 1]\<rparr>, pds = 0\<rparr>],
            transports = []\<rparr>" for s
    by (simp add: processNITBAT_def processNITBATDescriptorList_map e)
  show ?thesis
    by (simp add: start_def Let_def constructed_def processPacket_def deliver_def
          handleTable_NIT_ACT handleTable_SDT_ACT route_def table_key_of_def
          processSDT_def processSDT_lookup_def findService_def sample_externals_def
          Service_set_def hasId_def getId_def n erase_def
          addPID_def resetPID_def demux_reset_def pzer_reset_def addTable_def
          removeSections_ext_def decode_NIT_def decode_SDT_def tsp_report_def network_id_def
          PID_BAT_def PID_SDT_def PID_PAT_def PID_NIT_def TID_defs)
qed

section \<open>A second start by name\<close>

text \<open>
  The condition on the PIDs registered before \<^verbatim>\<open>start\<close>, in the statement on the NIT, is
  needed. A first run by name gets the id from the SDT, which registers the PAT and NIT
  PIDs. \<^verbatim>\<open>start\<close>, called again with the name, forgets the id, and \<^verbatim>\<open>reset()\<close> of the
  demultiplexer keeps the registered PIDs: the NIT that arrives next is handed to the
  handler, edited for the id 0 of a service without id, and queued with the service list
  entry of the service \<open>0x30\<close>.
\<close>

lemma run_second_start_by_name:
  "Option.bind
     (run sample_externals
        (start \<lparr>opt_service = ByName ''Channel 5'', opt_ignore_absent = False,
                 opt_ignore_bat = False, opt_ignore_nit = False, opt_stuffing = False\<rparr>
           constructed)
        [(\<lparr>getPID = PID_SDT, bytes = []\<rparr>,
          [\<lparr>tableId = TID_SDT_ACT, sourcePID = PID_SDT, tableIdExtension = 7, table_version = 0,
            content = Content_SDT
              \<lparr>ts_id = 7, services = [(0x30, \<lparr>serviceName = ''Channel 5''\<rparr>)]\<rparr>\<rparr>])])
     (\<lambda>r1. map_option
        (\<lambda>r. (sections (pzer_nit (snd r)), sv_id (service (snd r)),
               PID_NIT \<in> pid_filter (demux (snd r))))
        (run sample_externals
           (start \<lparr>opt_service = ByName ''Channel 5'', opt_ignore_absent = False,
                    opt_ignore_bat = False, opt_ignore_nit = False, opt_stuffing = False\<rparr>
              (snd r1))
           [(\<lparr>getPID = PID_NIT, bytes = []\<rparr>,
             [\<lparr>tableId = TID_NIT_ACT, sourcePID = PID_NIT, tableIdExtension = 1,
               table_version = 0,
               content = Content_NIT
                 \<lparr>tid_ext = 1,
                  descs = [\<lparr>desc = \<lparr>tag = DID_SERVICE_LIST, payload = [0, 0x30, 1]\<rparr>, pds = 0\<rparr>],
                  transports = []\<rparr>\<rparr>])]))
   = Some ([Modified_NIT
              \<lparr>tid_ext = 1,
               descs = [\<lparr>desc = \<lparr>tag = DID_SERVICE_LIST, payload = [0, 0x30, 1]\<rparr>, pds = 0\<rparr>],
               transports = []\<rparr>],
           None, True)"
proof -
  have e: "spec_edit 0 \<lparr>desc = \<lparr>tag = DID_SERVICE_LIST, payload = [0, 0x30, 1]\<rparr>, pds = 0\<rparr>
           = \<lparr>desc = \<lparr>tag = DID_SERVICE_LIST, payload = [0, 0x30, 1]\<rparr>, pds = 0\<rparr>"
    by (simp add: spec_edit_def kept_records_def records_step records_short record_id_def
          GetUInt16_def)
  have n: "getId (service s) = 0 \<Longrightarrow> processNITBAT s
           \<lparr>tid_ext = 1,
            descs = [\<lparr>desc = \<lparr>tag = DID_SERVICE_LIST, payload = [0, 0x30, 1]\<rparr>, pds = 0\<rparr>],
            transports = []\<rparr>
         = \<lparr>tid_ext = 1,
            descs = [\<lparr>desc = \<lparr>tag = DID_SERVICE_LIST, payload = [0, 0x30, 1]\<rparr>, pds = 0\<rparr>],
            transports = []\<rparr>" for s
    by (simp add: processNITBAT_def processNITBATDescriptorList_map e)
  show ?thesis
    by (simp add: start_def Let_def constructed_def processPacket_def deliver_def
          handleTable_NIT_ACT handleTable_SDT_ACT route_def table_key_of_def
          processSDT_def processSDT_lookup_def findService_def sample_externals_def
          Service_set_def hasId_def getId_def n erase_def
          addPID_def resetPID_def demux_reset_def pzer_reset_def addTable_def
          removeSections_ext_def decode_NIT_def decode_SDT_def tsp_report_def network_id_def
          PID_BAT_def PID_SDT_def PID_PAT_def PID_NIT_def TID_defs)
qed

section \<open>A run: a service removed, with a PID shared with another service\<close>

text \<open>
  The service \<open>0x20\<close> is given by id. The PAT maps it to the PMT PID \<open>0x100\<close> and the
  service \<open>0x21\<close> to \<open>0x200\<close>. The PMT of \<open>0x20\<close> names the PIDs \<open>0x101\<close> (also the PCR
  PID) and \<open>0x102\<close>; the PMT of \<open>0x21\<close> names \<open>0x201\<close> and, again, \<open>0x102\<close>. Packets are
  dropped until the PMT of the service is seen; then the packets of \<open>0x100\<close> and \<open>0x101\<close>
  are dropped, those of the shared PID \<open>0x102\<close> and of the other service pass, and a packet
  of the PAT PID is replaced by one of the PAT packetizer, which holds the PAT without the
  service.
\<close>

lemma run_service_removed:
  "map_option (\<lambda>r. (map fst (fst r),
                     map (\<lambda>p. (p \<in> drop_pids (snd r), p \<in> ref_pids (snd r)))
                       [0x100, 0x101, 0x102, 0x200, 0x201],
                     sections (pzer_pat (snd r))))
     (run sample_externals
        (start \<lparr>opt_service = ById 0x20, opt_ignore_absent = False,
                 opt_ignore_bat = False, opt_ignore_nit = False, opt_stuffing = False\<rparr>
           constructed)
        [(\<lparr>getPID = PID_PAT, bytes = []\<rparr>,
          [\<lparr>tableId = TID_PAT, sourcePID = PID_PAT, tableIdExtension = 7, table_version = 0,
            content = Content_PAT \<lparr>nit_pid = PID_NIT, pmts = [(0x20, 0x100), (0x21, 0x200)]\<rparr>\<rparr>]),
         (\<lparr>getPID = 0x100, bytes = []\<rparr>,
          [\<lparr>tableId = TID_PMT, sourcePID = 0x100, tableIdExtension = 0x20, table_version = 0,
            content = Content_PMT
              \<lparr>service_id = 0x20, pcr_pid = 0x101, pmt_descs = [],
               streams = [(0x101, \<lparr>stream_type = 2, stream_descs = []\<rparr>),
                          (0x102, \<lparr>stream_type = 4, stream_descs = []\<rparr>)]\<rparr>\<rparr>]),
         (\<lparr>getPID = 0x200, bytes = []\<rparr>,
          [\<lparr>tableId = TID_PMT, sourcePID = 0x200, tableIdExtension = 0x21, table_version = 0,
            content = Content_PMT
              \<lparr>service_id = 0x21, pcr_pid = 0x201, pmt_descs = [],
               streams = [(0x201, \<lparr>stream_type = 2, stream_descs = []\<rparr>),
                          (0x102, \<lparr>stream_type = 4, stream_descs = []\<rparr>)]\<rparr>\<rparr>]),
         (\<lparr>getPID = 0x101, bytes = []\<rparr>, []),
         (\<lparr>getPID = 0x102, bytes = []\<rparr>, []),
         (\<lparr>getPID = 0x201, bytes = []\<rparr>, []),
         (\<lparr>getPID = PID_PAT, bytes = []\<rparr>, [])])
   = Some ([TSP_DROP, TSP_DROP, TSP_OK, TSP_DROP, TSP_OK, TSP_OK, TSP_OK],
           [(True, False), (True, False), (True, True), (False, True), (False, True)],
           [Modified_PAT \<lparr>nit_pid = PID_NIT, pmts = [(0x21, 0x200)]\<rparr>])"
proof -
  have p1: "pmt_pids sample_externals
              \<lparr>service_id = 0x20, pcr_pid = 0x101, pmt_descs = [],
               streams = [(0x101, \<lparr>stream_type = 2, stream_descs = []\<rparr>),
                          (0x102, \<lparr>stream_type = 4, stream_descs = []\<rparr>)]\<rparr> = {0x101, 0x102}"
    by (auto simp: pmt_pids_def ecm_pids_def)
  have p2: "pmt_pids sample_externals
              \<lparr>service_id = 0x21, pcr_pid = 0x201, pmt_descs = [],
               streams = [(0x201, \<lparr>stream_type = 2, stream_descs = []\<rparr>),
                          (0x102, \<lparr>stream_type = 4, stream_descs = []\<rparr>)]\<rparr> = {0x201, 0x102}"
    by (auto simp: pmt_pids_def ecm_pids_def)
  have g: "getNextPacket sample_externals z = (\<lparr>getPID = pzer_pid z, bytes = []\<rparr>, z)" for z
    by (simp add: sample_externals_def)
  show ?thesis
    by (simp add: start_def Let_def constructed_def processPacket_def deliver_def
          handleTable_PAT handleTable_PMT route_def table_key_of_def
          processPAT_def processPMT_removed processPMT_other p1 p2 g
          Service_set_def hasId_def getId_def erase_def setPMTPID_def
          addPID_def demux_reset_def pzer_reset_def addTable_def setPID_def
          removeSections_def decode_PAT_def decode_PMT_def tsp_report_def
          standard_pids_def PID_PAT_def PID_CAT_def PID_TSDT_def PID_NULL_def PID_NIT_def
          PID_SDT_def PID_EIT_def PID_RST_def PID_TDT_def PID_NETSYNC_def PID_RNT_def
          PID_INBSIGN_def PID_MEASURE_def PID_DIT_def PID_SIT_def TID_defs)
qed

end
